theory Spec2Isabelle
  imports Complex_Main "HOL-Library.Monad_Syntax"
begin

section \<open>Floating-point values and arrays\<close>

text \<open>
  The entries of the arrays of \<^verbatim>\<open>utilities/CUR.py\<close> are IEEE doubles. They are modelled
  as exact real numbers together with one value \<open>NaN\<close>, which every arithmetic operation
  propagates and every comparison rejects: rounding is not modelled, and there are no
  infinities (a quotient by zero is \<open>NaN\<close>; the source only ever divides zero by a zero
  norm, or divides by an eigenvalue above the regularization floor).
  A raised Python exception is the value \<open>None\<close> of an option type.
\<close>

datatype fl = Fin real | NaN

fun fadd :: "fl \<Rightarrow> fl \<Rightarrow> fl" where
  "fadd (Fin a) (Fin b) = Fin (a + b)"
| "fadd _ _ = NaN"

fun fsub :: "fl \<Rightarrow> fl \<Rightarrow> fl" where
  "fsub (Fin a) (Fin b) = Fin (a - b)"
| "fsub _ _ = NaN"

fun fmul :: "fl \<Rightarrow> fl \<Rightarrow> fl" where
  "fmul (Fin a) (Fin b) = Fin (a * b)"
| "fmul _ _ = NaN"

fun fdiv :: "fl \<Rightarrow> fl \<Rightarrow> fl" where
  "fdiv (Fin a) (Fin b) = (if b = 0 then NaN else Fin (a / b))"
| "fdiv _ _ = NaN"

fun fsqrt :: "fl \<Rightarrow> fl" where
  "fsqrt (Fin a) = (if a < 0 then NaN else Fin (sqrt a))"
| "fsqrt NaN = NaN"

fun fabs :: "fl \<Rightarrow> fl" where
  "fabs (Fin a) = Fin \<bar>a\<bar>"
| "fabs NaN = NaN"

fun fless :: "fl \<Rightarrow> fl \<Rightarrow> bool" where
  "fless (Fin a) (Fin b) = (a < b)"
| "fless _ _ = False"

text \<open>Truth value of a number (\<^verbatim>\<open>bool(x)\<close>): everything but zero, \<open>NaN\<close> included.\<close>

definition truthy :: "fl \<Rightarrow> bool" where
  "truthy x = (x \<noteq> Fin 0)"

text \<open>A Python \<^verbatim>\<open>bool\<close> used as a number.\<close>

definition of_py_bool :: "bool \<Rightarrow> fl" where
  "of_py_bool b = (if b then Fin 1 else Fin 0)"

text \<open>Sum of a one-dimensional array, and the inner product \<^verbatim>\<open>np.dot\<close> of two.\<close>

definition fsum :: "fl list \<Rightarrow> fl" where
  "fsum xs = foldr fadd xs (Fin 0)"

definition dot :: "fl list \<Rightarrow> fl list \<Rightarrow> fl" where
  "dot u w = fsum (map2 fmul u w)"

text \<open>
  A two-dimensional array: its shape and its rows. The column count is kept beside the
  rows, so that an array with no row still has a shape, as in numpy.
\<close>

datatype mat = Mat (ncols: nat) (rows: "fl list list")

definition nrows :: "mat \<Rightarrow> nat" where
  "nrows M = length (rows M)"

definition shape :: "mat \<Rightarrow> nat \<times> nat" where
  "shape M = (nrows M, ncols M)"

definition wf_mat :: "mat \<Rightarrow> bool" where
  "wf_mat M = list_all (\<lambda>r. length r = ncols M) (rows M)"

definition entry :: "mat \<Rightarrow> nat \<Rightarrow> nat \<Rightarrow> fl" where
  "entry M i j = rows M ! i ! j"

definition mk :: "nat \<Rightarrow> nat \<Rightarrow> (nat \<Rightarrow> nat \<Rightarrow> fl) \<Rightarrow> mat" where
  "mk nr nc f = Mat nc (map (\<lambda>i. map (\<lambda>j. f i j) [0..<nc]) [0..<nr])"

definition of_rows :: "real list list \<Rightarrow> mat" where
  "of_rows rs = Mat (case rs of [] \<Rightarrow> 0 | r # _ \<Rightarrow> length r) (map (map Fin) rs)"

text \<open>\<^verbatim>\<open>M.T\<close>\<close>

definition mat_T :: "mat \<Rightarrow> mat" where
  "mat_T M = mk (ncols M) (nrows M) (\<lambda>i j. entry M j i)"

text \<open>\<^verbatim>\<open>M[:, j]\<close> for an index within range.\<close>

definition column :: "mat \<Rightarrow> nat \<Rightarrow> fl list" where
  "column M j = map (\<lambda>i. entry M i j) [0..<nrows M]"

text \<open>\<^verbatim>\<open>np.matmul\<close> of two-dimensional arrays: ValueError unless the inner dimensions agree.\<close>

definition matmul :: "mat \<Rightarrow> mat \<Rightarrow> mat option" where
  "matmul P Q =
     (if ncols P = nrows Q
      then Some (mk (nrows P) (ncols Q) (\<lambda>i j. dot (rows P ! i) (column Q j)))
      else None)"

text \<open>
  Elementwise \<^verbatim>\<open>P + Q\<close> and \<^verbatim>\<open>P - Q\<close>. Only operands of one shape are modelled: every
  sum and difference of \<^verbatim>\<open>CUR.py\<close> has operands of one shape, or is not reached.
\<close>

definition np_add :: "mat \<Rightarrow> mat \<Rightarrow> mat option" where
  "np_add P Q =
     (if shape P = shape Q
      then Some (mk (nrows P) (ncols P) (\<lambda>i j. fadd (entry P i j) (entry Q i j)))
      else None)"

definition np_sub :: "mat \<Rightarrow> mat \<Rightarrow> mat option" where
  "np_sub P Q =
     (if shape P = shape Q
      then Some (mk (nrows P) (ncols P) (\<lambda>i j. fsub (entry P i j) (entry Q i j)))
      else None)"

text \<open>\<^verbatim>\<open>c * M\<close> for a scalar \<open>c\<close>, \<^verbatim>\<open>np.abs(M)\<close>, \<^verbatim>\<open>M ** 2.0\<close> and \<^verbatim>\<open>np.all(M)\<close>.\<close>

definition scal :: "fl \<Rightarrow> mat \<Rightarrow> mat" where
  "scal c M = Mat (ncols M) (map (map (fmul c)) (rows M))"

definition np_abs :: "mat \<Rightarrow> mat" where
  "np_abs M = Mat (ncols M) (map (map fabs) (rows M))"

definition np_square :: "mat \<Rightarrow> mat" where
  "np_square M = Mat (ncols M) (map (map (\<lambda>x. fmul x x)) (rows M))"

definition np_all :: "mat \<Rightarrow> bool" where
  "np_all M = list_all (list_all truthy) (rows M)"

section \<open>The symmetry flag of the constructor\<close>

text \<open>
  \<^verbatim>\<open>
  self.symmetric = self.A.shape == self.A.T.shape and \
      np.all(np.abs(self.A-self.A.T)) < symmetry_tolerance
  \<close>
  The comparison with the tolerance is applied to the result of \<^verbatim>\<open>np.all\<close>, a truth
  value, which Python reads as the number 0 or 1. The difference is only evaluated for
  equal shapes (\<^verbatim>\<open>and\<close> is lazy), so the broadcasting failure of \<open>np_sub\<close> is not reached.
\<close>

definition symmetric_flag :: "mat \<Rightarrow> fl \<Rightarrow> bool" where
  "symmetric_flag A symmetry_tolerance =
     (if shape A = shape (mat_T A)
      then (case np_sub A (mat_T A) of
              Some D \<Rightarrow> fless (of_py_bool (np_all (np_abs D))) symmetry_tolerance
            | None \<Rightarrow> False)
      else False)"


section \<open>The numerical library\<close>

text \<open>
  The truncated singular value decomposition (\<^verbatim>\<open>scipy.sparse.linalg.svds\<close>), the
  pseudoinverse (\<^verbatim>\<open>np.linalg.pinv\<close>) and the sorted eigendecomposition (\<^verbatim>\<open>sorted_eig\<close>
  of \<^verbatim>\<open>utilities/general.py\<close>) are not part of \<^verbatim>\<open>CUR.py\<close>. Every function below that
  calls one of them takes it as a parameter; \<open>None\<close> is an exception raised by the call.
  \<^item> \<open>svd M k\<close> is \<^verbatim>\<open>svd(M, k)\<close>, the triple \<open>(S, v, D)\<close>;
  \<^item> \<open>sorted_eig M thresh n\<close> is \<^verbatim>\<open>sorted_eig(M, thresh=.., n=..)\<close>, the pair of the
    eigenvalues and the array whose columns are the eigenvectors; a keyword that the
    call does not give is \<open>None\<close>;
  \<^item> \<open>pinv M\<close> is \<^verbatim>\<open>np.linalg.pinv(M)\<close>.
\<close>

type_synonym svd_fun = "mat \<Rightarrow> nat \<Rightarrow> (mat \<times> fl list \<times> mat) option"

type_synonym eig_fun = "mat \<Rightarrow> fl option \<Rightarrow> nat option \<Rightarrow> (fl list \<times> mat) option"

type_synonym pinv_fun = "mat \<Rightarrow> mat option"

section \<open>Indexing and reductions\<close>

text \<open>\<^verbatim>\<open>xs[i]\<close> on a Python list, for an index that is not negative: IndexError out of range.\<close>

definition py_nth :: "'a list \<Rightarrow> nat \<Rightarrow> 'a option" where
  "py_nth xs i = (if i < length xs then Some (xs ! i) else None)"

text \<open>\<^verbatim>\<open>M[:k]\<close> and \<^verbatim>\<open>M[:, :k]\<close>: slices never fail.\<close>

definition row_slice :: "nat \<Rightarrow> mat \<Rightarrow> mat" where
  "row_slice k M = Mat (ncols M) (take k (rows M))"

definition col_slice :: "nat \<Rightarrow> mat \<Rightarrow> mat" where
  "col_slice k M = Mat (min k (ncols M)) (map (take k) (rows M))"

text \<open>\<^verbatim>\<open>M.sum(axis=0)\<close> (one sum per column) and \<^verbatim>\<open>M.sum(axis=1)\<close> (one sum per row).\<close>

definition sum_axis0 :: "mat \<Rightarrow> fl list" where
  "sum_axis0 M = map (\<lambda>j. fsum (column M j)) [0..<ncols M]"

definition sum_axis1 :: "mat \<Rightarrow> fl list" where
  "sum_axis1 M = map fsum (rows M)"

text \<open>\<^verbatim>\<open>pi[idxs] = 0\<close>: IndexError when an index is out of range.\<close>

definition zero_at :: "fl list \<Rightarrow> nat list \<Rightarrow> fl list option" where
  "zero_at pi' idxs =
     (if list_all (\<lambda>i. i < length pi') idxs
      then Some (fold (\<lambda>i p. p[i := Fin 0]) idxs pi')
      else None)"

text \<open>
  \<^verbatim>\<open>pi.argmax()\<close>: the first index of the greatest entry, where \<open>NaN\<close> counts as greater
  than every number; ValueError on an empty array.
\<close>

fun beats :: "fl \<Rightarrow> fl \<Rightarrow> bool" where
  "beats _ NaN = False"
| "beats NaN (Fin b) = True"
| "beats (Fin x) (Fin b) = (b < x)"

fun argmax_from :: "fl list \<Rightarrow> nat \<Rightarrow> nat \<Rightarrow> fl \<Rightarrow> nat" where
  "argmax_from [] i best b = best"
| "argmax_from (x # xs) i best b =
     (if beats x b then argmax_from xs (Suc i) i x else argmax_from xs (Suc i) best b)"

fun argmax :: "fl list \<Rightarrow> nat option" where
  "argmax [] = None"
| "argmax (x # xs) = Some (argmax_from xs 1 0 x)"

text \<open>\<^verbatim>\<open>M[:, js]\<close> and \<^verbatim>\<open>M[is, :]\<close> for lists of indices: IndexError out of range.\<close>

definition take_cols :: "mat \<Rightarrow> nat list \<Rightarrow> mat option" where
  "take_cols M js =
     (if list_all (\<lambda>j. j < ncols M) js
      then Some (mk (nrows M) (length js) (\<lambda>i t. entry M i (js ! t)))
      else None)"

definition take_rows :: "mat \<Rightarrow> nat list \<Rightarrow> mat option" where
  "take_rows M ixs =
     (if list_all (\<lambda>i. i < nrows M) ixs
      then Some (mk (length ixs) (ncols M) (\<lambda>t j. entry M (ixs ! t) j))
      else None)"

text \<open>
  \<^verbatim>\<open>M[:, mask]\<close> and \<^verbatim>\<open>v[mask]\<close> for a boolean mask: the entries where the mask holds;
  IndexError unless the mask is as long as the indexed dimension.
\<close>

definition mask_vec :: "'a list \<Rightarrow> bool list \<Rightarrow> 'a list option" where
  "mask_vec v msk =
     (if length msk = length v
      then Some (map fst (filter snd (zip v msk)))
      else None)"

definition mask_cols :: "mat \<Rightarrow> bool list \<Rightarrow> mat option" where
  "mask_cols M msk =
     (if length msk = ncols M
      then Some (Mat (length (filter id msk))
                  (map (\<lambda>r. map fst (filter snd (zip r msk))) (rows M)))
      else None)"

text \<open>\<^verbatim>\<open>np.diag(v)\<close> of a one-dimensional array.\<close>

definition np_diag :: "fl list \<Rightarrow> mat" where
  "np_diag v = mk (length v) (length v) (\<lambda>i j. if i = j then v ! i else Fin 0)"

section \<open>Deflation\<close>

text \<open>
  The last five lines of the loop body of both selection functions, for the selected
  column \<open>j = idxs[nn]\<close>:
  \<^verbatim>\<open>
  v = Acopy[:, j] / np.sqrt(np.matmul(Acopy[:, j], Acopy[:, j]))
  for i in range(Acopy.shape[1]):
      Acopy[:, i] -= v * np.dot(v, Acopy[:, i])
  \<close>
  \<open>v\<close> is a new array, so the update of one column does not change it, and column \<open>i\<close> is
  read before it is written. A column of norm zero makes \<open>v\<close>, and then the whole array,
  \<open>NaN\<close>; no exception is raised.
\<close>

definition deflate :: "mat \<Rightarrow> nat \<Rightarrow> mat option" where
  "deflate Acopy j =
     (if j < ncols Acopy
      then (let c = column Acopy j;
                v = map (\<lambda>x. fdiv x (fsqrt (dot c c))) c
            in Some (mk (nrows Acopy) (ncols Acopy)
                      (\<lambda>r i. fsub (entry Acopy r i) (fmul (v ! r) (dot v (column Acopy i))))))
      else None)"

section \<open>Selection by the singular value decomposition\<close>

text \<open>
  One round \<open>nn\<close> of the loop of \<^verbatim>\<open>svd_select\<close>, on the working copy and the index list:
  \<^verbatim>\<open>
  if(nn >= len(idxs)):
      (S, v, D) = svd(Acopy, k)
      pi = (D[:k]**2.0).sum(axis=0)
      pi[idxs] = 0  # eliminate possibility of selecting same column twice
      i = pi.argmax()
      idxs.append(i)
  \<close>
  followed by the deflation with column \<^verbatim>\<open>idxs[nn]\<close>.
\<close>

definition svd_pick :: "svd_fun \<Rightarrow> nat \<Rightarrow> mat \<Rightarrow> nat list \<Rightarrow> nat option" where
  "svd_pick svd k Acopy idxs =
     do {
       (S, v, D) \<leftarrow> svd Acopy k;
       pi' \<leftarrow> zero_at (sum_axis0 (np_square (row_slice k D))) idxs;
       argmax pi'
     }"

definition svd_round :: "svd_fun \<Rightarrow> nat \<Rightarrow> nat \<Rightarrow> mat \<times> nat list \<Rightarrow> (mat \<times> nat list) option" where
  "svd_round svd k nn st =
     (case st of (Acopy, idxs) \<Rightarrow>
       do {
         idxs' \<leftarrow> (if nn \<ge> length idxs
                   then do { i \<leftarrow> svd_pick svd k Acopy idxs; Some (idxs @ [i]) }
                   else Some idxs);
         j \<leftarrow> py_nth idxs' nn;
         Acopy' \<leftarrow> deflate Acopy j;
         Some (Acopy', idxs')
       })"

text \<open>\<^verbatim>\<open>for nn in range(n)\<close>: the rounds \<open>nn, nn + 1, ...\<close>, \<open>m\<close> of them.\<close>

fun svd_rounds :: "svd_fun \<Rightarrow> nat \<Rightarrow> nat \<Rightarrow> nat \<Rightarrow> mat \<times> nat list \<Rightarrow> (mat \<times> nat list) option" where
  "svd_rounds svd k nn 0 st = Some st"
| "svd_rounds svd k nn (Suc m) st =
     do { st' \<leftarrow> svd_round svd k nn st; svd_rounds svd k (Suc nn) m st' }"

text \<open>
  \<^verbatim>\<open>svd_select(A, n, k, idxs)\<close>, as a function of the values of its arguments: \<open>idxs\<close> is
  \<open>None\<close> or the content of the list to resume from. The result is the returned list.
\<close>

definition svd_select :: "svd_fun \<Rightarrow> mat \<Rightarrow> nat \<Rightarrow> nat \<Rightarrow> nat list option \<Rightarrow> nat list option" where
  "svd_select svd A n k idxs =
     do {
       (Acopy, idxs') \<leftarrow> svd_rounds svd k 0 n (A, case idxs of None \<Rightarrow> [] | Some l \<Rightarrow> l);
       Some idxs'
     }"

section \<open>The PCovR covariance\<close>

text \<open>
  \<^verbatim>\<open>get_Ct(X, Y, alpha, regularization)\<close>, line by line. The eigenpairs that survive are
  those whose eigenvalue is greater than the regularization; both masks are computed
  from the eigenvalues as \<^verbatim>\<open>sorted_eig\<close> returned them.
\<close>

definition get_Ct :: "eig_fun \<Rightarrow> mat \<Rightarrow> mat \<Rightarrow> fl \<Rightarrow> fl \<Rightarrow> mat option" where
  "get_Ct sorted_eig X Y alpha regularization =
     do {
       cov \<leftarrow> matmul (mat_T X) X;
       (v_C, U_C) \<leftarrow> sorted_eig cov (Some regularization) None;
       let keep = map (\<lambda>v. fless regularization v) v_C;
       U_C' \<leftarrow> mask_cols U_C keep;
       v_C' \<leftarrow> mask_vec v_C keep;
       UD \<leftarrow> matmul U_C' (np_diag (map fsqrt v_C'));
       Csqrt \<leftarrow> matmul UD (mat_T U_C');
       UI \<leftarrow> matmul U_C' (np_diag (map (fdiv (Fin 1)) v_C'));
       Cinv \<leftarrow> matmul UI (mat_T U_C');
       XtY \<leftarrow> matmul (mat_T X) Y;
       C_lr1 \<leftarrow> matmul Cinv XtY;
       C_lr2 \<leftarrow> matmul Csqrt C_lr1;
       C_lr \<leftarrow> matmul C_lr2 (mat_T C_lr2);
       np_add (scal alpha cov) (scal (fsub (Fin 1) alpha) C_lr)
     }"

text \<open>The default \<^verbatim>\<open>regularization=1e-6\<close>, which \<^verbatim>\<open>pcovr_select\<close> never overrides.\<close>

definition default_regularization :: fl where
  "default_regularization = Fin (1 / 1000000)"

section \<open>The property updater\<close>

text \<open>
  \<^verbatim>\<open>update(Y_copy, X_c)\<close>: the result is the new content of the array \<^verbatim>\<open>Y_copy\<close>, which
  the source changes in place (\<^verbatim>\<open>Y_copy -= np.matmul(v, Y_copy)\<close>).
\<close>

definition update :: "pinv_fun \<Rightarrow> mat \<Rightarrow> mat \<Rightarrow> mat option" where
  "update pinv Y_copy X_c =
     do {
       G \<leftarrow> matmul (mat_T X_c) X_c;
       v \<leftarrow> pinv G;
       v \<leftarrow> matmul X_c v;
       v \<leftarrow> matmul v (mat_T X_c);
       HY \<leftarrow> matmul v Y_copy;
       np_sub Y_copy HY
     }"

section \<open>Selection by the PCovR covariance\<close>

text \<open>A loop body either goes on to the next round or returns from the function.\<close>

datatype 's step = Next 's | Return "nat list"

text \<open>
  The scoring of a new round, after \<^verbatim>\<open>get_Ct\<close> has returned \<open>Ct\<close>:
  \<^verbatim>\<open>
  v_Ct, U_Ct = sorted_eig(Ct, n=k)
  pi = (np.real(U_Ct)[:, :k]**2.0).sum(axis=1)
  pi[idxs] = 0  # eliminate possibility of selecting same column twice
  j = pi.argmax()
  \<close>
\<close>

definition pcovr_pick :: "eig_fun \<Rightarrow> nat \<Rightarrow> mat \<Rightarrow> nat list \<Rightarrow> nat option" where
  "pcovr_pick sorted_eig k Ct idxs =
     do {
       (v_Ct, U_Ct) \<leftarrow> sorted_eig Ct None (Some k);
       pi' \<leftarrow> zero_at (sum_axis1 (np_square (col_slice k U_Ct))) idxs;
       argmax pi'
     }"

text \<open>
  One round of the loop of \<^verbatim>\<open>pcovr_select\<close>. Only the call of \<^verbatim>\<open>get_Ct\<close> stands inside
  the \<^verbatim>\<open>try\<close>: an exception there makes the function return \<^verbatim>\<open>list(idxs)\<close>; every other
  exception leaves the function.
\<close>

definition pcovr_round ::
  "eig_fun \<Rightarrow> pinv_fun \<Rightarrow> fl \<Rightarrow> nat \<Rightarrow> nat \<Rightarrow> mat \<times> mat \<times> nat list
     \<Rightarrow> (mat \<times> mat \<times> nat list) step option" where
  "pcovr_round sorted_eig pinv alpha k nn st =
     (case st of (Acopy, Ycopy, idxs) \<Rightarrow>
       do {
         r \<leftarrow> (if nn \<ge> length idxs
               then (case get_Ct sorted_eig Acopy Ycopy alpha default_regularization of
                       None \<Rightarrow> Some (Return idxs)
                     | Some Ct \<Rightarrow>
                         do { j \<leftarrow> pcovr_pick sorted_eig k Ct idxs; Some (Next (idxs @ [j])) })
               else Some (Next idxs));
         (case r of
            Return l \<Rightarrow> Some (Return l)
          | Next idxs' \<Rightarrow>
              do {
                j \<leftarrow> py_nth idxs' nn;
                Acopy' \<leftarrow> deflate Acopy j;
                X_c \<leftarrow> take_cols Acopy' idxs';
                Ycopy' \<leftarrow> update pinv Ycopy X_c;
                Some (Next (Acopy', Ycopy', idxs'))
              })
       })"

fun pcovr_rounds ::
  "eig_fun \<Rightarrow> pinv_fun \<Rightarrow> fl \<Rightarrow> nat \<Rightarrow> nat \<Rightarrow> nat \<Rightarrow> mat \<times> mat \<times> nat list
     \<Rightarrow> (mat \<times> mat \<times> nat list) step option" where
  "pcovr_rounds sorted_eig pinv alpha k nn 0 st = Some (Next st)"
| "pcovr_rounds sorted_eig pinv alpha k nn (Suc m) st =
     do {
       r \<leftarrow> pcovr_round sorted_eig pinv alpha k nn st;
       (case r of
          Return l \<Rightarrow> Some (Return l)
        | Next st' \<Rightarrow> pcovr_rounds sorted_eig pinv alpha k (Suc nn) m st')
     }"

text \<open>\<^verbatim>\<open>pcovr_select(A, n, Y, alpha, k, idxs)\<close>, as a function of the values of its arguments.\<close>

definition pcovr_select ::
  "eig_fun \<Rightarrow> pinv_fun \<Rightarrow> mat \<Rightarrow> nat \<Rightarrow> mat \<Rightarrow> fl \<Rightarrow> nat \<Rightarrow> nat list option
     \<Rightarrow> nat list option" where
  "pcovr_select sorted_eig pinv A n Y alpha k idxs =
     do {
       r \<leftarrow> pcovr_rounds sorted_eig pinv alpha k 0 n
              (A, Y, case idxs of None \<Rightarrow> [] | Some l \<Rightarrow> l);
       (case r of
          Return l \<Rightarrow> Some l
        | Next (Acopy, Ycopy, idxs') \<Rightarrow> Some idxs')
     }"

section \<open>The selection functions on a store\<close>

text \<open>
  The caller's arrays and lists are objects that the selection functions receive by
  reference. A store is the list of the objects allocated so far, a reference is a
  position in it, and a new object is put at the end.
\<close>

datatype obj = Array mat | PyList "nat list"

type_synonym store = "obj list"

definition alloc :: "store \<Rightarrow> obj \<Rightarrow> nat \<times> store" where
  "alloc h ob = (length h, h @ [ob])"

definition get_array :: "store \<Rightarrow> nat \<Rightarrow> mat option" where
  "get_array h r = (if r < length h then (case h ! r of Array M \<Rightarrow> Some M | PyList l \<Rightarrow> None) else None)"

definition get_list :: "store \<Rightarrow> nat \<Rightarrow> nat list option" where
  "get_list h r = (if r < length h then (case h ! r of PyList l \<Rightarrow> Some l | Array M \<Rightarrow> None) else None)"

text \<open>
  One round of \<^verbatim>\<open>svd_select\<close> on the store: \<^verbatim>\<open>idxs.append(i)\<close> writes the list object
  \<open>idxs\<close>, and the deflation writes the array object \<open>Acopy\<close>.
\<close>

definition svd_round_store :: "svd_fun \<Rightarrow> nat \<Rightarrow> nat \<Rightarrow> nat \<Rightarrow> nat \<Rightarrow> store \<Rightarrow> store option" where
  "svd_round_store svd k Acopy idxs nn h =
     do {
       M \<leftarrow> get_array h Acopy;
       l \<leftarrow> get_list h idxs;
       h1 \<leftarrow> (if nn \<ge> length l
              then do { i \<leftarrow> svd_pick svd k M l; Some (h[idxs := PyList (l @ [i])]) }
              else Some h);
       l' \<leftarrow> get_list h1 idxs;
       j \<leftarrow> py_nth l' nn;
       M1 \<leftarrow> get_array h1 Acopy;
       M' \<leftarrow> deflate M1 j;
       Some (h1[Acopy := Array M'])
     }"

fun svd_rounds_store :: "svd_fun \<Rightarrow> nat \<Rightarrow> nat \<Rightarrow> nat \<Rightarrow> nat \<Rightarrow> nat \<Rightarrow> store \<Rightarrow> store option" where
  "svd_rounds_store svd k Acopy idxs nn 0 h = Some h"
| "svd_rounds_store svd k Acopy idxs nn (Suc m) h =
     do { h' \<leftarrow> svd_round_store svd k Acopy idxs nn h;
          svd_rounds_store svd k Acopy idxs (Suc nn) m h' }"

text \<open>
  \<^verbatim>\<open>svd_select(A, n, k, idxs)\<close> on references: \<^verbatim>\<open>idxs = []\<close> allocates a list when the
  caller gave none, \<^verbatim>\<open>A.copy()\<close> allocates the working copy, and \<^verbatim>\<open>list(idxs)\<close> allocates
  the returned list. The result is the reference returned and the store left behind.
\<close>

definition svd_select_store ::
  "svd_fun \<Rightarrow> store \<Rightarrow> nat \<Rightarrow> nat \<Rightarrow> nat \<Rightarrow> nat option \<Rightarrow> (nat \<times> store) option" where
  "svd_select_store svd h A n k idxs =
     do {
       let (idxs', h1) = (case idxs of None \<Rightarrow> alloc h (PyList []) | Some r \<Rightarrow> (r, h));
       M \<leftarrow> get_array h1 A;
       let (Acopy, h2) = alloc h1 (Array M);
       h3 \<leftarrow> svd_rounds_store svd k Acopy idxs' 0 n h2;
       l \<leftarrow> get_list h3 idxs';
       Some (alloc h3 (PyList l))
     }"

text \<open>
  The same for \<^verbatim>\<open>pcovr_select\<close>: \<^verbatim>\<open>update(Ycopy, Acopy[:, idxs])\<close> writes the array object
  \<open>Ycopy\<close>. A round that returns hands back the store as it is.
\<close>

definition pcovr_round_store ::
  "eig_fun \<Rightarrow> pinv_fun \<Rightarrow> fl \<Rightarrow> nat \<Rightarrow> nat \<Rightarrow> nat \<Rightarrow> nat \<Rightarrow> nat \<Rightarrow> store
     \<Rightarrow> (store step) option" where
  "pcovr_round_store sorted_eig pinv alpha k Acopy Ycopy idxs nn h =
     do {
       M \<leftarrow> get_array h Acopy;
       Yc \<leftarrow> get_array h Ycopy;
       l \<leftarrow> get_list h idxs;
       r \<leftarrow> (if nn \<ge> length l
             then (case get_Ct sorted_eig M Yc alpha default_regularization of
                     None \<Rightarrow> Some (Return l)
                   | Some Ct \<Rightarrow>
                       do { j \<leftarrow> pcovr_pick sorted_eig k Ct l;
                            Some (Next (h[idxs := PyList (l @ [j])])) })
             else Some (Next h));
       (case r of
          Return l0 \<Rightarrow> Some (Return l0)
        | Next h1 \<Rightarrow>
            do {
              l' \<leftarrow> get_list h1 idxs;
              j \<leftarrow> py_nth l' nn;
              M1 \<leftarrow> get_array h1 Acopy;
              M' \<leftarrow> deflate M1 j;
              let h2 = h1[Acopy := Array M'];
              M2 \<leftarrow> get_array h2 Acopy;
              l2 \<leftarrow> get_list h2 idxs;
              X_c \<leftarrow> take_cols M2 l2;
              Y1 \<leftarrow> get_array h2 Ycopy;
              Y' \<leftarrow> update pinv Y1 X_c;
              Some (Next (h2[Ycopy := Array Y']))
            })
     }"

fun pcovr_rounds_store ::
  "eig_fun \<Rightarrow> pinv_fun \<Rightarrow> fl \<Rightarrow> nat \<Rightarrow> nat \<Rightarrow> nat \<Rightarrow> nat \<Rightarrow> nat \<Rightarrow> nat \<Rightarrow> store
     \<Rightarrow> (store \<times> nat list option) option" where
  "pcovr_rounds_store sorted_eig pinv alpha k Acopy Ycopy idxs nn 0 h = Some (h, None)"
| "pcovr_rounds_store sorted_eig pinv alpha k Acopy Ycopy idxs nn (Suc m) h =
     do {
       r \<leftarrow> pcovr_round_store sorted_eig pinv alpha k Acopy Ycopy idxs nn h;
       (case r of
          Return l \<Rightarrow> Some (h, Some l)
        | Next h' \<Rightarrow> pcovr_rounds_store sorted_eig pinv alpha k Acopy Ycopy idxs (Suc nn) m h')
     }"

definition pcovr_select_store ::
  "eig_fun \<Rightarrow> pinv_fun \<Rightarrow> store \<Rightarrow> nat \<Rightarrow> nat \<Rightarrow> nat \<Rightarrow> fl \<Rightarrow> nat \<Rightarrow> nat option
     \<Rightarrow> (nat \<times> store) option" where
  "pcovr_select_store sorted_eig pinv h A n Y alpha k idxs =
     do {
       M \<leftarrow> get_array h A;
       let (Acopy, h1) = alloc h (Array M);
       Y0 \<leftarrow> get_array h1 Y;
       let (Ycopy, h2) = alloc h1 (Array Y0);
       let (idxs', h3) = (case idxs of None \<Rightarrow> alloc h2 (PyList []) | Some r \<Rightarrow> (r, h2));
       (h4, early) \<leftarrow> pcovr_rounds_store sorted_eig pinv alpha k Acopy Ycopy idxs' 0 n h3;
       l \<leftarrow> (case early of Some l0 \<Rightarrow> Some l0 | None \<Rightarrow> get_list h4 idxs');
       Some (alloc h4 (PyList l))
     }"

section \<open>The class CUR\<close>

text \<open>
  \<^verbatim>\<open>pi_function\<close> is the name of a selection function or a function of the caller's.
  \<^verbatim>\<open>selections.get(pi_function, None)\<close> knows the names \<^verbatim>\<open>'svd'\<close> and \<^verbatim>\<open>'pcovr'\<close>; for
  another name \<^verbatim>\<open>self.select\<close> is \<^verbatim>\<open>None\<close>, and calling it raises TypeError. Of the
  dictionary \<^verbatim>\<open>params\<close> the keys \<^verbatim>\<open>'k'\<close>, \<^verbatim>\<open>'Y'\<close> and \<^verbatim>\<open>'alpha'\<close> are kept, each present or not:
  both selection functions ignore other keywords, \<^verbatim>\<open>k\<close> defaults to 1, and \<^verbatim>\<open>pcovr_select\<close>
  raises TypeError without \<^verbatim>\<open>Y\<close> or \<^verbatim>\<open>alpha\<close>. A count that is \<^verbatim>\<open>None\<close> makes \<^verbatim>\<open>range(n)\<close>
  raise TypeError.
\<close>

type_synonym select_fun = "mat \<Rightarrow> nat option \<Rightarrow> nat list option \<Rightarrow> nat list option"

datatype pi_function = Name string | Callable select_fun

record params =
  param_k :: "nat option"
  param_Y :: "mat option"
  param_alpha :: "fl option"

record numlib =
  lib_svd :: svd_fun
  lib_sorted_eig :: eig_fun
  lib_pinv :: pinv_fun

definition call_select ::
  "numlib \<Rightarrow> pi_function \<Rightarrow> params \<Rightarrow> mat \<Rightarrow> nat option \<Rightarrow> nat list option \<Rightarrow> nat list option" where
  "call_select lib pf ps M n idxs =
     (case pf of
        Callable f \<Rightarrow> f M n idxs
      | Name s \<Rightarrow>
          if s = ''svd'' then
            (case n of
               None \<Rightarrow> None
             | Some n' \<Rightarrow>
                 svd_select (lib_svd lib) M n' (case param_k ps of None \<Rightarrow> 1 | Some k \<Rightarrow> k) idxs)
          else if s = ''pcovr'' then
            (case (param_Y ps, param_alpha ps, n) of
               (Some Y, Some alpha, Some n') \<Rightarrow>
                 pcovr_select (lib_sorted_eig lib) (lib_pinv lib) M n' Y alpha
                   (case param_k ps of None \<Rightarrow> 1 | Some k \<Rightarrow> k) idxs
             | _ \<Rightarrow> None)
          else None)"

record CUR =
  self_A :: mat
  symmetric :: bool
  fs :: bool
  pi_fun :: pi_function
  params :: params
  idx_c :: "nat list option"
  idx_r :: "nat list option"

text \<open>
  \<^verbatim>\<open>compute_idx(n_c, n_r)\<close>: the pair it returns, and the instance after the call. The
  method assigns no attribute, but the two selection functions of this module append to
  the list they resume from, so a cached list comes back extended when the instance
  selects by name. A function of the caller's is a function of the values of its
  arguments here: it leaves the list it is given, and so the instance, as they were.
  Without feature selection a symmetric instance holds one list object in both
  attributes (\<^verbatim>\<open>idx_r = idx_c\<close> below), which is how the two attributes can hold the same
  content.
\<close>

fun appends_in_place :: "pi_function \<Rightarrow> bool" where
  "appends_in_place (Name s) = True"
| "appends_in_place (Callable f) = False"

definition compute_idx ::
  "numlib \<Rightarrow> CUR \<Rightarrow> nat \<Rightarrow> nat option \<Rightarrow> ((nat list \<times> nat list) \<times> CUR) option" where
  "compute_idx lib c n_c n_r =
     do {
       idx_c' \<leftarrow> call_select lib (pi_fun c) (params c) (self_A c) (Some n_c) (idx_c c);
       let c1 = (if appends_in_place (pi_fun c)
                 then c\<lparr>idx_c := map_option (\<lambda>_. idx_c') (idx_c c),
                        idx_r := (if symmetric c \<and> \<not> fs c \<and> idx_r c = idx_c c
                                  then map_option (\<lambda>_. idx_c') (idx_r c)
                                  else idx_r c)\<rparr>
                 else c);
       if fs c then Some ((idx_c', [0..<ncols (self_A c)]), c1)
       else if \<not> symmetric c then
         do {
           idx_r' \<leftarrow> call_select lib (pi_fun c) (params c) (mat_T (self_A c)) n_r (idx_r c);
           Some ((idx_c', idx_r'),
                 if appends_in_place (pi_fun c)
                 then c1\<lparr>idx_r := map_option (\<lambda>_. idx_r') (idx_r c)\<rparr>
                 else c1)
         }
       else Some ((idx_c', idx_c'), c1)
     }"

text \<open>
  \<^verbatim>\<open>compute(n_c, n_r)\<close>: the triple \<^verbatim>\<open>(A_c, S, A_r)\<close> and the instance after the call.
  \<^verbatim>\<open>len(None)\<close> and \<^verbatim>\<open>len(self.idx_r) < None\<close> raise TypeError.
\<close>

definition refresh_idx ::
  "numlib \<Rightarrow> CUR \<Rightarrow> nat \<Rightarrow> nat option \<Rightarrow> ((nat list \<times> nat list) \<times> CUR) option" where
  "refresh_idx lib c n_c n_r =
     do {
       ((ic, ir), c1) \<leftarrow> compute_idx lib c n_c n_r;
       Some ((ic, ir), c1\<lparr>idx_c := Some ic, idx_r := Some ir\<rparr>)
     }"

definition compute ::
  "numlib \<Rightarrow> CUR \<Rightarrow> nat \<Rightarrow> nat option \<Rightarrow> ((mat \<times> mat \<times> mat) \<times> CUR) option" where
  "compute lib c n_c n_r0 =
     do {
       let n_r = (if fs c then Some (ncols (self_A c))
                  else if symmetric c \<and> n_r0 = None then Some n_c
                  else n_r0);
       ((idx_c', idx_r'), c') \<leftarrow>
         (if idx_c c = None \<or> (\<not> fs c \<and> idx_r c = None) then refresh_idx lib c n_c n_r
          else
            do {
              lc \<leftarrow> idx_c c;
              short \<leftarrow> (if length lc < n_c then Some True
                        else do { lr \<leftarrow> idx_r c; m \<leftarrow> n_r; Some (length lr < m) });
              if short then refresh_idx lib c n_c n_r
              else do { lr \<leftarrow> idx_r c; m \<leftarrow> n_r; Some ((take n_c lc, take m lr), c) }
            });
       A_c \<leftarrow> take_cols (self_A c) idx_c';
       A_r \<leftarrow> (if symmetric c \<and> \<not> fs c then Some (mat_T A_c)
               else if fs c then Some (self_A c)
               else take_rows (self_A c) idx_r');
       PA_c \<leftarrow> lib_pinv lib A_c;
       PA_cA \<leftarrow> matmul PA_c (self_A c);
       PA_r \<leftarrow> lib_pinv lib A_r;
       S \<leftarrow> matmul PA_cA PA_r;
       Some ((A_c, S, A_r), c')
     }"

text \<open>\<^verbatim>\<open>np.linalg.norm\<close> of a two-dimensional array: the Frobenius norm.\<close>

definition norm_fro :: "mat \<Rightarrow> fl" where
  "norm_fro M = fsqrt (fsum (concat (map (map (\<lambda>x. fmul x x)) (rows M))))"

text \<open>\<^verbatim>\<open>loss(n_c, n_r)\<close>: the relative error and the instance after the call.\<close>

definition loss :: "numlib \<Rightarrow> CUR \<Rightarrow> nat \<Rightarrow> nat option \<Rightarrow> (fl \<times> CUR) option" where
  "loss lib c n_c n_r =
     do {
       ((A_c, S, A_r), c') \<leftarrow> compute lib c n_c n_r;
       SA_r \<leftarrow> matmul S A_r;
       R \<leftarrow> matmul A_c SA_r;
       E \<leftarrow> np_sub (self_A c) R;
       Some (fdiv (norm_fro E) (norm_fro (self_A c)), c')
     }"

text \<open>
  The constructor. \<^verbatim>\<open>precompute\<close> is \<^verbatim>\<open>None\<close> or the pair of counts (an integer \<open>p\<close> is the
  pair \<open>(p, p)\<close>).
\<close>

definition init ::
  "numlib \<Rightarrow> mat \<Rightarrow> (nat \<times> nat) option \<Rightarrow> bool \<Rightarrow> pi_function \<Rightarrow> fl \<Rightarrow> params \<Rightarrow> CUR option" where
  "init lib matrix precompute feature_select pi_function symmetry_tolerance ps =
     (let c = \<lparr>self_A = matrix,
                symmetric = symmetric_flag matrix symmetry_tolerance,
                fs = feature_select,
                pi_fun = pi_function,
                params = ps,
                idx_c = None,
                idx_r = None\<rparr>
      in case precompute of
           None \<Rightarrow> Some c
         | Some (p_c, p_r) \<Rightarrow>
             do { (r, c1) \<leftarrow> refresh_idx lib c p_c (Some p_r); Some c1 })"

section \<open>Library values for the worked examples\<close>

text \<open>
  A worked example needs the values that the numerical library returns on the arrays
  it meets. They are given as a table from arguments to results; a call outside the
  table raises.
\<close>

definition svd_table :: "((mat \<times> nat) \<times> (mat \<times> fl list \<times> mat)) list \<Rightarrow> svd_fun" where
  "svd_table tab M k = map_of tab (M, k)"

definition eig_table ::
  "((mat \<times> fl option \<times> nat option) \<times> (fl list \<times> mat)) list \<Rightarrow> eig_fun" where
  "eig_table tab M thresh n = map_of tab (M, thresh, n)"

definition pinv_table :: "(mat \<times> mat) list \<Rightarrow> pinv_fun" where
  "pinv_table tab M = map_of tab M"

text \<open>
  The example matrix \<open>A = [[2, 0], [0, 1]]\<close> and the property \<open>Y = [[1], [0]]\<close>. The working
  copy is \<open>A\<close>, then \<open>[[0, 0], [0, 1]]\<close> after the deflation with column 0, then the zero
  matrix after the deflation with column 1.
\<close>

definition ex_A :: mat where
  "ex_A = of_rows [[2, 0], [0, 1]]"

definition ex_Y :: mat where
  "ex_Y = of_rows [[1], [0]]"

definition ex_A1 :: mat where
  "ex_A1 = of_rows [[0, 0], [0, 1]]"

definition ex_A2 :: mat where
  "ex_A2 = of_rows [[0, 0], [0, 0]]"

text \<open>
  The leading singular triple of \<open>A\<close> is \<open>(e\<^sub>0, 2, e\<^sub>0)\<close>, that of \<open>[[0, 0], [0, 1]]\<close> is
  \<open>(e\<^sub>1, 1, e\<^sub>1)\<close>. The zero matrix has no leading direction: \<open>z\<close> is what the library
  returns for it (\<open>None\<close> if it raises).
\<close>

definition ex_svd :: "(mat \<times> fl list \<times> mat) option \<Rightarrow> svd_fun" where
  "ex_svd z =
     (\<lambda>M k. if (M, k) = (of_rows [[0, 0], [0, 0]], 1) then z
            else svd_table
              [((of_rows [[2, 0], [0, 1]], 1), (of_rows [[1], [0]], [Fin 2], of_rows [[1, 0]])),
               ((of_rows [[0, 0], [0, 1]], 1), (of_rows [[0], [1]], [Fin 1], of_rows [[0, 1]]))]
              M k)"

text \<open>
  The eigenpairs, sorted by descending eigenvalue, of the covariances met by
  \<^verbatim>\<open>pcovr_select\<close> on \<open>A\<close> and \<open>Y\<close>: \<open>diag(4, 1)\<close> and \<open>diag(0, 1)\<close> (all pairs, for
  \<^verbatim>\<open>get_Ct\<close>; the leading pair, for the scoring with \<open>alpha = 1\<close>), and the leading pairs
  of \<open>diag(5/2, 1/2)\<close> and \<open>diag(0, 1/2)\<close> (the scoring with \<open>alpha = 1/2\<close>). On the zero
  matrix, where no eigenvalue exceeds the regularization, the solver raises.
\<close>

definition ex_eig :: eig_fun where
  "ex_eig = eig_table
     [((of_rows [[4, 0], [0, 1]], Some default_regularization, None),
         ([Fin 4, Fin 1], of_rows [[1, 0], [0, 1]])),
      ((of_rows [[0, 0], [0, 1]], Some default_regularization, None),
         ([Fin 1, Fin 0], of_rows [[0, 1], [1, 0]])),
      ((of_rows [[4, 0], [0, 1]], None, Some 1), ([Fin 4], of_rows [[1], [0]])),
      ((of_rows [[0, 0], [0, 1]], None, Some 1), ([Fin 1], of_rows [[0], [1]])),
      ((of_rows [[5 / 2, 0], [0, 1 / 2]], None, Some 1), ([Fin (5 / 2)], of_rows [[1], [0]])),
      ((of_rows [[0, 0], [0, 1 / 2]], None, Some 1), ([Fin (1 / 2)], of_rows [[0], [1]]))]"

text \<open>
  The pseudoinverse of a zero matrix is the zero matrix of the transposed shape; that of
  \<open>A\<close> is \<open>diag(1/2, 1)\<close>, and that of its first column \<open>[[2], [0]]\<close> is \<open>[[1/2, 0]]\<close>.
\<close>

definition ex_pinv :: pinv_fun where
  "ex_pinv = pinv_table
     [(of_rows [[0]], of_rows [[0]]),
      (of_rows [[0, 0], [0, 0]], of_rows [[0, 0], [0, 0]]),
      (of_rows [[2, 0], [0, 1]], of_rows [[1 / 2, 0], [0, 1]]),
      (of_rows [[2], [0]], of_rows [[1 / 2, 0]])]"

definition ex_lib :: numlib where
  "ex_lib = \<lparr>lib_svd = ex_svd None, lib_sorted_eig = ex_eig, lib_pinv = ex_pinv\<rparr>"

text \<open>
  An instance for \<open>A\<close> that selects by \<^verbatim>\<open>'svd'\<close> with no parameters: its symmetry flag, its
  feature selection mode and its cached lists are the arguments.
\<close>

definition ex_cur :: "bool \<Rightarrow> bool \<Rightarrow> nat list option \<Rightarrow> nat list option \<Rightarrow> CUR" where
  "ex_cur is_symmetric feature_select ic ir =
     \<lparr>self_A = ex_A, symmetric = is_symmetric, fs = feature_select, pi_fun = Name ''svd'',
      params = \<lparr>param_k = None, param_Y = None, param_alpha = None\<rparr>,
      idx_c = ic, idx_r = ir\<rparr>"

text \<open>A store of a caller: the arrays \<open>A\<close> and \<open>Y\<close> and the list \<open>[0]\<close> to resume from.\<close>

definition ex_store :: store where
  "ex_store = [Array ex_A, Array ex_Y, PyList [0]]"

section \<open>Statements of the specification\<close>

text \<open>An array without \<open>NaN\<close>.\<close>

definition nan_free :: "mat \<Rightarrow> bool" where
  "nan_free M = list_all (list_all (\<lambda>x. x \<noteq> NaN)) (rows M)"

text \<open>
  The covariance as the specification words it, to be compared with \<open>get_Ct\<close>: the same
  steps, but \<open>C_lr = Csqrt \<cdot> (Cinv \<cdot> X\<^sup>TY) \<cdot> (Cinv \<cdot> X\<^sup>TY)\<^sup>T\<close>.
\<close>

definition get_Ct_spec :: "eig_fun \<Rightarrow> mat \<Rightarrow> mat \<Rightarrow> fl \<Rightarrow> fl \<Rightarrow> mat option" where
  "get_Ct_spec sorted_eig X Y alpha regularization =
     do {
       cov \<leftarrow> matmul (mat_T X) X;
       (v_C, U_C) \<leftarrow> sorted_eig cov (Some regularization) None;
       let keep = map (\<lambda>v. fless regularization v) v_C;
       U_C' \<leftarrow> mask_cols U_C keep;
       v_C' \<leftarrow> mask_vec v_C keep;
       UD \<leftarrow> matmul U_C' (np_diag (map fsqrt v_C'));
       Csqrt \<leftarrow> matmul UD (mat_T U_C');
       UI \<leftarrow> matmul U_C' (np_diag (map (fdiv (Fin 1)) v_C'));
       Cinv \<leftarrow> matmul UI (mat_T U_C');
       XtY \<leftarrow> matmul (mat_T X) Y;
       B \<leftarrow> matmul Cinv XtY;
       CB \<leftarrow> matmul Csqrt B;
       C_lr \<leftarrow> matmul CB (mat_T B);
       np_add (scal alpha cov) (scal (fsub (Fin 1) alpha) C_lr)
     }"

text \<open>
  The eigenpairs of the 1 x 1 matrix \<open>[[4]]\<close>, the pseudoinverse of \<open>[[1]]\<close>.
\<close>

definition ex_eig_1x1 :: eig_fun where
  "ex_eig_1x1 = eig_table
     [((of_rows [[4]], Some default_regularization, None), ([Fin 4], of_rows [[1]]))]"

definition ex_pinv_1x1 :: pinv_fun where
  "ex_pinv_1x1 = pinv_table [(of_rows [[1]], of_rows [[1]])]"

section \<open>Finite arrays\<close>

text \<open>
  An array is finite when each of its rows has the length that its shape states and no
  entry is \<open>NaN\<close>; its entries are then read as real numbers.
\<close>

fun real_of :: "fl \<Rightarrow> real" where
  "real_of (Fin a) = a"
| "real_of NaN = 0"

definition rentry :: "mat \<Rightarrow> nat \<Rightarrow> nat \<Rightarrow> real" where
  "rentry M r i = real_of (entry M r i)"

definition fin_mat :: "mat \<Rightarrow> bool" where
  "fin_mat M = (wf_mat M \<and> nan_free M)"

section \<open>The leading direction and the library routines\<close>

text \<open>
  With \<open>alpha = 1\<close> the two selection functions score the columns from the same
  direction, found by two different library routines: the eigen-solver returns the leading
  eigenvector of the covariance \<open>C = X\<^sup>T \<cdot> X\<close>, and \<^verbatim>\<open>svds\<close> the leading right singular
  vector of \<open>X\<close>, an eigenvector of \<open>C\<close> for its greatest eigenvalue.
  \<open>leading_pair C lam u\<close>: \<open>u\<close> is a unit eigenvector of \<open>C\<close> for \<open>lam\<close>, and no eigenvalue
  of \<open>C\<close> is greater than \<open>lam\<close>.
\<close>

definition eigvec :: "mat \<Rightarrow> real \<Rightarrow> (nat \<Rightarrow> real) \<Rightarrow> bool" where
  "eigvec C lam u = (\<forall>i<nrows C. (\<Sum>j<ncols C. rentry C i j * u j) = lam * u i)"

definition leading_pair :: "mat \<Rightarrow> real \<Rightarrow> (nat \<Rightarrow> real) \<Rightarrow> bool" where
  "leading_pair C lam u =
     (eigvec C lam u \<and> (\<Sum>i<nrows C. u i * u i) = 1
      \<and> (\<forall>mu w. eigvec C mu w \<and> (\<exists>i<nrows C. w i \<noteq> 0) \<longrightarrow> mu \<le> lam))"

text \<open>
  What the two routines are taken to guarantee, for an accuracy \<open>eps\<close>, when they return:
  on a covariance without \<open>NaN\<close>, an array without \<open>NaN\<close> and of the expected shape, whose
  squared entries (the scores of the columns) are within \<open>eps\<close> of those of a leading pair.
  Nothing is said of the sign of the vector, of the other outputs, or of which leading
  pair it is when there are several.
\<close>

definition eig_contract :: "real \<Rightarrow> eig_fun \<Rightarrow> bool" where
  "eig_contract eps sorted_eig =
     (\<forall>C w U. fin_mat C \<and> sorted_eig C None (Some 1) = Some (w, U) \<longrightarrow>
        fin_mat U \<and> nrows U = nrows C \<and> 0 < ncols U
        \<and> (\<exists>lam u. leading_pair C lam u
              \<and> (\<forall>i<nrows C. \<bar>rentry U i 0 * rentry U i 0 - u i * u i\<bar> \<le> eps)))"

definition svd_contract :: "real \<Rightarrow> svd_fun \<Rightarrow> bool" where
  "svd_contract eps svd =
     (\<forall>X S v D cov. svd X 1 = Some (S, v, D) \<and> matmul (mat_T X) X = Some cov \<and> fin_mat cov \<longrightarrow>
        fin_mat D \<and> 0 < nrows D \<and> ncols D = ncols X
        \<and> (\<exists>lam u. leading_pair cov lam u
              \<and> (\<forall>j<ncols X. \<bar>rentry D 0 j * rentry D 0 j - u j * u j\<bar> \<le> eps)))"

text \<open>
  One column \<open>j\<close>, not selected yet, leads in every leading pair of \<open>C\<close>: its score is
  greater than \<open>eps\<close> and greater than that of every other unselected column by more than
  \<open>2 * eps\<close>. Scores that are accurate to \<open>eps\<close> then have their greatest unselected
  entry at \<open>j\<close>.
\<close>

definition clear_leader :: "real \<Rightarrow> mat \<Rightarrow> nat list \<Rightarrow> bool" where
  "clear_leader eps C idxs =
     (\<exists>j<nrows C. j \<notin> set idxs
        \<and> (\<forall>lam u. leading_pair C lam u \<longrightarrow>
              eps < u j * u j
              \<and> (\<forall>i<nrows C. i \<noteq> j \<and> i \<notin> set idxs \<longrightarrow> u i * u i + 2 * eps < u j * u j)))"

text \<open>
  The identity matrix \<open>[[1, 0], [0, 1]]\<close>. Its covariance is the identity too, with the
  eigenvalue 1 twice: every unit vector is a leading eigenvector, and a leading right
  singular vector of the matrix. Here the eigen-solver returns \<open>e\<^sub>0\<close> and \<^verbatim>\<open>svds\<close>
  returns \<open>e\<^sub>1\<close>.
\<close>

definition ex_I :: mat where
  "ex_I = of_rows [[1, 0], [0, 1]]"

definition ex_I_eig :: eig_fun where
  "ex_I_eig = eig_table
     [((of_rows [[1, 0], [0, 1]], Some default_regularization, None),
         ([Fin 1, Fin 1], of_rows [[1, 0], [0, 1]])),
      ((of_rows [[1, 0], [0, 1]], None, Some 1), ([Fin 1], of_rows [[1], [0]]))]"

definition ex_I_svd :: svd_fun where
  "ex_I_svd = svd_table
     [((of_rows [[1, 0], [0, 1]], 1), (of_rows [[0], [1]], [Fin 1], of_rows [[0, 1]]))]"

section \<open>The eigen-solver on the exhausted working copy\<close>

text \<open>
  The eigen-solver of the worked example when it also returns on the zero matrix, the
  working copy of \<open>A\<close> after two deflations: both eigenvalues are 0, and \<open>U\<close> (for the call
  of \<^verbatim>\<open>get_Ct\<close>) and \<open>u\<close> (for the scoring) are the eigenvectors that it returns. Any
  orthonormal vectors are eigenvectors of the zero matrix.
\<close>

definition ex_eig_full :: "mat \<Rightarrow> mat \<Rightarrow> eig_fun" where
  "ex_eig_full U u =
     (\<lambda>M thresh n.
        if M = ex_A2 \<and> thresh = Some default_regularization \<and> n = None
        then Some ([Fin 0, Fin 0], U)
        else if M = ex_A2 \<and> thresh = None \<and> n = Some 1
        then Some ([Fin 0], u)
        else ex_eig M thresh n)"

text \<open>
  \<^verbatim>\<open>np.linalg.pinv\<close> raises LinAlgError on an array that holds \<open>NaN\<close>, as \<open>ex_pinv\<close> does.
  \<open>ex_pinv_nan\<close> is a pseudoinverse that returns the array itself instead, on the
  3 x 3 array of \<open>NaN\<close>.
\<close>

definition ex_pinv_nan :: pinv_fun where
  "ex_pinv_nan =
     (\<lambda>M. if M = Mat 3 [[NaN, NaN, NaN], [NaN, NaN, NaN], [NaN, NaN, NaN]] then Some M
          else ex_pinv M)"

section \<open>A selection function of the caller's\<close>

text \<open>
  \<^verbatim>\<open>lambda A, n, idxs=None, **kw: list(range(n))[::-1]\<close>, a selection function that does
  not resume from the list it is given, and an instance for \<open>A\<close> in feature selection mode
  that selects with it. The library holds the pseudoinverses of \<open>A\<close>, of its first column
  and of \<open>A\<close> with its columns exchanged.
\<close>

definition ex_newest_first :: select_fun where
  "ex_newest_first M n idxs = map_option (\<lambda>n'. rev [0..<n']) n"

definition ex_nf_lib :: numlib where
  "ex_nf_lib =
     \<lparr>lib_svd = (\<lambda>M k. None), lib_sorted_eig = (\<lambda>M thresh n. None),
      lib_pinv = pinv_table
        [(of_rows [[2], [0]], of_rows [[1 / 2, 0]]),
         (of_rows [[2, 0], [0, 1]], of_rows [[1 / 2, 0], [0, 1]]),
         (of_rows [[0, 2], [1, 0]], of_rows [[0, 1], [1 / 2, 0]])]\<rparr>"

definition ex_nf_cur :: "nat list option \<Rightarrow> nat list option \<Rightarrow> CUR" where
  "ex_nf_cur ic ir =
     \<lparr>self_A = ex_A, symmetric = True, fs = True, pi_fun = Callable ex_newest_first,
      params = \<lparr>param_k = None, param_Y = None, param_alpha = None\<rparr>,
      idx_c = ic, idx_r = ir\<rparr>"

section \<open>A rectangular example\<close>

text \<open>
  The 4 x 3 matrix \<open>B\<close> with the columns \<open>3 e\<^sub>0\<close>, \<open>2 e\<^sub>1\<close> and \<open>e\<^sub>2\<close>, its working copies
  after the deflations with the columns 0, 1 and 2, its transpose and the working copies
  of the transpose.
\<close>

definition ex_B :: mat where
  "ex_B = of_rows [[3, 0, 0], [0, 2, 0], [0, 0, 1], [0, 0, 0]]"

definition ex_B1 :: mat where
  "ex_B1 = of_rows [[0, 0, 0], [0, 2, 0], [0, 0, 1], [0, 0, 0]]"

definition ex_B2 :: mat where
  "ex_B2 = of_rows [[0, 0, 0], [0, 0, 0], [0, 0, 1], [0, 0, 0]]"

definition ex_B3 :: mat where
  "ex_B3 = of_rows [[0, 0, 0], [0, 0, 0], [0, 0, 0], [0, 0, 0]]"

definition ex_Bt :: mat where
  "ex_Bt = of_rows [[3, 0, 0, 0], [0, 2, 0, 0], [0, 0, 1, 0]]"

definition ex_Bt1 :: mat where
  "ex_Bt1 = of_rows [[0, 0, 0, 0], [0, 2, 0, 0], [0, 0, 1, 0]]"

definition ex_Bt2 :: mat where
  "ex_Bt2 = of_rows [[0, 0, 0, 0], [0, 0, 0, 0], [0, 0, 1, 0]]"

definition ex_Bt3 :: mat where
  "ex_Bt3 = of_rows [[0, 0, 0, 0], [0, 0, 0, 0], [0, 0, 0, 0]]"

text \<open>
  The leading singular triples of these arrays: the singular values of \<open>B\<close> are 3, 2 and 1,
  its right singular vectors are \<open>e\<^sub>0, e\<^sub>1, e\<^sub>2\<close> of length 3 and its left singular vectors
  are \<open>e\<^sub>0, e\<^sub>1, e\<^sub>2\<close> of length 4; a deflation removes the leading triple.
\<close>

definition ex_B_svd :: svd_fun where
  "ex_B_svd = svd_table
     [((ex_B, 1), (of_rows [[1], [0], [0], [0]], [Fin 3], of_rows [[1, 0, 0]])),
      ((ex_B1, 1), (of_rows [[0], [1], [0], [0]], [Fin 2], of_rows [[0, 1, 0]])),
      ((ex_B2, 1), (of_rows [[0], [0], [1], [0]], [Fin 1], of_rows [[0, 0, 1]])),
      ((ex_Bt, 1), (of_rows [[1], [0], [0]], [Fin 3], of_rows [[1, 0, 0, 0]])),
      ((ex_Bt1, 1), (of_rows [[0], [1], [0]], [Fin 2], of_rows [[0, 1, 0, 0]])),
      ((ex_Bt2, 1), (of_rows [[0], [0], [1]], [Fin 1], of_rows [[0, 0, 1, 0]]))]"

text \<open>
  The pseudoinverses of \<open>B\<close>, of its first three rows \<open>diag(3, 2, 1)\<close> and of its first two
  columns.
\<close>

definition ex_B_pinv :: pinv_fun where
  "ex_B_pinv = pinv_table
     [(ex_B, of_rows [[1 / 3, 0, 0, 0], [0, 1 / 2, 0, 0], [0, 0, 1, 0]]),
      (of_rows [[3, 0, 0], [0, 2, 0], [0, 0, 1]], of_rows [[1 / 3, 0, 0], [0, 1 / 2, 0], [0, 0, 1]]),
      (of_rows [[3, 0], [0, 2], [0, 0], [0, 0]], of_rows [[1 / 3, 0, 0, 0], [0, 1 / 2, 0, 0]])]"

text \<open>The library of the example; no eigenvalue problem is met.\<close>

definition ex_B_lib :: numlib where
  "ex_B_lib = \<lparr>lib_svd = ex_B_svd, lib_sorted_eig = (\<lambda>M thresh n. None), lib_pinv = ex_B_pinv\<rparr>"

text \<open>
  The instance for \<open>B\<close> that selects by \<^verbatim>\<open>'svd'\<close> with no parameters, as a function of its
  cached lists. \<open>B\<close> is not square, so its symmetry flag is not set.
\<close>

definition ex_B_cur :: "nat list option \<Rightarrow> nat list option \<Rightarrow> CUR" where
  "ex_B_cur ic ir =
     \<lparr>self_A = ex_B, symmetric = False, fs = False, pi_fun = Name ''svd'',
      params = \<lparr>param_k = None, param_Y = None, param_alpha = None\<rparr>,
      idx_c = ic, idx_r = ir\<rparr>"

section \<open>Resuming a selection\<close>

text \<open>
  The rounds of a loop can be run in two parts, a round only ever appends to the index
  list, and a round run again on a longer list repeats its deflation.
\<close>

lemma svd_rounds_add:
  "svd_rounds svd k nn (a + b) st =
     Option.bind (svd_rounds svd k nn a st) (svd_rounds svd k (nn + a) b)"
proof (induction a arbitrary: nn st)
  case 0
  show ?case by simp
next
  case (Suc a)
  show ?case
    by (cases "svd_round svd k nn st") (simp_all add: Suc.IH)
qed

lemma svd_round_result:
  assumes "svd_round svd k nn (M, l) = Some (M', l')"
  shows "nn < length l' \<and> deflate M (l' ! nn) = Some M' \<and>
         (if nn < length l then l' = l
          else nn = length l \<and> (\<exists>i. svd_pick svd k M l = Some i \<and> l' = l @ [i]))"
  using assms
  by (auto simp: svd_round_def py_nth_def split: if_splits bind_splits)

lemma svd_rounds_prefix:
  "svd_rounds svd k nn a (M, l) = Some (M', l') \<Longrightarrow> \<exists>sfx. l' = l @ sfx"
proof (induction a arbitrary: nn M l)
  case 0
  then show ?case by simp
next
  case (Suc a)
  from Suc.prems obtain M1 l1 where
    r: "svd_round svd k nn (M, l) = Some (M1, l1)" and
    rs: "svd_rounds svd k (Suc nn) a (M1, l1) = Some (M', l')"
    by (auto split: bind_splits)
  from svd_round_result[OF r] have "\<exists>s. l1 = l @ s"
    by (auto split: if_splits)
  moreover from Suc.IH[OF rs] have "\<exists>s. l' = l1 @ s" .
  ultimately show ?case by auto
qed

lemma svd_round_replay:
  assumes r: "svd_round svd k nn (M, l) = Some (M1, l1)"
  shows "svd_round svd k nn (M, l1 @ ext) = Some (M1, l1 @ ext)"
proof -
  from svd_round_result[OF r] have a: "nn < length l1" and d: "deflate M (l1 ! nn) = Some M1"
    by auto
  then show ?thesis
    by (simp add: svd_round_def py_nth_def nth_append)
qed

lemma svd_rounds_replay:
  "svd_rounds svd k nn a (M, l) = Some (M', l') \<Longrightarrow>
   svd_rounds svd k nn a (M, l' @ ext) = Some (M', l' @ ext)"
proof (induction a arbitrary: nn M l ext)
  case 0
  then show ?case by simp
next
  case (Suc a)
  from Suc.prems obtain M1 l1 where
    r: "svd_round svd k nn (M, l) = Some (M1, l1)" and
    rs: "svd_rounds svd k (Suc nn) a (M1, l1) = Some (M', l')"
    by (auto split: bind_splits)
  from svd_rounds_prefix[OF rs] obtain s where s: "l' = l1 @ s" by auto
  have "svd_round svd k nn (M, l' @ ext) = Some (M1, l' @ ext)"
    using svd_round_replay[OF r, of "s @ ext"] s by simp
  moreover have "svd_rounds svd k (Suc nn) a (M1, l' @ ext) = Some (M', l' @ ext)"
    by (rule Suc.IH[OF rs])
  ultimately show ?case by simp
qed

lemma svd_select_resume:
  assumes "svd_select svd A n k idxs = Some l1"
  shows "svd_select svd A (n + m) k (Some l1) = svd_select svd A (n + m) k idxs"
proof -
  define l0 where "l0 = (case idxs of None \<Rightarrow> [] | Some l \<Rightarrow> l)"
  from assms obtain M1 where r: "svd_rounds svd k 0 n (A, l0) = Some (M1, l1)"
    by (auto simp: svd_select_def l0_def split: bind_splits)
  from svd_rounds_replay[OF r, of "[]"]
  have "svd_rounds svd k 0 n (A, l1) = Some (M1, l1)" by simp
  with r show ?thesis
    by (simp add: svd_select_def svd_rounds_add l0_def[symmetric])
qed

lemma pcovr_rounds_add:
  "pcovr_rounds se pinv alpha k nn (a + b) st =
     (case pcovr_rounds se pinv alpha k nn a st of
        Some (Next st') \<Rightarrow> pcovr_rounds se pinv alpha k (nn + a) b st'
      | r \<Rightarrow> r)"
proof (induction a arbitrary: nn st)
  case 0
  show ?case by simp
next
  case (Suc a)
  show ?case
  proof (cases "pcovr_round se pinv alpha k nn st")
    case None
    then show ?thesis by simp
  next
    case (Some r)
    then show ?thesis by (cases r) (simp_all add: Suc.IH split: option.splits step.splits)
  qed
qed

lemma pcovr_round_Next:
  assumes "pcovr_round se pinv alpha k nn (M, Yc, l) = Some (Next (M', Y', l'))"
  shows "nn < length l' \<and> deflate M (l' ! nn) = Some M' \<and>
         (\<exists>X_c. take_cols M' l' = Some X_c \<and> update pinv Yc X_c = Some Y') \<and>
         (if nn < length l then l' = l
          else nn = length l \<and>
               (\<exists>Ct j. get_Ct se M Yc alpha default_regularization = Some Ct \<and>
                       pcovr_pick se k Ct l = Some j \<and> l' = l @ [j]))"
  using assms
  by (auto simp: pcovr_round_def py_nth_def split: if_splits bind_splits option.splits step.splits)

lemma pcovr_round_Return:
  assumes "pcovr_round se pinv alpha k nn (M, Yc, l) = Some (Return l0)"
  shows "l0 = l \<and> length l \<le> nn \<and> get_Ct se M Yc alpha default_regularization = None"
  using assms
  by (auto simp: pcovr_round_def py_nth_def split: if_splits bind_splits option.splits step.splits)

lemma pcovr_rounds_prefix:
  "pcovr_rounds se pinv alpha k nn a (M, Yc, l) = Some r \<Longrightarrow>
   \<exists>sfx. (case r of Next (M', Y', l') \<Rightarrow> l' | Return l' \<Rightarrow> l') = l @ sfx"
proof (induction a arbitrary: nn M Yc l)
  case 0
  then show ?case by auto
next
  case (Suc a)
  from Suc.prems obtain r1 where
    r1: "pcovr_round se pinv alpha k nn (M, Yc, l) = Some r1"
    by (auto split: bind_splits)
  show ?case
  proof (cases r1)
    case (Return l0)
    with r1 Suc.prems have "r = Return l0" by simp
    moreover from pcovr_round_Return r1 Return have "l0 = l" by blast
    ultimately show ?thesis by simp
  next
    case (Next st1)
    obtain M1 Y1 l1 where st1: "st1 = (M1, Y1, l1)" by (cases st1) auto
    from r1 Next st1 Suc.prems have
      rs: "pcovr_rounds se pinv alpha k (Suc nn) a (M1, Y1, l1) = Some r" by simp
    from pcovr_round_Next r1 Next st1 have "\<exists>s. l1 = l @ s"
      by (fastforce split: if_splits)
    moreover from Suc.IH[OF rs]
    have "\<exists>s. (case r of Next (M', Y', l') \<Rightarrow> l' | Return l' \<Rightarrow> l') = l1 @ s" .
    ultimately show ?thesis by auto
  qed
qed

lemma pcovr_select_prefix:
  assumes "pcovr_select se pinv A n Y alpha k (Some l) = Some l'"
  shows "take (length l) l' = l"
proof -
  from assms obtain r where
    r: "pcovr_rounds se pinv alpha k 0 n (A, Y, l) = Some r" and
    l': "l' = (case r of Next (M', Y', l') \<Rightarrow> l' | Return l' \<Rightarrow> l')"
    by (auto simp: pcovr_select_def split: bind_splits step.splits)
  from pcovr_rounds_prefix[OF r] l' show ?thesis by auto
qed

lemma pcovr_select_longer:
  assumes a: "pcovr_select se pinv A n Y alpha k idxs = Some l1"
      and b: "pcovr_select se pinv A (n + m) Y alpha k idxs = Some l3"
  shows "take (length l1) l3 = l1"
proof -
  define l0 where "l0 = (case idxs of None \<Rightarrow> [] | Some l \<Rightarrow> l)"
  from a obtain r where
    r: "pcovr_rounds se pinv alpha k 0 n (A, Y, l0) = Some r" and
    l1: "l1 = (case r of Next (M', Y', l') \<Rightarrow> l' | Return l' \<Rightarrow> l')"
    by (auto simp: pcovr_select_def l0_def split: bind_splits step.splits)
  show ?thesis
  proof (cases r)
    case (Return l)
    with r b l1 show ?thesis
      by (simp add: pcovr_select_def pcovr_rounds_add l0_def[symmetric])
  next
    case (Next st)
    obtain M1 Y1 l1' where st: "st = (M1, Y1, l1')" by (cases st) auto
    with Next l1 have [simp]: "l1' = l1" by simp
    from b r Next st obtain r' where
      r': "pcovr_rounds se pinv alpha k n m (M1, Y1, l1) = Some r'" and
      l3: "l3 = (case r' of Next (M', Y', l') \<Rightarrow> l' | Return l' \<Rightarrow> l')"
      by (auto simp: pcovr_select_def pcovr_rounds_add l0_def[symmetric]
          split: bind_splits step.splits)
    from pcovr_rounds_prefix[OF r'] l3 show ?thesis by auto
  qed
qed

text \<open>
  When \<^verbatim>\<open>get_Ct\<close> raises in a round that has to select, \<^verbatim>\<open>pcovr_select\<close> returns the
  list gathered in the rounds before.
\<close>

lemma pcovr_select_stops_at_failure:
  assumes "pcovr_rounds se pinv alpha k 0 a (A, Y, case idxs of None \<Rightarrow> [] | Some l \<Rightarrow> l) =
             Some (Next (Acopy, Ycopy, gathered))"
    and "length gathered \<le> a"
    and "get_Ct se Acopy Ycopy alpha default_regularization = None"
  shows "pcovr_select se pinv A (a + Suc m) Y alpha k idxs = Some gathered
         \<and> length gathered < a + Suc m"
proof -
  let ?l0 = "case idxs of None \<Rightarrow> [] | Some l \<Rightarrow> l"
  have "pcovr_round se pinv alpha k a (Acopy, Ycopy, gathered) = Some (Return gathered)"
    using assms(2,3) by (simp add: pcovr_round_def)
  then have "pcovr_rounds se pinv alpha k (0 + a) (Suc m) (Acopy, Ycopy, gathered) =
               Some (Return gathered)"
    by simp
  with assms(1) have "pcovr_rounds se pinv alpha k 0 (a + Suc m) (A, Y, ?l0) =
                        Some (Return gathered)"
    by (simp only: pcovr_rounds_add option.case step.case)
  then have "pcovr_select se pinv A (a + Suc m) Y alpha k idxs = Some gathered"
    by (simp only: pcovr_select_def bind.bind_lunit step.case)
  with assms(2) show ?thesis by simp
qed

text \<open>The cached lists of an instance: a selection resumed from a list extends it.\<close>

lemma svd_select_prefix:
  assumes "svd_select svd A n k (Some l) = Some l'"
  shows "\<exists>sfx. l' = l @ sfx"
  using assms svd_rounds_prefix
  by (fastforce simp: svd_select_def split: bind_splits)

lemma call_select_extends:
  assumes "call_select lib (Name s) ps M n (Some l) = Some l'"
  shows "\<exists>sfx. l' = l @ sfx"
proof -
  have "s = ''svd'' \<or> s = ''pcovr''"
    using assms by (auto simp: call_select_def split: if_splits)
  then show ?thesis
  proof
    assume "s = ''svd''"
    with assms show ?thesis
      by (auto simp: call_select_def split: option.splits dest: svd_select_prefix)
  next
    assume "s = ''pcovr''"
    with assms obtain n' Y alpha k where
      "pcovr_select (lib_sorted_eig lib) (lib_pinv lib) M n' Y alpha k (Some l) = Some l'"
      by (auto simp: call_select_def split: option.splits)
    from pcovr_select_prefix[OF this] have "l' = l @ drop (length l) l'"
      by (metis append_take_drop_id)
    then show ?thesis ..
  qed
qed

lemma compute_idx_extends:
  assumes "compute_idx lib c n_c n_r = Some ((ic, ir), c1)" and "pi_fun c = Name s"
  shows "(\<forall>l. idx_c c = Some l \<longrightarrow> (\<exists>sfx. ic = l @ sfx)) \<and>
         (\<forall>l. \<not> fs c \<and> \<not> symmetric c \<and> idx_r c = Some l \<longrightarrow> (\<exists>sfx. ir = l @ sfx))"
  using assms
  by (auto simp: compute_idx_def Let_def split: bind_splits if_splits
      dest: call_select_extends)

lemma refresh_idx_extends:
  assumes "refresh_idx lib c n_c n_r = Some (r, c1)" and "pi_fun c = Name s"
  shows "(\<forall>l. idx_c c = Some l \<longrightarrow> (\<exists>sfx. idx_c c1 = Some (l @ sfx))) \<and>
         (\<forall>l. \<not> fs c \<and> \<not> symmetric c \<and> idx_r c = Some l \<longrightarrow> (\<exists>sfx. idx_r c1 = Some (l @ sfx)))"
proof -
  from assms(1) obtain ic ir c0 where
    ci: "compute_idx lib c n_c n_r = Some ((ic, ir), c0)" and
    c1: "c1 = c0\<lparr>idx_c := Some ic, idx_r := Some ir\<rparr>"
    by (auto simp: refresh_idx_def split: bind_splits)
  from compute_idx_extends[OF ci assms(2)] c1 show ?thesis by simp
qed

lemma compute_extends:
  assumes "compute lib c n_c n_r = Some (t, c')" and "pi_fun c = Name s"
  shows "(\<forall>l. idx_c c = Some l \<longrightarrow> (\<exists>sfx. idx_c c' = Some (l @ sfx))) \<and>
         (\<forall>l. \<not> fs c \<and> \<not> symmetric c \<and> idx_r c = Some l \<longrightarrow> (\<exists>sfx. idx_r c' = Some (l @ sfx)))"
proof -
  let ?n_r = "if fs c then Some (ncols (self_A c))
              else if symmetric c \<and> n_r = None then Some n_c else n_r"
  from assms(1) have "c' = c \<or> (\<exists>r. refresh_idx lib c n_c ?n_r = Some (r, c'))"
    by (auto simp: compute_def Let_def split: bind_splits if_splits)
  then show ?thesis
  proof
    assume "c' = c"
    then show ?thesis by simp
  next
    assume "\<exists>r. refresh_idx lib c n_c ?n_r = Some (r, c')"
    then obtain r where "refresh_idx lib c n_c ?n_r = Some (r, c')" ..
    from refresh_idx_extends[OF this assms(2)] show ?thesis .
  qed
qed


section \<open>The selection functions on the store\<close>

text \<open>
  On a store whose references are distinct objects of the right kinds, a round writes
  the working copy and the index list and nothing else, and computes what the round
  on values computes.
\<close>

lemma get_array_Array: "r < length h \<Longrightarrow> h ! r = Array M \<Longrightarrow> get_array h r = Some M"
  by (simp add: get_array_def)

lemma get_list_PyList: "r < length h \<Longrightarrow> h ! r = PyList l \<Longrightarrow> get_list h r = Some l"
  by (simp add: get_list_def)

lemma get_array_SomeD: "get_array h r = Some M \<Longrightarrow> r < length h \<and> h ! r = Array M"
  by (auto simp: get_array_def split: if_splits obj.splits)

lemma get_list_SomeD: "get_list h r = Some l \<Longrightarrow> r < length h \<and> h ! r = PyList l"
  by (auto simp: get_list_def split: if_splits obj.splits)

lemma list_update_known: "h ! i = x \<Longrightarrow> h[i := x] = h"
  by (metis list_update_id)

lemma svd_round_store_eq:
  assumes "a < length h" "i < length h" "a \<noteq> i" "h ! a = Array M" "h ! i = PyList l"
  shows "svd_round_store svd k a i nn h =
           map_option (\<lambda>(M', l'). h[i := PyList l', a := Array M']) (svd_round svd k nn (M, l))"
proof (cases "nn \<ge> length l")
  case True
  show ?thesis
  proof (cases "svd_pick svd k M l")
    case None
    with True assms show ?thesis
      by (simp add: svd_round_store_def svd_round_def get_array_Array get_list_PyList)
  next
    case (Some p)
    with True assms show ?thesis
      by (cases "py_nth (l @ [p]) nn"; cases "deflate M ((l @ [p]) ! nn)")
         (auto simp: svd_round_store_def svd_round_def get_array_Array get_list_PyList
            py_nth_def split: if_splits)
  qed
next
  case False
  with assms show ?thesis
    by (cases "deflate M (l ! nn)")
       (auto simp: svd_round_store_def svd_round_def get_array_Array get_list_PyList
          py_nth_def list_update_known split: if_splits)
qed

lemma svd_rounds_store_eq:
  assumes "a < length h" "i < length h" "a \<noteq> i" "h ! a = Array M" "h ! i = PyList l"
  shows "svd_rounds_store svd k a i nn m h =
           map_option (\<lambda>(M', l'). h[i := PyList l', a := Array M']) (svd_rounds svd k nn m (M, l))"
  using assms
proof (induction m arbitrary: nn h M l)
  case 0
  then show ?case by (simp add: list_update_known)
next
  case (Suc m)
  show ?case
  proof (cases "svd_round svd k nn (M, l)")
    case None
    with Suc.prems show ?thesis
      by (simp add: svd_round_store_eq)
  next
    case (Some st)
    obtain M1 l1 where st: "st = (M1, l1)" by (cases st) auto
    let ?h1 = "h[i := PyList l1, a := Array M1]"
    have h1: "svd_round_store svd k a i nn h = Some ?h1"
      using Suc.prems Some st by (simp add: svd_round_store_eq)
    have "svd_rounds_store svd k a i (Suc nn) m ?h1 =
            map_option (\<lambda>(M', l'). ?h1[i := PyList l', a := Array M'])
              (svd_rounds svd k (Suc nn) m (M1, l1))"
      using Suc.prems by (intro Suc.IH) (simp_all add: nth_list_update)
    moreover have "\<And>M' l'. ?h1[i := PyList l', a := Array M'] = h[i := PyList l', a := Array M']"
      using Suc.prems(3) by (simp add: list_update_swap)
    ultimately show ?thesis
      using h1 Some st by simp
  qed
qed

lemma update_last_of_two: "(h @ [x, y])[Suc (length h) := z] = h @ [x, z]"
  by (induction h) auto

lemma update_first_of_two: "(h @ [x, y])[length h := z] = h @ [z, y]"
  by (induction h) auto

lemma update_appended: "(h @ [x])[length h := z] = h @ [z]"
  by (induction h) auto

lemma svd_select_store_None:
  assumes A: "get_array h A = Some M"
  shows "svd_select_store svd h A n k None =
           map_option (\<lambda>(M', l'). (length h + 2, h @ [PyList l', Array M', PyList l']))
             (svd_rounds svd k 0 n (M, []))"
proof -
  from get_array_SomeD[OF A] have a: "A < length h" "h ! A = Array M" by auto
  let ?h2 = "h @ [PyList [], Array M]"
  have g: "get_array (h @ [PyList []]) A = Some M"
    using a by (simp add: get_array_def nth_append)
  have r: "svd_rounds_store svd k (Suc (length h)) (length h) 0 n ?h2 =
             map_option (\<lambda>(M', l'). ?h2[length h := PyList l', Suc (length h) := Array M'])
               (svd_rounds svd k 0 n (M, []))"
    by (rule svd_rounds_store_eq) (simp_all add: nth_append)
  have u: "\<And>M' l'. ?h2[length h := PyList l', Suc (length h) := Array M'] = h @ [PyList l', Array M']"
    by (simp add: update_last_of_two update_first_of_two)
  show ?thesis
    by (cases "svd_rounds svd k 0 n (M, [])")
       (auto simp: svd_select_store_def alloc_def g r u get_list_def nth_append
          update_last_of_two update_first_of_two)
qed

lemma svd_select_store_Some:
  assumes A: "get_array h A = Some M" and I: "get_list h i = Some l0"
  shows "svd_select_store svd h A n k (Some i) =
           map_option (\<lambda>(M', l'). (Suc (length h), h[i := PyList l'] @ [Array M', PyList l']))
             (svd_rounds svd k 0 n (M, l0))"
proof -
  from get_array_SomeD[OF A] have a: "A < length h" "h ! A = Array M" by auto
  from get_list_SomeD[OF I] have i: "i < length h" "h ! i = PyList l0" by auto
  let ?h2 = "h @ [Array M]"
  have r: "svd_rounds_store svd k (length h) i 0 n ?h2 =
             map_option (\<lambda>(M', l'). ?h2[i := PyList l', length h := Array M'])
               (svd_rounds svd k 0 n (M, l0))"
    using i by (intro svd_rounds_store_eq) (simp_all add: nth_append)
  have u: "\<And>M' l'. ?h2[i := PyList l', length h := Array M'] = h[i := PyList l'] @ [Array M']"
    using i by (simp add: list_update_append update_appended)
  show ?thesis
    using i
    by (cases "svd_rounds svd k 0 n (M, l0)")
       (auto simp: svd_select_store_def alloc_def A r u get_list_def nth_append
          update_appended list_update_append)
qed

lemma pcovr_round_store_eq:
  assumes "a < length h" "y < length h" "i < length h" "a \<noteq> i" "a \<noteq> y" "y \<noteq> i"
    "h ! a = Array M" "h ! y = Array Yc" "h ! i = PyList l"
  shows "pcovr_round_store se pinv alpha k a y i nn h =
           map_option
             (\<lambda>r. case r of
                    Return l0 \<Rightarrow> Return l0
                  | Next (M', Y', l') \<Rightarrow> Next (h[i := PyList l', a := Array M', y := Array Y']))
             (pcovr_round se pinv alpha k nn (M, Yc, l))"
proof -
  have tail: "\<And>l1 h1. h1 = h[i := PyList l1] \<Longrightarrow>
     do {
        l' \<leftarrow> get_list h1 i;
        j \<leftarrow> py_nth l' nn;
        M1 \<leftarrow> get_array h1 a;
        M' \<leftarrow> deflate M1 j;
        let h2 = h1[a := Array M'];
        M2 \<leftarrow> get_array h2 a;
        l2 \<leftarrow> get_list h2 i;
        X_c \<leftarrow> take_cols M2 l2;
        Y1 \<leftarrow> get_array h2 y;
        Y' \<leftarrow> update pinv Y1 X_c;
        Some (Next (h2[y := Array Y']))
     } =
     map_option (\<lambda>r. case r of
                    Return l0 \<Rightarrow> Return l0
                  | Next (M', Y', l') \<Rightarrow> Next (h[i := PyList l', a := Array M', y := Array Y']))
       (do {
          j \<leftarrow> py_nth l1 nn;
          Acopy' \<leftarrow> deflate M j;
          X_c \<leftarrow> take_cols Acopy' l1;
          Ycopy' \<leftarrow> update pinv Yc X_c;
          Some (Next (Acopy', Ycopy', l1))
        })"
  proof -
    fix l1 h1 assume h1: "h1 = h[i := PyList l1]"
    have g1: "get_list h1 i = Some l1" "get_array h1 a = Some M"
      using assms h1 by (simp_all add: get_list_def get_array_def)
    have g2: "\<And>M'. get_array (h1[a := Array M']) a = Some M'"
             "\<And>M'. get_list (h1[a := Array M']) i = Some l1"
             "\<And>M'. get_array (h1[a := Array M']) y = Some Yc"
      using assms h1 by (simp_all add: get_list_def get_array_def)
    have "h1[a := Array M', y := Array Y'] = h[i := PyList l1, a := Array M', y := Array Y']"
      for M' Y' by (simp add: h1)
    then show "?thesis l1 h1"
      by (simp add: g1 g2 Let_def py_nth_def split: bind_split)
  qed
  have same: "h[i := PyList l] = h" using assms by (simp add: list_update_known)
  show ?thesis
  proof (cases "nn \<ge> length l")
    case False
    then show ?thesis
      using assms tail[of h l] same
      by (simp add: pcovr_round_store_def pcovr_round_def get_array_Array get_list_PyList)
  next
    case True
    show ?thesis
    proof (cases "get_Ct se M Yc alpha default_regularization")
      case None
      with True assms show ?thesis
        by (simp add: pcovr_round_store_def pcovr_round_def get_array_Array get_list_PyList)
    next
      case (Some Ct)
      show ?thesis
      proof (cases "pcovr_pick se k Ct l")
        case None
        with Some True assms show ?thesis
          by (simp add: pcovr_round_store_def pcovr_round_def get_array_Array get_list_PyList)
      next
        case (Some j)
        with \<open>get_Ct se M Yc alpha default_regularization = Some Ct\<close> True assms
          tail[of "h[i := PyList (l @ [j])]" "l @ [j]"]
        show ?thesis
          by (simp add: pcovr_round_store_def pcovr_round_def get_array_Array get_list_PyList)
      qed
    qed
  qed
qed

lemma pcovr_rounds_store_sim:
  assumes "a < length h" "y < length h" "i < length h" "a \<noteq> i" "a \<noteq> y" "y \<noteq> i"
    "h ! a = Array M" "h ! y = Array Yc" "h ! i = PyList l"
    and run: "pcovr_rounds_store se pinv alpha k a y i nn m h = Some (h', early)"
  shows "\<exists>M' Y' l'. h' = h[i := PyList l', a := Array M', y := Array Y'] \<and>
           pcovr_rounds se pinv alpha k nn m (M, Yc, l) =
             Some (case early of None \<Rightarrow> Next (M', Y', l') | Some l0 \<Rightarrow> Return l0) \<and>
           (\<forall>l0. early = Some l0 \<longrightarrow> l0 = l')"
  using assms
proof (induction m arbitrary: nn h M Yc l)
  case 0
  then have "h' = h" "early = None" by simp_all
  with 0 show ?case
    by (intro exI[of _ M] exI[of _ Yc] exI[of _ l]) (simp add: list_update_known)
next
  case (Suc m)
  note eq = pcovr_round_store_eq[OF Suc.prems(1-9), of se pinv alpha k nn]
  from Suc.prems(10) obtain r where
    r: "pcovr_round_store se pinv alpha k a y i nn h = Some r"
    by (auto split: bind_splits)
  with eq obtain r0 where r0: "pcovr_round se pinv alpha k nn (M, Yc, l) = Some r0"
    by (cases "pcovr_round se pinv alpha k nn (M, Yc, l)") auto
  show ?case
  proof (cases r0)
    case (Return l0)
    with eq r r0 have "r = Return l0" by simp
    with r Suc.prems(10) have h': "h' = h" "early = Some l0" by simp_all
    from pcovr_round_Return r0 Return have "l0 = l" by blast
    with h' r0 Return Suc.prems show ?thesis
      by (intro exI[of _ M] exI[of _ Yc] exI[of _ l]) (simp add: list_update_known)
  next
    case (Next st)
    obtain M1 Y1 l1 where st: "st = (M1, Y1, l1)" by (cases st) auto
    let ?h1 = "h[i := PyList l1, a := Array M1, y := Array Y1]"
    from eq r r0 Next st have rr: "r = Next ?h1" by simp
    with r Suc.prems(10) have
      rest: "pcovr_rounds_store se pinv alpha k a y i (Suc nn) m ?h1 = Some (h', early)"
      by simp
    have "\<exists>M' Y' l'. h' = ?h1[i := PyList l', a := Array M', y := Array Y'] \<and>
           pcovr_rounds se pinv alpha k (Suc nn) m (M1, Y1, l1) =
             Some (case early of None \<Rightarrow> Next (M', Y', l') | Some l0 \<Rightarrow> Return l0) \<and>
           (\<forall>l0. early = Some l0 \<longrightarrow> l0 = l')"
      using Suc.prems(1-6) rest by (intro Suc.IH) (simp_all add: nth_list_update)
    then obtain M' Y' l' where
      h': "h' = ?h1[i := PyList l', a := Array M', y := Array Y']" and
      p: "pcovr_rounds se pinv alpha k (Suc nn) m (M1, Y1, l1) =
             Some (case early of None \<Rightarrow> Next (M', Y', l') | Some l0 \<Rightarrow> Return l0)" and
      e: "\<forall>l0. early = Some l0 \<longrightarrow> l0 = l'"
      by blast
    have "?h1[i := PyList l', a := Array M', y := Array Y'] =
          h[i := PyList l', a := Array M', y := Array Y']"
      using Suc.prems(4-6) by (simp add: list_update_swap)
    with h' p e r0 Next st show ?thesis
      by (intro exI[of _ M'] exI[of _ Y'] exI[of _ l']) simp
  qed
qed

lemma svd_select_store_effect:
  assumes run: "svd_select_store svd h A n k idxs = Some (r, h')"
    and A: "get_array h A = Some M"
    and I: "case idxs of None \<Rightarrow> True | Some i \<Rightarrow> get_list h i = Some l0"
  shows "\<exists>l. svd_select svd M n k (map_option (\<lambda>_. l0) idxs) = Some l
           \<and> get_array h' A = Some M
           \<and> length h \<le> r \<and> get_list h' r = Some l
           \<and> (\<forall>i. idxs = Some i \<longrightarrow> get_list h' i = Some l)
           \<and> (\<forall>p<length h. Some p \<noteq> idxs \<longrightarrow> h' ! p = h ! p)"
proof (cases idxs)
  case None
  from run[unfolded None svd_select_store_None[OF A]] obtain M' l' where
    rs: "svd_rounds svd k 0 n (M, []) = Some (M', l')" and
    r: "r = length h + 2" and h': "h' = h @ [PyList l', Array M', PyList l']"
    by auto
  from get_array_SomeD[OF A] have "A < length h" "h ! A = Array M" by auto
  then show ?thesis
    using None rs r h'
    by (intro exI[of _ l']) (simp add: svd_select_def get_array_def get_list_def nth_append)
next
  case (Some i)
  with I have I': "get_list h i = Some l0" by simp
  from run[unfolded Some svd_select_store_Some[OF A I']] obtain M' l' where
    rs: "svd_rounds svd k 0 n (M, l0) = Some (M', l')" and
    r: "r = Suc (length h)" and h': "h' = h[i := PyList l'] @ [Array M', PyList l']"
    by auto
  from get_array_SomeD[OF A] have a: "A < length h" "h ! A = Array M" by auto
  from get_list_SomeD[OF I'] have i: "i < length h" "h ! i = PyList l0" by auto
  from a i have "A \<noteq> i" by auto
  then show ?thesis
    using Some rs r h' a i
    by (intro exI[of _ l']) (auto simp: svd_select_def get_array_def get_list_def nth_append)
qed

lemma pcovr_select_store_effect:
  assumes run: "pcovr_select_store se pinv h A n Y alpha k idxs = Some (r, h')"
    and A: "get_array h A = Some M" and Y: "get_array h Y = Some Y0"
    and I: "case idxs of None \<Rightarrow> True | Some i \<Rightarrow> get_list h i = Some l0"
  shows "\<exists>l. pcovr_select se pinv M n Y0 alpha k (map_option (\<lambda>_. l0) idxs) = Some l
           \<and> get_array h' A = Some M \<and> get_array h' Y = Some Y0
           \<and> length h \<le> r \<and> get_list h' r = Some l
           \<and> (\<forall>i. idxs = Some i \<longrightarrow> get_list h' i = Some l)
           \<and> (\<forall>p<length h. Some p \<noteq> idxs \<longrightarrow> h' ! p = h ! p)"
proof -
  from get_array_SomeD[OF A] have a: "A < length h" "h ! A = Array M" by auto
  from get_array_SomeD[OF Y] have y: "Y < length h" "h ! Y = Array Y0" by auto
  let ?h2 = "h @ [Array M, Array Y0]"
  have g: "get_array (h @ [Array M]) Y = Some Y0"
    using y by (simp add: get_array_def nth_append)
  show ?thesis
  proof (cases idxs)
    case None
    let ?h3 = "?h2 @ [PyList []]"
    from run None obtain h4 early l where
      rs: "pcovr_rounds_store se pinv alpha k (length h) (Suc (length h)) (Suc (Suc (length h)))
             0 n ?h3 = Some (h4, early)" and
      l: "(case early of Some l0 \<Rightarrow> Some l0 | None \<Rightarrow> get_list h4 (Suc (Suc (length h)))) = Some l" and
      r: "r = length h4" and h': "h' = h4 @ [PyList l]"
      by (auto simp: pcovr_select_store_def alloc_def A g split: bind_splits cong: option.case_cong)
    have "\<exists>M' Y' l'. h4 = ?h3[Suc (Suc (length h)) := PyList l', length h := Array M',
                              Suc (length h) := Array Y'] \<and>
           pcovr_rounds se pinv alpha k 0 n (M, Y0, []) =
             Some (case early of None \<Rightarrow> Next (M', Y', l') | Some l0 \<Rightarrow> Return l0) \<and>
           (\<forall>l0. early = Some l0 \<longrightarrow> l0 = l')"
      by (rule pcovr_rounds_store_sim[OF _ _ _ _ _ _ _ _ _ rs]) (simp_all add: nth_append)
    then obtain M' Y' l' where
      h4: "h4 = ?h3[Suc (Suc (length h)) := PyList l', length h := Array M',
                    Suc (length h) := Array Y']" and
      p: "pcovr_rounds se pinv alpha k 0 n (M, Y0, []) =
             Some (case early of None \<Rightarrow> Next (M', Y', l') | Some l0 \<Rightarrow> Return l0)" and
      e: "\<forall>l0. early = Some l0 \<longrightarrow> l0 = l'"
      by blast
    have ll: "l = l'"
      using l e h4 by (cases early) (auto simp: get_list_def nth_append)
    have sel: "pcovr_select se pinv M n Y0 alpha k None = Some l"
      using p e ll by (cases early) (simp_all add: pcovr_select_def)
    have old: "\<forall>p<length h. h' ! p = h ! p"
      using h4 h' by (simp add: nth_append)
    have len: "length h4 = length h + 3" using h4 by simp
    show ?thesis
      using None sel old a y r h' len
      by (intro exI[of _ l]) (simp add: get_array_def get_list_def nth_append)
  next
    case (Some i)
    with I have I': "get_list h i = Some l0" by simp
    from get_list_SomeD[OF I'] have i: "i < length h" "h ! i = PyList l0" by auto
    from run Some obtain h4 early l where
      rs: "pcovr_rounds_store se pinv alpha k (length h) (Suc (length h)) i
             0 n ?h2 = Some (h4, early)" and
      l: "(case early of Some l0 \<Rightarrow> Some l0 | None \<Rightarrow> get_list h4 i) = Some l" and
      r: "r = length h4" and h': "h' = h4 @ [PyList l]"
      by (auto simp: pcovr_select_store_def alloc_def A g split: bind_splits cong: option.case_cong)
    have "\<exists>M' Y' l'. h4 = ?h2[i := PyList l', length h := Array M',
                              Suc (length h) := Array Y'] \<and>
           pcovr_rounds se pinv alpha k 0 n (M, Y0, l0) =
             Some (case early of None \<Rightarrow> Next (M', Y', l') | Some l0 \<Rightarrow> Return l0) \<and>
           (\<forall>l0. early = Some l0 \<longrightarrow> l0 = l')"
      using i by (intro pcovr_rounds_store_sim[OF _ _ _ _ _ _ _ _ _ rs]) (simp_all add: nth_append)
    then obtain M' Y' l' where
      h4: "h4 = ?h2[i := PyList l', length h := Array M', Suc (length h) := Array Y']" and
      p: "pcovr_rounds se pinv alpha k 0 n (M, Y0, l0) =
             Some (case early of None \<Rightarrow> Next (M', Y', l') | Some l0 \<Rightarrow> Return l0)" and
      e: "\<forall>l0. early = Some l0 \<longrightarrow> l0 = l'"
      by blast
    have ll: "l = l'"
      using l e h4 i by (cases early) (auto simp: get_list_def nth_append)
    have sel: "pcovr_select se pinv M n Y0 alpha k (Some l0) = Some l"
      using p e ll by (cases early) (simp_all add: pcovr_select_def)
    have old: "\<forall>p<length h. p \<noteq> i \<longrightarrow> h' ! p = h ! p"
      using h4 h' by (simp add: nth_append)
    have li: "get_list h' i = Some l"
      using h4 h' i ll by (simp add: get_list_def nth_append)
    have len: "length h4 = length h + 2" using h4 by simp
    from a i y have ne: "A \<noteq> i" "Y \<noteq> i" by auto
    show ?thesis
      using Some sel old a y r h' len li ne
      by (intro exI[of _ l]) (auto simp: get_array_def get_list_def nth_append)
  qed
qed


section \<open>The worked example\<close>

text \<open>
  The rounds of both selection functions on \<open>ex_A\<close> and \<open>ex_Y\<close>, evaluated one call at a
  time.
\<close>

lemmas arr_ev = of_rows_def column_def entry_def nrows_def mk_def dot_def fsum_def upt_rec
  matmul_def mat_T_def np_add_def np_sub_def scal_def shape_def np_diag_def Let_def

lemma ex_deflate_0: "deflate ex_A 0 = Some ex_A1"
  by (simp add: deflate_def ex_A_def ex_A1_def arr_ev)

lemma ex_deflate_1: "deflate ex_A1 1 = Some ex_A2"
  by (simp add: deflate_def ex_A1_def ex_A2_def arr_ev)

lemma ex_deflate_2: "deflate ex_A2 0 = Some (Mat 2 [[NaN, NaN], [NaN, NaN]])"
  by (simp add: deflate_def ex_A2_def arr_ev)

lemma ex_svd_pick_0: "svd_pick (ex_svd z) 1 ex_A [] = Some 0"
  by (simp add: svd_pick_def ex_svd_def svd_table_def ex_A_def zero_at_def sum_axis0_def
      np_square_def row_slice_def arr_ev)

lemma ex_svd_pick_1: "svd_pick (ex_svd z) 1 ex_A1 [0] = Some 1"
  by (simp add: svd_pick_def ex_svd_def svd_table_def ex_A1_def zero_at_def sum_axis0_def
      np_square_def row_slice_def arr_ev)

lemma ex_svd_pick_2:
  "svd_pick (ex_svd (Some (S, v, Mat 2 [[x, y]]))) 1 ex_A2 [0, 1] = Some 0"
  by (simp add: svd_pick_def ex_svd_def svd_table_def ex_A2_def zero_at_def sum_axis0_def
      np_square_def row_slice_def arr_ev)

lemma ex_svd_round_0: "svd_round (ex_svd z) 1 0 (ex_A, []) = Some (ex_A1, [0])"
  by (simp add: svd_round_def ex_svd_pick_0[simplified] py_nth_def ex_deflate_0)

lemma ex_svd_round_1: "svd_round (ex_svd z) 1 1 (ex_A1, [0]) = Some (ex_A2, [0, 1])"
  by (simp add: svd_round_def ex_svd_pick_1[simplified] py_nth_def ex_deflate_1[simplified])

lemma ex_svd_round_2:
  "svd_round (ex_svd (Some (S, v, Mat 2 [[x, y]]))) 1 (Suc (Suc 0)) (ex_A2, [0, 1]) =
     Some (Mat 2 [[NaN, NaN], [NaN, NaN]], [0, 1, 0])"
  by (simp add: svd_round_def ex_svd_pick_2[simplified] py_nth_def ex_deflate_2)

lemma ex_svd_select_3:
  "svd_select (ex_svd (Some (S, v, Mat 2 [[x, y]]))) ex_A 3 1 None = Some [0, 1, 0]"
  by (simp add: svd_select_def numeral_3_eq_3 ex_svd_round_0[simplified]
      ex_svd_round_1[simplified] ex_svd_round_2[simplified])


lemmas ct_ev = get_Ct_def ex_eig_def eig_table_def default_regularization_def mask_cols_def mask_vec_def

lemma ex_get_Ct_0:
  "get_Ct ex_eig ex_A ex_Y (Fin (1 / 2)) default_regularization = Some (of_rows [[5 / 2, 0], [0, 1 / 2]])"
  by (simp add: ct_ev ex_A_def ex_Y_def arr_ev)

lemma ex_get_Ct_1:
  "get_Ct ex_eig ex_A1 ex_Y (Fin (1 / 2)) default_regularization = Some (of_rows [[0, 0], [0, 1 / 2]])"
  by (simp add: ct_ev ex_A1_def ex_Y_def arr_ev)

lemma ex_get_Ct_2:
  "get_Ct ex_eig ex_A2 Yc alpha default_regularization = None"
  by (simp add: ct_ev ex_A2_def arr_ev)

lemma ex_pcovr_pick_0: "pcovr_pick ex_eig 1 (of_rows [[5 / 2, 0], [0, 1 / 2]]) [] = Some 0"
  by (simp add: pcovr_pick_def ex_eig_def eig_table_def default_regularization_def zero_at_def
      sum_axis1_def np_square_def col_slice_def arr_ev)

lemma ex_pcovr_pick_1: "pcovr_pick ex_eig 1 (of_rows [[0, 0], [0, 1 / 2]]) [0] = Some 1"
  by (simp add: pcovr_pick_def ex_eig_def eig_table_def default_regularization_def zero_at_def
      sum_axis1_def np_square_def col_slice_def arr_ev)

lemma ex_take_cols_0: "take_cols ex_A1 [0] = Some (of_rows [[0], [0]])"
  by (simp add: take_cols_def ex_A1_def arr_ev)

lemma ex_take_cols_1: "take_cols ex_A2 [0, 1] = Some (of_rows [[0, 0], [0, 0]])"
  by (simp add: take_cols_def ex_A2_def arr_ev)

lemma ex_update_0: "update ex_pinv ex_Y (of_rows [[0], [0]]) = Some ex_Y"
  by (simp add: update_def ex_pinv_def pinv_table_def ex_Y_def arr_ev)

lemma ex_update_1: "update ex_pinv ex_Y (of_rows [[0, 0], [0, 0]]) = Some ex_Y"
  by (simp add: update_def ex_pinv_def pinv_table_def ex_Y_def arr_ev)

lemma ex_pcovr_round_0:
  "pcovr_round ex_eig ex_pinv (Fin (1 / 2)) 1 0 (ex_A, ex_Y, []) = Some (Next (ex_A1, ex_Y, [0]))"
  by (simp add: pcovr_round_def ex_get_Ct_0 ex_pcovr_pick_0[simplified] py_nth_def ex_deflate_0
      ex_take_cols_0 ex_update_0)

lemma ex_pcovr_round_1:
  "pcovr_round ex_eig ex_pinv (Fin (1 / 2)) 1 (Suc 0) (ex_A1, ex_Y, [0]) =
     Some (Next (ex_A2, ex_Y, [0, 1]))"
  by (simp add: pcovr_round_def ex_get_Ct_1 ex_pcovr_pick_1[simplified] py_nth_def
      ex_deflate_1[simplified] ex_take_cols_1[simplified] ex_update_1)

lemma ex_pcovr_round_2:
  "pcovr_round ex_eig ex_pinv alpha 1 (Suc (Suc 0)) (ex_A2, ex_Y, [0, 1]) = Some (Return [0, 1])"
  by (simp add: pcovr_round_def ex_get_Ct_2)

lemma ex_pcovr_select_3:
  "pcovr_select ex_eig ex_pinv ex_A 3 ex_Y (Fin (1 / 2)) 1 None = Some [0, 1]"
  by (simp add: pcovr_select_def numeral_3_eq_3 ex_pcovr_round_0[simplified]
      ex_pcovr_round_1[simplified] ex_pcovr_round_2[simplified])


text \<open>Rounds that replay a given index.\<close>

lemma ex_svd_round_0_replay: "svd_round (ex_svd z) 1 0 (ex_A, [0]) = Some (ex_A1, [0])"
  by (simp add: svd_round_def py_nth_def ex_deflate_0)

lemma ex_pcovr_round_0_replay:
  "pcovr_round ex_eig ex_pinv (Fin (1 / 2)) 1 0 (ex_A, ex_Y, [0]) = Some (Next (ex_A1, ex_Y, [0]))"
  by (simp add: pcovr_round_def py_nth_def ex_deflate_0 ex_take_cols_0 ex_update_0)

lemma ex_svd_rounds_2: "svd_rounds (ex_svd z) 1 0 2 (ex_A, []) = Some (ex_A2, [0, 1])"
  by (simp add: numeral_2_eq_2 ex_svd_round_0[simplified] ex_svd_round_1[simplified])

lemma ex_svd_rounds_2_replay: "svd_rounds (ex_svd z) 1 0 2 (ex_A, [0]) = Some (ex_A2, [0, 1])"
  by (simp add: numeral_2_eq_2 ex_svd_round_0_replay[simplified] ex_svd_round_1[simplified])

lemma ex_pcovr_rounds_2:
  "pcovr_rounds ex_eig ex_pinv (Fin (1 / 2)) 1 0 2 (ex_A, ex_Y, []) =
     Some (Next (ex_A2, ex_Y, [0, 1]))"
  by (simp add: numeral_2_eq_2 ex_pcovr_round_0[simplified] ex_pcovr_round_1[simplified])

lemma ex_pcovr_rounds_2_replay:
  "pcovr_rounds ex_eig ex_pinv (Fin (1 / 2)) 1 0 2 (ex_A, ex_Y, [0]) =
     Some (Next (ex_A2, ex_Y, [0, 1]))"
  by (simp add: numeral_2_eq_2 ex_pcovr_round_0_replay[simplified] ex_pcovr_round_1[simplified])

lemma ex_svd_select_1: "svd_select (ex_svd z) ex_A 1 1 None = Some [0]"
  by (simp add: svd_select_def ex_svd_round_0[simplified])

lemma ex_svd_select_2: "svd_select (ex_svd z) ex_A 2 1 None = Some [0, 1]"
  by (simp add: svd_select_def ex_svd_rounds_2[simplified])

lemma ex_pcovr_select_1:
  "pcovr_select ex_eig ex_pinv ex_A 1 ex_Y (Fin (1 / 2)) 1 None = Some [0]"
  by (simp add: pcovr_select_def ex_pcovr_round_0[simplified])

lemma ex_pcovr_select_2_replay:
  "pcovr_select ex_eig ex_pinv ex_A 2 ex_Y (Fin (1 / 2)) 1 (Some [0]) = Some [0, 1]"
  by (simp add: pcovr_select_def ex_pcovr_rounds_2_replay[simplified])

lemma ex_pcovr_select_2:
  "pcovr_select ex_eig ex_pinv ex_A 2 ex_Y (Fin (1 / 2)) 1 None = Some [0, 1]"
  by (simp add: pcovr_select_def ex_pcovr_rounds_2[simplified])

text \<open>The instance of the example.\<close>

lemma ex_symmetric: "symmetric_flag ex_A (Fin (1 / 10000))"
  by (simp add: symmetric_flag_def ex_A_def np_abs_def np_all_def truthy_def of_py_bool_def arr_ev)

lemma ex_svd_select_2_replay: "svd_select (ex_svd z) ex_A 2 1 (Some [0]) = Some [0, 1]"
  by (simp add: svd_select_def ex_svd_rounds_2_replay[simplified])

lemma ex_take_cols_A: "take_cols ex_A [0, 1] = Some ex_A"
  by (simp add: take_cols_def ex_A_def arr_ev)

lemma ex_take_cols_A0: "take_cols ex_A [0] = Some (of_rows [[2], [0]])"
  by (simp add: take_cols_def ex_A_def arr_ev)

lemma ex_mat_T_A: "mat_T ex_A = ex_A"
  by (simp add: ex_A_def arr_ev)

lemma ex_pinv_A: "ex_pinv ex_A = Some (of_rows [[1 / 2, 0], [0, 1]])"
  by (simp add: ex_pinv_def pinv_table_def ex_A_def arr_ev)

lemma ex_pinv_A0: "ex_pinv (of_rows [[2], [0]]) = Some (of_rows [[1 / 2, 0]])"
  by (simp add: ex_pinv_def pinv_table_def arr_ev)

lemma ex_mm_1: "matmul (of_rows [[1 / 2, 0], [0, 1]]) ex_A = Some (of_rows [[1, 0], [0, 1]])"
  by (simp add: ex_A_def arr_ev)

lemma ex_mm_2:
  "matmul (of_rows [[1, 0], [0, 1]]) (of_rows [[1 / 2, 0], [0, 1]]) = Some (of_rows [[1 / 2, 0], [0, 1]])"
  by (simp add: arr_ev)

lemma ex_mm_3: "matmul (of_rows [[1 / 2, 0]]) ex_A = Some (of_rows [[1, 0]])"
  by (simp add: ex_A_def arr_ev)

lemma ex_mm_4: "matmul (of_rows [[1, 0]]) (of_rows [[1 / 2, 0], [0, 1]]) = Some (of_rows [[1 / 2, 0]])"
  by (simp add: arr_ev)

lemma ex_range_A: "[0..<ncols ex_A] = [0, 1]"
  by (simp add: ex_A_def of_rows_def upt_rec)

lemma ex_compute_resume:
  "compute ex_lib (ex_cur True False (Some [0]) (Some [0])) 2 None =
     Some ((ex_A, of_rows [[1 / 2, 0], [0, 1]], ex_A),
           ex_cur True False (Some [0, 1]) (Some [0, 1]))"
  by (simp add: compute_def refresh_idx_def compute_idx_def call_select_def ex_cur_def ex_lib_def
      ex_svd_select_2_replay[simplified] ex_take_cols_A[simplified] ex_mat_T_A
      ex_pinv_A ex_mm_1 ex_mm_2)

lemma ex_compute_fs:
  "compute ex_lib (ex_cur True True None None) 1 None =
     Some ((of_rows [[2], [0]], of_rows [[1 / 2, 0]], ex_A),
           ex_cur True True (Some [0]) (Some [0, 1]))"
  by (simp add: compute_def refresh_idx_def compute_idx_def call_select_def ex_cur_def ex_lib_def
      ex_svd_select_1[simplified] ex_take_cols_A0 ex_range_A[simplified]
      ex_pinv_A ex_pinv_A0 ex_mm_3 ex_mm_4)

text \<open>The selection functions on the store of the example.\<close>

lemma ex_svd_select_store:
  "svd_select_store (ex_svd None) ex_store 0 2 1 (Some 2) =
     Some (4, [Array ex_A, Array ex_Y, PyList [0, 1], Array ex_A2, PyList [0, 1]])"
proof -
  have "get_array ex_store 0 = Some ex_A" "get_list ex_store 2 = Some [0]"
    by (simp_all add: ex_store_def get_array_def get_list_def)
  from svd_select_store_Some[OF this, of "ex_svd None" 2 1]
  show ?thesis
    by (simp add: ex_svd_rounds_2_replay[simplified] ex_store_def)
qed

lemma ex_pcovr_round_store_0:
  "pcovr_round_store ex_eig ex_pinv (Fin (1 / 2)) (Suc 0) (Suc (Suc (Suc 0)))
     (Suc (Suc (Suc (Suc 0)))) 2 0
     [Array ex_A, Array ex_Y, PyList [0], Array ex_A, Array ex_Y] =
   Some (Next [Array ex_A, Array ex_Y, PyList [0], Array ex_A1, Array ex_Y])"
  using pcovr_round_store_eq[of "Suc (Suc (Suc 0))"
      "[Array ex_A, Array ex_Y, PyList [0], Array ex_A, Array ex_Y]"
      "Suc (Suc (Suc (Suc 0)))" 2 ex_A ex_Y "[0]" ex_eig ex_pinv "Fin (1 / 2)" "Suc 0" 0]
  by (simp add: ex_pcovr_round_0_replay[simplified])

lemma ex_pcovr_round_store_1:
  "pcovr_round_store ex_eig ex_pinv (Fin (1 / 2)) (Suc 0) (Suc (Suc (Suc 0)))
     (Suc (Suc (Suc (Suc 0)))) 2 (Suc 0)
     [Array ex_A, Array ex_Y, PyList [0], Array ex_A1, Array ex_Y] =
   Some (Next [Array ex_A, Array ex_Y, PyList [0, 1], Array ex_A2, Array ex_Y])"
  using pcovr_round_store_eq[of "Suc (Suc (Suc 0))"
      "[Array ex_A, Array ex_Y, PyList [0], Array ex_A1, Array ex_Y]"
      "Suc (Suc (Suc (Suc 0)))" 2 ex_A1 ex_Y "[0]" ex_eig ex_pinv "Fin (1 / 2)" "Suc 0" "Suc 0"]
  by (simp add: ex_pcovr_round_1[simplified])

lemma pcovr_rounds_store_numeral:
  "pcovr_rounds_store se pinv alpha k a y i nn (numeral w) h =
     do {
       r \<leftarrow> pcovr_round_store se pinv alpha k a y i nn h;
       (case r of
          Return l \<Rightarrow> Some (h, Some l)
        | Next h' \<Rightarrow> pcovr_rounds_store se pinv alpha k a y i (Suc nn) (pred_numeral w) h')
     }"
  by (simp add: numeral_eq_Suc)

lemma ex_pcovr_select_store:
  "pcovr_select_store ex_eig ex_pinv ex_store 0 2 1 (Fin (1 / 2)) 1 (Some 2) =
     Some (5, [Array ex_A, Array ex_Y, PyList [0, 1], Array ex_A2, Array ex_Y, PyList [0, 1]])"
  by (simp add: pcovr_select_store_def ex_store_def alloc_def get_array_def get_list_def
      pcovr_rounds_store_numeral ex_pcovr_round_store_0[simplified]
      ex_pcovr_round_store_1[simplified] cong: option.case_cong)


section \<open>Arrays built entry by entry\<close>

lemma nrows_mk: "nrows (mk nr nc f) = nr"
  by (simp add: nrows_def mk_def)

lemma ncols_mk: "ncols (mk nr nc f) = nc"
  by (simp add: mk_def)

lemma entry_mk: "i < nr \<Longrightarrow> j < nc \<Longrightarrow> entry (mk nr nc f) i j = f i j"
  by (simp add: entry_def mk_def)

lemma mk_cong: "(\<And>i j. i < nr \<Longrightarrow> j < nc \<Longrightarrow> f i j = g i j) \<Longrightarrow> mk nr nc f = mk nr nc g"
  by (simp add: mk_def)

lemma nan_free_mk: "nan_free (mk nr nc f) = (\<forall>i<nr. \<forall>j<nc. f i j \<noteq> NaN)"
  by (auto simp: nan_free_def mk_def list_all_iff)

lemma scal_mk: "scal c (mk nr nc f) = mk nr nc (\<lambda>i j. fmul c (f i j))"
  by (simp add: scal_def mk_def)

lemma matmul_SomeD:
  "matmul P Q = Some R \<Longrightarrow>
     ncols P = nrows Q \<and> R = mk (nrows P) (ncols Q) (\<lambda>i j. dot (rows P ! i) (column Q j))"
  by (auto simp: matmul_def split: if_splits)

lemma np_add_mk:
  "np_add (mk nr nc f) (mk nr' nc' g) = Some C \<Longrightarrow>
     nr' = nr \<and> nc' = nc \<and> C = mk nr nc (\<lambda>i j. fadd (f i j) (g i j))"
  by (auto simp: np_add_def shape_def nrows_mk ncols_mk entry_mk split: if_splits intro!: mk_cong)

lemma np_sub_SomeD:
  "np_sub P Q = Some R \<Longrightarrow>
     shape P = shape Q \<and> R = mk (nrows P) (ncols P) (\<lambda>i j. fsub (entry P i j) (entry Q i j))"
  by (auto simp: np_sub_def split: if_splits)

lemma fadd_one_zero:
  "fadd (fmul (Fin 1) x) (fmul (Fin 0) y) \<noteq> NaN \<Longrightarrow> fadd (fmul (Fin 1) x) (fmul (Fin 0) y) = x"
  by (cases x; cases y) simp_all

text \<open>Calls on 1 x 1 and 2 x 1 arrays.\<close>

lemma ex_update_1x1:
  "update ex_pinv_1x1 (of_rows [[1], [1]]) (of_rows [[1], [0]]) = Some (of_rows [[0], [1]])"
  by (simp add: update_def ex_pinv_1x1_def pinv_table_def arr_ev)

lemma ex_get_Ct_1x1:
  "get_Ct ex_eig_1x1 (of_rows [[2]]) (of_rows [[1]]) (Fin (1 / 2)) default_regularization =
     Some (of_rows [[5 / 2]])"
  by (simp add: get_Ct_def ex_eig_1x1_def eig_table_def default_regularization_def mask_cols_def
      mask_vec_def arr_ev)

lemma ex_get_Ct_spec_1x1:
  "get_Ct_spec ex_eig_1x1 (of_rows [[2]]) (of_rows [[1]]) (Fin (1 / 2)) default_regularization =
     Some (of_rows [[9 / 4]])"
  by (simp add: get_Ct_spec_def ex_eig_1x1_def eig_table_def default_regularization_def
      mask_cols_def mask_vec_def arr_ev)

lemma ex_get_Ct_1x1_alpha1:
  "get_Ct ex_eig_1x1 (of_rows [[2]]) (of_rows [[1]]) (Fin 1) default_regularization =
     Some (of_rows [[4]])"
  by (simp add: get_Ct_def ex_eig_1x1_def eig_table_def default_regularization_def mask_cols_def
      mask_vec_def arr_ev)

lemma take_cols_SomeD:
  "take_cols M js = Some R \<Longrightarrow>
     list_all (\<lambda>j. j < ncols M) js \<and> R = mk (nrows M) (length js) (\<lambda>i t. entry M i (js ! t))"
  by (auto simp: take_cols_def split: if_splits)

lemma take_rows_SomeD:
  "take_rows M ixs = Some R \<Longrightarrow>
     list_all (\<lambda>i. i < nrows M) ixs \<and> R = mk (length ixs) (ncols M) (\<lambda>t j. entry M (ixs ! t) j)"
  by (auto simp: take_rows_def split: if_splits)

lemma refresh_idx_cached:
  "refresh_idx lib c n_c n_r = Some ((ic, ir), c1) \<Longrightarrow> idx_c c1 = Some ic \<and> idx_r c1 = Some ir"
  by (auto simp: refresh_idx_def split: bind_splits)

lemma ex_init_fs:
  "init ex_lib ex_A None True (Name ''svd'') (Fin (1 / 10000))
     \<lparr>param_k = None, param_Y = None, param_alpha = None\<rparr> = Some (ex_cur True True None None)"
  by (simp add: init_def ex_cur_def ex_symmetric)

text \<open>What a returning call of \<^verbatim>\<open>get_Ct\<close> has computed.\<close>

lemma get_Ct_SomeD:
  assumes "get_Ct sorted_eig X Y alpha regularization = Some C"
  shows "\<exists>cov v_C U_C U v UD Csqrt UI Cinv XtY B M C_lr.
           matmul (mat_T X) X = Some cov
         \<and> sorted_eig cov (Some regularization) None = Some (v_C, U_C)
         \<and> mask_cols U_C (map (fless regularization) v_C) = Some U
         \<and> mask_vec v_C (map (fless regularization) v_C) = Some v
         \<and> matmul U (np_diag (map fsqrt v)) = Some UD \<and> matmul UD (mat_T U) = Some Csqrt
         \<and> matmul U (np_diag (map (fdiv (Fin 1)) v)) = Some UI \<and> matmul UI (mat_T U) = Some Cinv
         \<and> matmul (mat_T X) Y = Some XtY \<and> matmul Cinv XtY = Some B \<and> matmul Csqrt B = Some M
         \<and> matmul M (mat_T M) = Some C_lr
         \<and> shape C = shape cov \<and> shape C_lr = shape cov
         \<and> (\<forall>i<ncols X. \<forall>j<ncols X.
               entry C i j =
                 fadd (fmul alpha (entry cov i j)) (fmul (fsub (Fin 1) alpha) (entry C_lr i j)))
         \<and> (alpha = Fin 1 \<and> nan_free C \<longrightarrow> C = cov)"
proof -
  from assms obtain cov v_C U_C U v UD Csqrt UI Cinv XtY B M C_lr where
    s: "matmul (mat_T X) X = Some cov"
       "sorted_eig cov (Some regularization) None = Some (v_C, U_C)"
       "mask_cols U_C (map (fless regularization) v_C) = Some U"
       "mask_vec v_C (map (fless regularization) v_C) = Some v"
       "matmul U (np_diag (map fsqrt v)) = Some UD" "matmul UD (mat_T U) = Some Csqrt"
       "matmul U (np_diag (map (fdiv (Fin 1)) v)) = Some UI" "matmul UI (mat_T U) = Some Cinv"
       "matmul (mat_T X) Y = Some XtY" "matmul Cinv XtY = Some B" "matmul Csqrt B = Some M"
       "matmul M (mat_T M) = Some C_lr"
    and C: "np_add (scal alpha cov) (scal (fsub (Fin 1) alpha) C_lr) = Some C"
    by (auto simp: get_Ct_def Let_def split: bind_splits)
  define f where "f = (\<lambda>i j. dot (rows (mat_T X) ! i) (column X j))"
  define g where "g = (\<lambda>i j. dot (rows M ! i) (column (mat_T M) j))"
  from matmul_SomeD[OF s(1)] have cov: "cov = mk (ncols X) (ncols X) f"
    by (simp add: f_def mat_T_def nrows_mk)
  from matmul_SomeD[OF s(12)] have C_lr: "C_lr = mk (nrows M) (nrows M) g"
    by (simp add: g_def mat_T_def ncols_mk)
  from C have C': "np_add (mk (ncols X) (ncols X) (\<lambda>i j. fmul alpha (f i j)))
                     (mk (nrows M) (nrows M) (\<lambda>i j. fmul (fsub (Fin 1) alpha) (g i j))) = Some C"
    by (simp add: cov C_lr scal_mk)
  from np_add_mk[OF C'] have n: "nrows M = ncols X"
    and Ceq: "C = mk (ncols X) (ncols X)
                (\<lambda>i j. fadd (fmul alpha (f i j)) (fmul (fsub (Fin 1) alpha) (g i j)))"
    by auto
  have sh: "shape C = shape cov" "shape C_lr = shape cov"
    by (simp_all add: Ceq cov C_lr n shape_def nrows_mk ncols_mk)
  have en: "\<forall>i<ncols X. \<forall>j<ncols X.
               entry C i j =
                 fadd (fmul alpha (entry cov i j)) (fmul (fsub (Fin 1) alpha) (entry C_lr i j))"
    by (simp add: Ceq cov C_lr n entry_mk)
  have one: "alpha = Fin 1 \<and> nan_free C \<longrightarrow> C = cov"
  proof
    assume a: "alpha = Fin 1 \<and> nan_free C"
    then have "alpha = Fin 1" and "nan_free C" by simp_all
    then have nf: "\<forall>i<ncols X. \<forall>j<ncols X.
                     fadd (fmul (Fin 1) (f i j)) (fmul (Fin 0) (g i j)) \<noteq> NaN"
      unfolding Ceq nan_free_mk by simp
    have "mk (ncols X) (ncols X) (\<lambda>i j. fadd (fmul (Fin 1) (f i j)) (fmul (Fin 0) (g i j))) =
          mk (ncols X) (ncols X) f"
      using nf by (intro mk_cong fadd_one_zero) simp
    with a show "C = cov" by (simp add: Ceq cov)
  qed
  from s sh en one show ?thesis by blast
qed

section \<open>PCovR selection with \<open>alpha = 1\<close>\<close>

lemma svd_rounds_length:
  "svd_rounds svd k nn m (M, l) = Some (M', l') \<Longrightarrow> length l = nn \<Longrightarrow> length l' = nn + m"
proof (induction m arbitrary: nn M l)
  case 0
  then show ?case by simp
next
  case (Suc m)
  from Suc.prems(1) obtain M1 l1 where
    r: "svd_round svd k nn (M, l) = Some (M1, l1)" and
    rs: "svd_rounds svd k (Suc nn) m (M1, l1) = Some (M', l')"
    by (auto split: bind_splits)
  from svd_round_result[OF r] Suc.prems(2) have "length l1 = Suc nn"
    by (auto split: if_splits)
  from Suc.IH[OF rs this] show ?case by simp
qed

lemma svd_select_length:
  "svd_select svd A n k None = Some l \<Longrightarrow> length l = n"
  using svd_rounds_length[of svd k 0 n A "[]"]
  by (auto simp: svd_select_def split: bind_splits)

lemma pcovr_rounds_length:
  "pcovr_rounds se pinv alpha k nn m (M, Yc, l) = Some r \<Longrightarrow> length l = nn \<Longrightarrow>
     (case r of Next (M', Y', l') \<Rightarrow> length l' = nn + m | Return l' \<Rightarrow> length l' < nn + m)"
proof (induction m arbitrary: nn M Yc l)
  case 0
  then show ?case by auto
next
  case (Suc m)
  from Suc.prems(1) obtain r1 where
    r1: "pcovr_round se pinv alpha k nn (M, Yc, l) = Some r1"
    by (auto split: bind_splits)
  show ?case
  proof (cases r1)
    case (Return l0)
    with r1 Suc.prems(1) have "r = Return l0" by simp
    moreover from pcovr_round_Return r1 Return have "l0 = l" by blast
    ultimately show ?thesis using Suc.prems(2) by simp
  next
    case (Next st1)
    obtain M1 Y1 l1 where st1: "st1 = (M1, Y1, l1)" by (cases st1) auto
    from r1 Next st1 Suc.prems(1) have
      rs: "pcovr_rounds se pinv alpha k (Suc nn) m (M1, Y1, l1) = Some r" by simp
    from pcovr_round_Next r1 Next st1 Suc.prems(2) have "length l1 = Suc nn"
      by (fastforce split: if_splits)
    from Suc.IH[OF rs this] show ?thesis
      by (auto split: step.splits)
  qed
qed

text \<open>The example with \<open>alpha = 1\<close>.\<close>

lemma ex_cov_0: "matmul (mat_T ex_A) ex_A = Some (of_rows [[4, 0], [0, 1]])"
  by (simp add: ex_A_def arr_ev)

lemma ex_cov_1: "matmul (mat_T ex_A1) ex_A1 = Some (of_rows [[0, 0], [0, 1]])"
  by (simp add: ex_A1_def arr_ev)

lemma ex_get_Ct_0_alpha1:
  "get_Ct ex_eig ex_A ex_Y (Fin 1) default_regularization = Some (of_rows [[4, 0], [0, 1]])"
  by (simp add: ct_ev ex_A_def ex_Y_def arr_ev)

lemma ex_get_Ct_1_alpha1:
  "get_Ct ex_eig ex_A1 ex_Y (Fin 1) default_regularization = Some (of_rows [[0, 0], [0, 1]])"
  by (simp add: ct_ev ex_A1_def ex_Y_def arr_ev)

lemma ex_pcovr_pick_0_alpha1: "pcovr_pick ex_eig 1 (of_rows [[4, 0], [0, 1]]) [] = Some 0"
  by (simp add: pcovr_pick_def ex_eig_def eig_table_def default_regularization_def zero_at_def
      sum_axis1_def np_square_def col_slice_def arr_ev)

lemma ex_pcovr_pick_1_alpha1: "pcovr_pick ex_eig 1 (of_rows [[0, 0], [0, 1]]) [0] = Some 1"
  by (simp add: pcovr_pick_def ex_eig_def eig_table_def default_regularization_def zero_at_def
      sum_axis1_def np_square_def col_slice_def arr_ev)

lemma ex_pcovr_round_0_alpha1:
  "pcovr_round ex_eig ex_pinv (Fin 1) 1 0 (ex_A, ex_Y, []) = Some (Next (ex_A1, ex_Y, [0]))"
  by (simp add: pcovr_round_def ex_get_Ct_0_alpha1 ex_pcovr_pick_0_alpha1[simplified] py_nth_def
      ex_deflate_0 ex_take_cols_0 ex_update_0)

lemma ex_pcovr_round_1_alpha1:
  "pcovr_round ex_eig ex_pinv (Fin 1) 1 (Suc 0) (ex_A1, ex_Y, [0]) =
     Some (Next (ex_A2, ex_Y, [0, 1]))"
  by (simp add: pcovr_round_def ex_get_Ct_1_alpha1 ex_pcovr_pick_1_alpha1[simplified] py_nth_def
      ex_deflate_1[simplified] ex_take_cols_1[simplified] ex_update_1)

lemma ex_pcovr_rounds_1_alpha1:
  "pcovr_rounds ex_eig ex_pinv (Fin 1) 1 0 1 (ex_A, ex_Y, []) = Some (Next (ex_A1, ex_Y, [0]))"
  by (simp add: ex_pcovr_round_0_alpha1[simplified])

lemma ex_pcovr_rounds_2_alpha1:
  "pcovr_rounds ex_eig ex_pinv (Fin 1) 1 0 2 (ex_A, ex_Y, []) = Some (Next (ex_A2, ex_Y, [0, 1]))"
  by (simp add: numeral_2_eq_2 ex_pcovr_round_0_alpha1[simplified]
      ex_pcovr_round_1_alpha1[simplified])

lemma ex_pcovr_select_2_alpha1:
  "pcovr_select ex_eig ex_pinv ex_A 2 ex_Y (Fin 1) 1 None = Some [0, 1]"
  by (simp add: pcovr_select_def ex_pcovr_rounds_2_alpha1[simplified])


section \<open>Finite arrays\<close>

lemma Fin_real_of: "x \<noteq> NaN \<Longrightarrow> Fin (real_of x) = x"
  by (cases x) simp_all

lemma wf_mat_mk: "wf_mat (mk nr nc f)"
  by (simp add: wf_mat_def mk_def list_all_iff)

lemma wf_mat_row:
  "wf_mat M \<Longrightarrow> r < nrows M \<Longrightarrow> rows M ! r = map (entry M r) [0..<ncols M]"
  by (auto simp: wf_mat_def nrows_def entry_def list_all_length intro!: nth_equalityI)

lemma fin_entry:
  "fin_mat M \<Longrightarrow> r < nrows M \<Longrightarrow> i < ncols M \<Longrightarrow> entry M r i = Fin (rentry M r i)"
  by (auto simp: fin_mat_def wf_mat_def nan_free_def nrows_def entry_def rentry_def list_all_length
      Fin_real_of)

section \<open>The rectangular example\<close>

text \<open>
  The calls of \<^verbatim>\<open>svd_select\<close>, \<^verbatim>\<open>compute\<close> and \<^verbatim>\<open>loss\<close> on the matrix \<open>ex_B\<close>, evaluated one
  call at a time.
\<close>

lemmas exB = ex_B_def ex_B1_def ex_B2_def ex_B3_def ex_Bt_def ex_Bt1_def ex_Bt2_def ex_Bt3_def

lemma ex_B_T: "mat_T ex_B = ex_Bt"
  by (simp add: exB arr_ev)

lemma ex_B_deflate:
  "deflate ex_B 0 = Some ex_B1" "deflate ex_B1 1 = Some ex_B2" "deflate ex_B2 2 = Some ex_B3"
  "deflate ex_Bt 0 = Some ex_Bt1" "deflate ex_Bt1 1 = Some ex_Bt2" "deflate ex_Bt2 2 = Some ex_Bt3"
  by (simp_all add: deflate_def exB arr_ev)

lemma ex_B_distinct:
  "ex_B \<noteq> ex_B1" "ex_B \<noteq> ex_B2" "ex_B1 \<noteq> ex_B2" "ex_Bt \<noteq> ex_B" "ex_Bt \<noteq> ex_B1" "ex_Bt \<noteq> ex_B2"
  "ex_Bt1 \<noteq> ex_B" "ex_Bt1 \<noteq> ex_B1" "ex_Bt1 \<noteq> ex_B2" "ex_Bt1 \<noteq> ex_Bt"
  "ex_Bt2 \<noteq> ex_B" "ex_Bt2 \<noteq> ex_B1" "ex_Bt2 \<noteq> ex_B2" "ex_Bt2 \<noteq> ex_Bt" "ex_Bt2 \<noteq> ex_Bt1"
  "ex_B1 \<noteq> ex_B" "ex_B2 \<noteq> ex_B" "ex_B2 \<noteq> ex_B1"
  by (simp_all add: exB of_rows_def)

lemma ex_B_svd_pick:
  "svd_pick ex_B_svd 1 ex_B [] = Some 0"
  "svd_pick ex_B_svd 1 ex_B1 [0] = Some 1"
  "svd_pick ex_B_svd 1 ex_B2 [0, 1] = Some 2"
  "svd_pick ex_B_svd 1 ex_Bt [] = Some 0"
  "svd_pick ex_B_svd 1 ex_Bt1 [0] = Some 1"
  "svd_pick ex_B_svd 1 ex_Bt2 [0, 1] = Some 2"
  by (simp_all add: svd_pick_def ex_B_svd_def svd_table_def ex_B_distinct zero_at_def sum_axis0_def
      np_square_def row_slice_def of_rows_def column_def entry_def nrows_def fsum_def upt_rec)

lemma ex_B_svd_round:
  "svd_round ex_B_svd 1 0 (ex_B, []) = Some (ex_B1, [0])"
  "svd_round ex_B_svd 1 (Suc 0) (ex_B1, [0]) = Some (ex_B2, [0, 1])"
  "svd_round ex_B_svd 1 (Suc (Suc 0)) (ex_B2, [0, 1]) = Some (ex_B3, [0, 1, 2])"
  "svd_round ex_B_svd 1 0 (ex_B, [0, 1, 2]) = Some (ex_B1, [0, 1, 2])"
  "svd_round ex_B_svd 1 0 (ex_Bt, []) = Some (ex_Bt1, [0])"
  "svd_round ex_B_svd 1 0 (ex_Bt, [0]) = Some (ex_Bt1, [0])"
  "svd_round ex_B_svd 1 (Suc 0) (ex_Bt1, [0]) = Some (ex_Bt2, [0, 1])"
  "svd_round ex_B_svd 1 (Suc (Suc 0)) (ex_Bt2, [0, 1]) = Some (ex_Bt3, [0, 1, 2])"
  by (simp_all add: svd_round_def ex_B_svd_pick[simplified] py_nth_def ex_B_deflate[simplified])

lemma ex_B_svd_select:
  "svd_select ex_B_svd ex_B 3 1 None = Some [0, 1, 2]"
  "svd_select ex_B_svd ex_Bt 1 1 None = Some [0]"
  "svd_select ex_B_svd ex_B 1 1 (Some [0, 1, 2]) = Some [0, 1, 2]"
  "svd_select ex_B_svd ex_Bt 3 1 (Some [0]) = Some [0, 1, 2]"
  by (simp_all add: svd_select_def numeral_3_eq_3 ex_B_svd_round[simplified])

lemma ex_B_not_symmetric: "\<not> symmetric_flag ex_B tol"
  by (simp add: symmetric_flag_def shape_def nrows_def mat_T_def mk_def ex_B_def of_rows_def)

lemma ex_B_take:
  "take_cols ex_B [0, 1, 2] = Some ex_B"
  "take_rows ex_B [0, 1, 2] = Some (of_rows [[3, 0, 0], [0, 2, 0], [0, 0, 1]])"
  "take_cols ex_B [0, 1] = Some (of_rows [[3, 0], [0, 2], [0, 0], [0, 0]])"
  by (simp_all add: take_cols_def take_rows_def ex_B_def arr_ev)

lemma ex_B_pinv_val:
  "ex_B_pinv ex_B = Some (of_rows [[1 / 3, 0, 0, 0], [0, 1 / 2, 0, 0], [0, 0, 1, 0]])"
  "ex_B_pinv (of_rows [[3, 0, 0], [0, 2, 0], [0, 0, 1]]) =
     Some (of_rows [[1 / 3, 0, 0], [0, 1 / 2, 0], [0, 0, 1]])"
  "ex_B_pinv (of_rows [[3, 0], [0, 2], [0, 0], [0, 0]]) =
     Some (of_rows [[1 / 3, 0, 0, 0], [0, 1 / 2, 0, 0]])"
  by (simp_all add: ex_B_pinv_def pinv_table_def ex_B_def of_rows_def)

lemma ex_B_mm:
  "matmul (of_rows [[1 / 3, 0, 0, 0], [0, 1 / 2, 0, 0], [0, 0, 1, 0]]) ex_B =
     Some (of_rows [[1, 0, 0], [0, 1, 0], [0, 0, 1]])"
  "matmul (of_rows [[1, 0, 0], [0, 1, 0], [0, 0, 1]])
          (of_rows [[1 / 3, 0, 0], [0, 1 / 2, 0], [0, 0, 1]]) =
     Some (of_rows [[1 / 3, 0, 0], [0, 1 / 2, 0], [0, 0, 1]])"
  "matmul (of_rows [[1 / 3, 0, 0], [0, 1 / 2, 0], [0, 0, 1]])
          (of_rows [[3, 0, 0], [0, 2, 0], [0, 0, 1]]) =
     Some (of_rows [[1, 0, 0], [0, 1, 0], [0, 0, 1]])"
  "matmul ex_B (of_rows [[1, 0, 0], [0, 1, 0], [0, 0, 1]]) = Some ex_B"
  "matmul (of_rows [[1 / 3, 0, 0, 0], [0, 1 / 2, 0, 0]]) ex_B =
     Some (of_rows [[1, 0, 0], [0, 1, 0]])"
  "matmul (of_rows [[1, 0, 0], [0, 1, 0]])
          (of_rows [[1 / 3, 0, 0], [0, 1 / 2, 0], [0, 0, 1]]) =
     Some (of_rows [[1 / 3, 0, 0], [0, 1 / 2, 0]])"
  "matmul (of_rows [[1 / 3, 0, 0], [0, 1 / 2, 0]])
          (of_rows [[3, 0, 0], [0, 2, 0], [0, 0, 1]]) =
     Some (of_rows [[1, 0, 0], [0, 1, 0]])"
  "matmul (of_rows [[3, 0], [0, 2], [0, 0], [0, 0]]) (of_rows [[1, 0, 0], [0, 1, 0]]) =
     Some (of_rows [[3, 0, 0], [0, 2, 0], [0, 0, 0], [0, 0, 0]])"
  by (simp_all add: ex_B_def arr_ev)

lemma ex_B_sub:
  "np_sub ex_B ex_B = Some ex_B3"
  "np_sub ex_B (of_rows [[3, 0, 0], [0, 2, 0], [0, 0, 0], [0, 0, 0]]) = Some ex_B2"
  by (simp_all add: exB arr_ev)

lemma ex_B_norm:
  "norm_fro ex_B = Fin (sqrt 14)" "norm_fro ex_B3 = Fin 0" "norm_fro ex_B2 = Fin 1"
  by (simp_all add: norm_fro_def exB of_rows_def fsum_def)

lemma ex_B_init:
  "init ex_B_lib ex_B (Some (3, 1)) False (Name ''svd'') tol
        \<lparr>param_k = None, param_Y = None, param_alpha = None\<rparr> =
     Some (ex_B_cur (Some [0, 1, 2]) (Some [0]))"
  by (simp add: init_def refresh_idx_def compute_idx_def call_select_def ex_B_cur_def ex_B_lib_def
      ex_B_not_symmetric ex_B_T ex_B_svd_select[simplified])

lemma ex_B_compute_1:
  "compute ex_B_lib (ex_B_cur (Some [0, 1, 2]) (Some [0])) 1 (Some 3) =
     Some ((ex_B, of_rows [[1 / 3, 0, 0], [0, 1 / 2, 0], [0, 0, 1]],
            of_rows [[3, 0, 0], [0, 2, 0], [0, 0, 1]]),
           ex_B_cur (Some [0, 1, 2]) (Some [0, 1, 2]))"
  by (simp add: compute_def refresh_idx_def compute_idx_def call_select_def ex_B_cur_def ex_B_lib_def
      ex_B_T ex_B_svd_select[simplified] ex_B_take[simplified] ex_B_pinv_val ex_B_mm)

lemma ex_B_compute_2:
  "compute ex_B_lib (ex_B_cur (Some [0, 1, 2]) (Some [0, 1, 2])) 2 (Some 3) =
     Some ((of_rows [[3, 0], [0, 2], [0, 0], [0, 0]], of_rows [[1 / 3, 0, 0], [0, 1 / 2, 0]],
            of_rows [[3, 0, 0], [0, 2, 0], [0, 0, 1]]),
           ex_B_cur (Some [0, 1, 2]) (Some [0, 1, 2]))"
  by (simp add: compute_def ex_B_cur_def ex_B_lib_def ex_B_take[simplified] ex_B_pinv_val ex_B_mm)

lemma ex_B_cur_self_A: "self_A (ex_B_cur ic ir) = ex_B"
  by (simp add: ex_B_cur_def)

lemma ex_B_loss_1:
  "loss ex_B_lib (ex_B_cur (Some [0, 1, 2]) (Some [0])) 1 (Some 3) =
     Some (Fin 0, ex_B_cur (Some [0, 1, 2]) (Some [0, 1, 2]))"
  by (simp add: loss_def ex_B_compute_1[simplified] ex_B_mm ex_B_cur_self_A ex_B_sub ex_B_norm)

lemma ex_B_loss_2:
  "loss ex_B_lib (ex_B_cur (Some [0, 1, 2]) (Some [0, 1, 2])) 2 (Some 3) =
     Some (Fin (1 / sqrt 14), ex_B_cur (Some [0, 1, 2]) (Some [0, 1, 2]))"
  by (simp add: loss_def ex_B_compute_2[simplified] ex_B_mm ex_B_cur_self_A ex_B_sub ex_B_norm)

section \<open>The exhausted working copy\<close>

text \<open>
  The rounds of \<^verbatim>\<open>pcovr_select\<close> on \<open>ex_A\<close> with an eigen-solver that returns on the zero
  matrix: the first two rounds are those of the worked example, the third one meets the
  exhausted working copy.
\<close>

lemmas full_ev = ex_eig_full_def ex_A2_def

lemma ex_full_get_Ct:
  "get_Ct (ex_eig_full U u) ex_A ex_Y (Fin (1 / 2)) default_regularization =
     Some (of_rows [[5 / 2, 0], [0, 1 / 2]])"
  "get_Ct (ex_eig_full U u) ex_A1 ex_Y (Fin (1 / 2)) default_regularization =
     Some (of_rows [[0, 0], [0, 1 / 2]])"
  by (simp_all add: ct_ev full_ev ex_A_def ex_A1_def ex_Y_def arr_ev)

lemma ex_full_get_Ct_2:
  "get_Ct (ex_eig_full (Mat 2 [[a, b], [c, d]]) u) ex_A2 ex_Y (Fin (1 / 2))
     default_regularization = Some ex_A2"
  by (simp add: get_Ct_def ex_eig_full_def default_regularization_def mask_cols_def mask_vec_def
      ex_A2_def ex_Y_def arr_ev)

lemma ex_full_pick:
  "pcovr_pick (ex_eig_full U u) 1 (of_rows [[5 / 2, 0], [0, 1 / 2]]) [] = Some 0"
  "pcovr_pick (ex_eig_full U u) 1 (of_rows [[0, 0], [0, 1 / 2]]) [0] = Some 1"
  by (simp_all add: pcovr_pick_def full_ev ex_eig_def eig_table_def default_regularization_def
      zero_at_def sum_axis1_def np_square_def col_slice_def arr_ev)

lemma ex_full_pick_2:
  "pcovr_pick (ex_eig_full U (Mat 1 [[x], [y]])) 1 ex_A2 [0, 1] = Some 0"
  by (simp add: pcovr_pick_def ex_eig_full_def zero_at_def sum_axis1_def np_square_def
      col_slice_def ex_A2_def of_rows_def fsum_def)

lemma ex_full_round_0:
  "pcovr_round (ex_eig_full U u) pinv (Fin (1 / 2)) 1 0 (ex_A, ex_Y, []) =
     pcovr_round ex_eig pinv (Fin (1 / 2)) 1 0 (ex_A, ex_Y, [])"
  by (simp add: pcovr_round_def ex_full_get_Ct ex_get_Ct_0 ex_full_pick[simplified]
      ex_pcovr_pick_0[simplified])

lemma ex_full_round_1:
  "pcovr_round (ex_eig_full U u) pinv (Fin (1 / 2)) 1 (Suc 0) (ex_A1, ex_Y, [0]) =
     pcovr_round ex_eig pinv (Fin (1 / 2)) 1 (Suc 0) (ex_A1, ex_Y, [0])"
  by (simp add: pcovr_round_def ex_full_get_Ct ex_get_Ct_1 ex_full_pick[simplified]
      ex_pcovr_pick_1[simplified])

lemma ex_take_cols_nan:
  "take_cols (Mat 2 [[NaN, NaN], [NaN, NaN]]) [0, 1, 0] =
     Some (Mat 3 [[NaN, NaN, NaN], [NaN, NaN, NaN]])"
  by (simp add: take_cols_def arr_ev)

lemma ex_update_nan_raises:
  "update ex_pinv Y (Mat 3 [[NaN, NaN, NaN], [NaN, NaN, NaN]]) = None"
  by (simp add: update_def ex_pinv_def pinv_table_def arr_ev)

lemma ex_update_nan_returns:
  "update ex_pinv_nan ex_Y (Mat 3 [[NaN, NaN, NaN], [NaN, NaN, NaN]]) = Some (Mat 1 [[NaN], [NaN]])"
  by (simp add: update_def ex_pinv_nan_def ex_Y_def arr_ev)

lemma ex_pinv_nan_finite:
  "update ex_pinv_nan ex_Y (of_rows [[0], [0]]) = Some ex_Y"
  "update ex_pinv_nan ex_Y (of_rows [[0, 0], [0, 0]]) = Some ex_Y"
  by (simp_all add: update_def ex_pinv_nan_def ex_pinv_def pinv_table_def ex_Y_def arr_ev)

lemma ex_full_round_2:
  "pcovr_round (ex_eig_full (Mat 2 [[a, b], [c, d]]) (Mat 1 [[x], [y]])) ex_pinv (Fin (1 / 2)) 1
     (Suc (Suc 0)) (ex_A2, ex_Y, [0, 1]) = None"
  by (simp add: pcovr_round_def ex_full_get_Ct_2 ex_full_pick_2[simplified] py_nth_def
      ex_deflate_2[simplified] ex_take_cols_nan[simplified] ex_update_nan_raises)

lemma ex_full_round_2_nan:
  "pcovr_round (ex_eig_full (Mat 2 [[a, b], [c, d]]) (Mat 1 [[x], [y]])) ex_pinv_nan (Fin (1 / 2)) 1
     (Suc (Suc 0)) (ex_A2, ex_Y, [0, 1]) =
     Some (Next (Mat 2 [[NaN, NaN], [NaN, NaN]], Mat 1 [[NaN], [NaN]], [0, 1, 0]))"
  by (simp add: pcovr_round_def ex_full_get_Ct_2 ex_full_pick_2[simplified] py_nth_def
      ex_deflate_2[simplified] ex_take_cols_nan[simplified] ex_update_nan_returns)

lemma ex_round_nan_0:
  "pcovr_round ex_eig ex_pinv_nan (Fin (1 / 2)) 1 0 (ex_A, ex_Y, []) = Some (Next (ex_A1, ex_Y, [0]))"
  by (simp add: pcovr_round_def ex_get_Ct_0 ex_pcovr_pick_0[simplified] py_nth_def ex_deflate_0
      ex_take_cols_0 ex_pinv_nan_finite)

lemma ex_round_nan_1:
  "pcovr_round ex_eig ex_pinv_nan (Fin (1 / 2)) 1 (Suc 0) (ex_A1, ex_Y, [0]) =
     Some (Next (ex_A2, ex_Y, [0, 1]))"
  by (simp add: pcovr_round_def ex_get_Ct_1 ex_pcovr_pick_1[simplified] py_nth_def
      ex_deflate_1[simplified] ex_take_cols_1[simplified] ex_pinv_nan_finite)

section \<open>A selection function of the caller's\<close>

lemma ex_nf_init:
  "init ex_nf_lib ex_A None True (Callable ex_newest_first) (Fin (1 / 10000))
     \<lparr>param_k = None, param_Y = None, param_alpha = None\<rparr> = Some (ex_nf_cur None None)"
  by (simp add: init_def ex_nf_cur_def ex_symmetric)

lemma ex_nf_take: "take_cols ex_A [1, 0] = Some (of_rows [[0, 2], [1, 0]])"
  by (simp add: take_cols_def ex_A_def arr_ev)

lemma ex_nf_mm:
  "matmul (of_rows [[1 / 2, 0]]) ex_A = Some (of_rows [[1, 0]])"
  "matmul (of_rows [[1, 0]]) (of_rows [[1 / 2, 0], [0, 1]]) = Some (of_rows [[1 / 2, 0]])"
  "matmul (of_rows [[0, 1], [1 / 2, 0]]) ex_A = Some (of_rows [[0, 1], [1, 0]])"
  "matmul (of_rows [[0, 1], [1, 0]]) (of_rows [[1 / 2, 0], [0, 1]]) =
     Some (of_rows [[0, 1], [1 / 2, 0]])"
  by (simp_all add: ex_A_def arr_ev)

lemma ex_nf_pinv:
  "lib_pinv ex_nf_lib (of_rows [[2], [0]]) = Some (of_rows [[1 / 2, 0]])"
  "lib_pinv ex_nf_lib ex_A = Some (of_rows [[1 / 2, 0], [0, 1]])"
  "lib_pinv ex_nf_lib (of_rows [[0, 2], [1, 0]]) = Some (of_rows [[0, 1], [1 / 2, 0]])"
  by (simp_all add: ex_nf_lib_def pinv_table_def ex_A_def of_rows_def)

lemma ex_nf_select:
  "ex_newest_first M (Some 1) i = Some [0]" "ex_newest_first M (Some 2) i = Some [1, 0]"
  by (simp_all add: ex_newest_first_def upt_rec)

lemma ex_nf_compute_1:
  "compute ex_nf_lib (ex_nf_cur None None) 1 None =
     Some ((of_rows [[2], [0]], of_rows [[1 / 2, 0]], ex_A),
           ex_nf_cur (Some [0]) (Some [0, 1]))"
  by (simp add: compute_def refresh_idx_def compute_idx_def call_select_def ex_nf_cur_def
      ex_nf_select[simplified] ex_take_cols_A0 ex_range_A[simplified] ex_nf_pinv ex_nf_mm)

lemma ex_nf_compute_2:
  "compute ex_nf_lib (ex_nf_cur (Some [0]) (Some [0, 1])) 2 None =
     Some ((of_rows [[0, 2], [1, 0]], of_rows [[0, 1], [1 / 2, 0]], ex_A),
           ex_nf_cur (Some [1, 0]) (Some [0, 1]))"
  by (simp add: compute_def refresh_idx_def compute_idx_def call_select_def ex_nf_cur_def
      ex_nf_select[simplified] ex_nf_take[simplified] ex_range_A[simplified] ex_nf_pinv
      ex_nf_mm)

section \<open>The leading direction and the library routines\<close>

text \<open>
  \<^verbatim>\<open>pi[idxs] = 0\<close> entry by entry, and \<^verbatim>\<open>argmax\<close> on a list with a single greatest entry.
\<close>

lemma zero_at_nth:
  assumes "zero_at xs li = Some ys"
  shows "length ys = length xs \<and>
         (\<forall>i<length xs. ys ! i = (if i \<in> set li then Fin 0 else xs ! i))"
proof -
  have "length (fold (\<lambda>i p. p[i := Fin 0]) li zs) = length zs \<and>
        (\<forall>i<length zs. fold (\<lambda>i p. p[i := Fin 0]) li zs ! i = (if i \<in> set li then Fin 0 else zs ! i))"
    for zs :: "fl list"
  proof (induction li arbitrary: zs)
    case Nil
    show ?case by simp
  next
    case (Cons a li)
    show ?case
      using Cons.IH[of "zs[a := Fin 0]"] by (auto simp: nth_list_update)
  qed
  with assms show ?thesis
    by (auto simp: zero_at_def split: if_splits)
qed

lemma argmax_from_keeps:
  "(\<And>x. x \<in> set xs \<Longrightarrow> \<exists>r. x = Fin r \<and> r \<le> b) \<Longrightarrow> argmax_from xs k best (Fin b) = best"
proof (induction xs arbitrary: k)
  case Nil
  show ?case by simp
next
  case (Cons x xs)
  from Cons.prems[of x] obtain r where "x = Fin r" "r \<le> b" by auto
  then show ?case using Cons by simp
qed

lemma argmax_from_leader:
  assumes "p < length xs" and "xs ! p = Fin v" and "b < v"
    and "\<And>i. i < length xs \<Longrightarrow> i \<noteq> p \<Longrightarrow> \<exists>r. xs ! i = Fin r \<and> r < v"
  shows "argmax_from xs k best (Fin b) = k + p"
  using assms
proof (induction xs arbitrary: k best b p)
  case Nil
  then show ?case by simp
next
  case (Cons x xs)
  show ?case
  proof (cases p)
    case 0
    with Cons.prems have x: "x = Fin v" by simp
    have "argmax_from xs (Suc k) k (Fin v) = k"
    proof (rule argmax_from_keeps)
      fix y assume "y \<in> set xs"
      then obtain i where "i < length xs" "xs ! i = y" by (auto simp: in_set_conv_nth)
      with Cons.prems(4)[of "Suc i"] 0 show "\<exists>r. y = Fin r \<and> r \<le> v" by auto
    qed
    with x Cons.prems(3) 0 show ?thesis by simp
  next
    case (Suc q)
    from Cons.prems(4)[of 0] Suc obtain r where x: "x = Fin r" and r: "r < v" by auto
    have q: "q < length xs" "xs ! q = Fin v"
      using Cons.prems(1,2) Suc by simp_all
    have others: "\<exists>r. xs ! i = Fin r \<and> r < v" if "i < length xs" "i \<noteq> q" for i
      using Cons.prems(4)[of "Suc i"] that Suc by simp
    show ?thesis
    proof (cases "b < r")
      case True
      from Cons.IH[OF q r others, of "Suc k" k] True x Suc show ?thesis by simp
    next
      case False
      from Cons.IH[OF q Cons.prems(3) others, of "Suc k" best] False x Suc show ?thesis by simp
    qed
  qed
qed

lemma argmax_leader:
  assumes p: "p < length xs" and v: "xs ! p = Fin v"
    and o: "\<And>i. i < length xs \<Longrightarrow> i \<noteq> p \<Longrightarrow> \<exists>r. xs ! i = Fin r \<and> r < v"
  shows "argmax xs = Some p"
proof (cases xs)
  case Nil
  with p show ?thesis by simp
next
  case (Cons x ys)
  show ?thesis
  proof (cases p)
    case 0
    with v Cons have x: "x = Fin v" by simp
    have "argmax_from ys 1 0 (Fin v) = 0"
    proof (rule argmax_from_keeps)
      fix y assume "y \<in> set ys"
      then obtain i where "i < length ys" "ys ! i = y" by (auto simp: in_set_conv_nth)
      with o[of "Suc i"] 0 Cons show "\<exists>r. y = Fin r \<and> r \<le> v" by auto
    qed
    with x Cons 0 show ?thesis by simp
  next
    case (Suc q)
    from o[of 0] Suc Cons obtain r where x: "x = Fin r" and r: "r < v" by auto
    have q: "q < length ys" "ys ! q = Fin v"
      using p v Suc Cons by simp_all
    have others: "\<exists>r. ys ! i = Fin r \<and> r < v" if "i < length ys" "i \<noteq> q" for i
      using o[of "Suc i"] that Suc Cons by simp
    from argmax_from_leader[OF q r others, of 1 0] x Cons Suc show ?thesis by simp
  qed
qed

text \<open>
  A score list whose unselected entries are led by column \<open>j\<close>: after the selected entries
  are set to zero, \<^verbatim>\<open>argmax\<close> returns \<open>j\<close>.
\<close>

lemma pick_leader:
  assumes z: "zero_at (map (\<lambda>i. Fin (g i)) [0..<n]) li = Some ys"
    and j: "j < n" "j \<notin> set li" "0 < g j"
    and o: "\<And>i. i < n \<Longrightarrow> i \<noteq> j \<Longrightarrow> i \<notin> set li \<Longrightarrow> g i < g j"
  shows "argmax ys = Some j"
proof (rule argmax_leader)
  from zero_at_nth[OF z] have len: "length ys = n"
    and nth: "\<And>i. i < n \<Longrightarrow> ys ! i = (if i \<in> set li then Fin 0 else Fin (g i))"
    by simp_all
  show "j < length ys" using len j by simp
  show "ys ! j = Fin (g j)" using nth j by simp
  show "\<exists>r. ys ! i = Fin r \<and> r < g j" if "i < length ys" "i \<noteq> j" for i
    using that nth[of i] len j(3) o[of i] by auto
qed

lemma fsum_single: "fsum [Fin a] = Fin a"
  by (simp add: fsum_def)

lemma pcovr_scores:
  assumes U: "fin_mat U" and c: "0 < ncols U"
  shows "sum_axis1 (np_square (col_slice 1 U)) =
           map (\<lambda>i. Fin (rentry U i 0 * rentry U i 0)) [0..<nrows U]"
proof -
  have "fsum (map (\<lambda>x. fmul x x) (take 1 (rows U ! i))) = Fin (rentry U i 0 * rentry U i 0)"
    if "i < nrows U" for i
  proof -
    have "rows U ! i = map (entry U i) [0..<ncols U]"
      using U that by (simp add: fin_mat_def wf_mat_row)
    moreover from c obtain n where "ncols U = Suc n" by (cases "ncols U") auto
    ultimately have "take 1 (rows U ! i) = [entry U i 0]"
      by (simp add: upt_rec)
    then show ?thesis
      using c that by (simp add: fin_entry[OF U] fsum_single)
  qed
  then show ?thesis
    by (auto simp: sum_axis1_def np_square_def col_slice_def nrows_def intro!: nth_equalityI)
qed

lemma svd_scores:
  assumes D: "fin_mat D" and r: "0 < nrows D"
  shows "sum_axis0 (np_square (row_slice 1 D)) =
           map (\<lambda>j. Fin (rentry D 0 j * rentry D 0 j)) [0..<ncols D]"
proof -
  from r obtain d ds where rows: "rows D = d # ds"
    by (cases "rows D") (auto simp: nrows_def)
  have d: "d = map (entry D 0) [0..<ncols D]"
    using wf_mat_row[of D 0] D r rows by (simp add: fin_mat_def)
  have "fsum (column (np_square (row_slice 1 D)) j) = Fin (rentry D 0 j * rentry D 0 j)"
    if "j < ncols D" for j
  proof -
    have "column (np_square (row_slice 1 D)) j = [fmul (entry D 0 j) (entry D 0 j)]"
    proof -
      have len: "length d = ncols D" using d by simp
      show ?thesis
        using that len by (simp add: column_def np_square_def row_slice_def rows nrows_def entry_def)
    qed
    then show ?thesis
      using that r by (simp add: fin_entry[OF D] fsum_single)
  qed
  then show ?thesis
    by (simp add: sum_axis0_def np_square_def row_slice_def)
qed



lemma picks_agree:
  assumes ec: "eig_contract eps se" and sc: "svd_contract eps svd"
    and cov: "matmul (mat_T X) X = Some C" and nf: "nan_free C" and cl: "clear_leader eps C li"
    and p: "pcovr_pick se 1 C li = Some j" and s: "svd_pick svd 1 X li = Some j'"
  shows "j' = j"
proof -
  from matmul_SomeD[OF cov] have C: "C = mk (ncols X) (ncols X) (\<lambda>i j. dot (rows (mat_T X) ! i) (column X j))"
    by (simp add: mat_T_def nrows_mk)
  then have wf: "wf_mat C" and nr: "nrows C = ncols X"
    by (simp_all add: wf_mat_mk nrows_mk)
  from wf nf have fin: "fin_mat C" by (simp add: fin_mat_def)
  from p obtain w U ys where e: "se C None (Some 1) = Some (w, U)"
    and pz: "zero_at (sum_axis1 (np_square (col_slice 1 U))) li = Some ys"
    and pj: "argmax ys = Some j"
    by (auto simp: pcovr_pick_def split: bind_splits)
  from s obtain S v D zs where d: "svd X 1 = Some (S, v, D)"
    and sz: "zero_at (sum_axis0 (np_square (row_slice 1 D))) li = Some zs"
    and sj: "argmax zs = Some j'"
    by (auto simp: svd_pick_def split: bind_splits)
  from ec fin e obtain lam u where U: "fin_mat U" "nrows U = nrows C" "0 < ncols U"
    and lu: "leading_pair C lam u"
    and nu: "\<And>i. i < nrows C \<Longrightarrow> \<bar>rentry U i 0 * rentry U i 0 - u i * u i\<bar> \<le> eps"
    unfolding eig_contract_def by blast
  from sc fin d cov obtain mu t where D: "fin_mat D" "0 < nrows D" "ncols D = ncols X"
    and lt: "leading_pair C mu t"
    and nt: "\<And>i. i < ncols X \<Longrightarrow> \<bar>rentry D 0 i * rentry D 0 i - t i * t i\<bar> \<le> eps"
    unfolding svd_contract_def by blast
  from cl obtain m where m: "m < nrows C" "m \<notin> set li"
    and lead: "\<And>lam u. leading_pair C lam u \<Longrightarrow>
                 eps < u m * u m
                 \<and> (\<forall>i<nrows C. i \<noteq> m \<and> i \<notin> set li \<longrightarrow> u i * u i + 2 * eps < u m * u m)"
    unfolding clear_leader_def by blast
  have "argmax ys = Some m"
  proof (rule pick_leader)
    show "zero_at (map (\<lambda>i. Fin (rentry U i 0 * rentry U i 0)) [0..<nrows C]) li = Some ys"
      using pz unfolding pcovr_scores[OF U(1,3)] U(2) .
    show "m < nrows C" "m \<notin> set li" by fact+
    show "0 < rentry U m 0 * rentry U m 0"
      using lead[OF lu] nu[OF m(1)] by linarith
    show "rentry U i 0 * rentry U i 0 < rentry U m 0 * rentry U m 0"
      if "i < nrows C" "i \<noteq> m" "i \<notin> set li" for i
    proof -
      from lead[OF lu] that have "u i * u i + 2 * eps < u m * u m" by blast
      with nu[OF m(1)] nu[OF that(1)] show ?thesis by linarith
    qed
  qed
  moreover have "argmax zs = Some m"
  proof (rule pick_leader)
    show "zero_at (map (\<lambda>i. Fin (rentry D 0 i * rentry D 0 i)) [0..<nrows C]) li = Some zs"
      using sz unfolding svd_scores[OF D(1,2)] D(3) nr[symmetric] .
    show "m < nrows C" "m \<notin> set li" by fact+
    have mX: "m < ncols X" using m(1) nr by simp
    show "0 < rentry D 0 m * rentry D 0 m"
      using lead[OF lt] nt[OF mX] by linarith
    show "rentry D 0 i * rentry D 0 i < rentry D 0 m * rentry D 0 m"
      if "i < nrows C" "i \<noteq> m" "i \<notin> set li" for i
    proof -
      from that(1) nr have iX: "i < ncols X" by simp
      from lead[OF lt] that have "t i * t i + 2 * eps < t m * t m" by blast
      with nt[OF mX] nt[OF iX] show ?thesis by linarith
    qed
  qed
  ultimately show ?thesis using pj sj by simp
qed

lemma rounds_agree:
  assumes ec: "eig_contract eps se" and sc: "svd_contract eps svd"
  shows "pcovr_rounds se pinv (Fin 1) 1 nn m (M, Yc, l) = Some r \<Longrightarrow>
         svd_rounds svd 1 nn m (M, l) = Some (M', l') \<Longrightarrow>
         (\<And>i X Y1 li C. i < m \<Longrightarrow>
             pcovr_rounds se pinv (Fin 1) 1 nn i (M, Yc, l) = Some (Next (X, Y1, li)) \<Longrightarrow>
             get_Ct se X Y1 (Fin 1) default_regularization = Some C \<Longrightarrow>
             nan_free C \<and> clear_leader eps C li) \<Longrightarrow>
         (case r of Next (M2, Y2, l2) \<Rightarrow> M2 = M' \<and> l2 = l'
                  | Return l0 \<Rightarrow> l0 = take (length l0) l')"
proof (induction m arbitrary: nn M Yc l)
  case 0
  then show ?case by auto
next
  case (Suc m)
  from Suc.prems(1) obtain r1 where
    r1: "pcovr_round se pinv (Fin 1) 1 nn (M, Yc, l) = Some r1"
    by (auto split: bind_splits)
  from Suc.prems(2) obtain Ms ls where
    s1: "svd_round svd 1 nn (M, l) = Some (Ms, ls)" and
    ss: "svd_rounds svd 1 (Suc nn) m (Ms, ls) = Some (M', l')"
    by (auto split: bind_splits)
  show ?case
  proof (cases r1)
    case (Return l0)
    with r1 Suc.prems(1) have r: "r = Return l0" by simp
    from pcovr_round_Return[OF r1[unfolded Return]] have "l0 = l" by simp
    moreover from svd_rounds_prefix[OF Suc.prems(2)] obtain sfx where "l' = l @ sfx" by blast
    ultimately show ?thesis using r by simp
  next
    case (Next st1)
    obtain M1 Y1 l1 where st1: "st1 = (M1, Y1, l1)" by (cases st1) auto
    from r1 Next st1 have rn: "pcovr_round se pinv (Fin 1) 1 nn (M, Yc, l) = Some (Next (M1, Y1, l1))"
      by simp
    from rn Suc.prems(1) have rs: "pcovr_rounds se pinv (Fin 1) 1 (Suc nn) m (M1, Y1, l1) = Some r"
      by simp
    from pcovr_round_Next[OF rn] have
      n: "nn < length l1" and d: "deflate M (l1 ! nn) = Some M1" and
      c: "if nn < length l then l1 = l
          else nn = length l \<and>
               (\<exists>Ct j. get_Ct se M Yc (Fin 1) default_regularization = Some Ct \<and>
                       pcovr_pick se 1 Ct l = Some j \<and> l1 = l @ [j])"
      by auto
    from svd_round_result[OF s1] have
      ds: "deflate M (ls ! nn) = Some Ms" and
      cs: "if nn < length l then ls = l
           else nn = length l \<and> (\<exists>i. svd_pick svd 1 M l = Some i \<and> ls = l @ [i])"
      by auto
    have eq: "ls = l1"
    proof (cases "nn < length l")
      case True
      with c cs show ?thesis by simp
    next
      case False
      with c obtain Ct j where
        g: "get_Ct se M Yc (Fin 1) default_regularization = Some Ct" and
        p: "pcovr_pick se 1 Ct l = Some j" and l1: "l1 = l @ [j]"
        by auto
      from False cs obtain i where s: "svd_pick svd 1 M l = Some i" and ls: "ls = l @ [i]"
        by auto
      from Suc.prems(3)[of 0 M Yc l Ct] g have nf: "nan_free Ct" and cl: "clear_leader eps Ct l"
        by simp_all
      from get_Ct_SomeD[OF g] nf have cov: "matmul (mat_T M) M = Some Ct" by auto
      from picks_agree[OF ec sc cov nf cl p s] l1 ls show ?thesis by simp
    qed
    with d ds have Meq: "Ms = M1" by simp
    have "case r of Next (M2, Y2, l2) \<Rightarrow> M2 = M' \<and> l2 = l'
                  | Return l0 \<Rightarrow> l0 = take (length l0) l'"
    proof (rule Suc.IH[OF rs])
      show "svd_rounds svd 1 (Suc nn) m (M1, l1) = Some (M', l')"
        using ss eq Meq by simp
      fix i X Y2 li C
      assume "i < m"
        and "pcovr_rounds se pinv (Fin 1) 1 (Suc nn) i (M1, Y1, l1) = Some (Next (X, Y2, li))"
        and "get_Ct se X Y2 (Fin 1) default_regularization = Some C"
      then show "nan_free C \<and> clear_leader eps C li"
        using Suc.prems(3)[of "Suc i" X Y2 li C] rn by simp
    qed
    then show ?thesis .
  qed
qed

text \<open>
  Diagonal 2 x 2 covariances: their leading pairs, and the eigen-solver and \<^verbatim>\<open>svds\<close> of
  the worked example, which return the exact leading directions.
\<close>

lemma eigvec_diag2:
  "eigvec (of_rows [[a, 0], [0, b]]) lam u \<longleftrightarrow> a * u 0 = lam * u 0 \<and> b * u 1 = lam * u 1"
  by (auto simp: eigvec_def rentry_def of_rows_def nrows_def entry_def numeral_2_eq_2
      lessThan_Suc less_Suc_eq)

lemma norm_diag2:
  "(\<Sum>i<nrows (of_rows [[a, 0], [0, b]]). u i * u i) = u 0 * u 0 + u 1 * (u 1 :: real)"
  by (simp add: of_rows_def nrows_def numeral_2_eq_2 lessThan_Suc)

lemma nonzero_diag2:
  "(\<exists>i<nrows (of_rows [[a, 0], [0, b]]). w i \<noteq> (0 :: real)) \<longleftrightarrow> w 0 \<noteq> 0 \<or> w 1 \<noteq> 0"
  by (auto simp: of_rows_def nrows_def numeral_2_eq_2 less_Suc_eq)

lemma leading_diag2:
  "leading_pair (of_rows [[a, 0], [0, b]]) lam u \<longleftrightarrow>
     a * u 0 = lam * u 0 \<and> b * u 1 = lam * u 1 \<and> u 0 * u 0 + u 1 * u 1 = 1 \<and> a \<le> lam \<and> b \<le> lam"
proof
  assume L: "leading_pair (of_rows [[a, 0], [0, b]]) lam u"
  have A: "(a * u 0 = lam * u 0 \<and> b * u 1 = lam * u 1) \<and> u 0 * u 0 + u 1 * u 1 = 1 \<and>
           (\<forall>mu (w :: nat \<Rightarrow> real). (a * w 0 = mu * w 0 \<and> b * w 1 = mu * w 1) \<and> (w 0 \<noteq> 0 \<or> w 1 \<noteq> 0) \<longrightarrow> mu \<le> lam)"
    using L unfolding leading_pair_def eigvec_diag2 norm_diag2 nonzero_diag2 .
  from A have e: "a * u 0 = lam * u 0 \<and> b * u 1 = lam * u 1" by (rule conjunct1)
  from A have n: "u 0 * u 0 + u 1 * u 1 = 1" by (elim conjE)
  from A have T: "\<forall>mu (w :: nat \<Rightarrow> real). (a * w 0 = mu * w 0 \<and> b * w 1 = mu * w 1) \<and> (w 0 \<noteq> 0 \<or> w 1 \<noteq> 0) \<longrightarrow> mu \<le> lam"
    by (elim conjE)
  have t: "mu \<le> lam" if "a * w 0 = mu * w 0 \<and> b * w 1 = mu * w 1" and "w 0 \<noteq> 0 \<or> w 1 \<noteq> 0"
    for mu and w :: "nat \<Rightarrow> real"
    using T that by blast
  have "a \<le> lam" using t[of "\<lambda>i. if i = 0 then 1 else 0" a] by simp
  moreover have "b \<le> lam" using t[of "\<lambda>i. if i = 0 then 0 else 1" b] by simp
  ultimately show "a * u 0 = lam * u 0 \<and> b * u 1 = lam * u 1 \<and> u 0 * u 0 + u 1 * u 1 = 1
                   \<and> a \<le> lam \<and> b \<le> lam"
    using e n by simp
next
  assume R: "a * u 0 = lam * u 0 \<and> b * u 1 = lam * u 1 \<and> u 0 * u 0 + u 1 * u 1 = 1
             \<and> a \<le> lam \<and> b \<le> lam"
  have "mu \<le> lam" if "a * w 0 = mu * w 0 \<and> b * w 1 = mu * w 1" and "w 0 \<noteq> 0 \<or> w 1 \<noteq> 0"
    for mu and w :: "nat \<Rightarrow> real"
  proof -
    from that have "mu = a \<or> mu = b" by auto
    with R show ?thesis by auto
  qed
  with R show "leading_pair (of_rows [[a, 0], [0, b]]) lam u"
    unfolding leading_pair_def eigvec_diag2 norm_diag2 nonzero_diag2 by blast
qed

lemma leading_diag2_fst:
  assumes "leading_pair (of_rows [[a, 0], [0, b]]) lam u" and "b < a"
  shows "u 0 * u 0 = 1 \<and> u 1 = 0"
proof -
  from assms(1) have u: "b * u 1 = lam * u 1" "u 0 * u 0 + u 1 * u 1 = 1" "a \<le> lam"
    unfolding leading_diag2 by simp_all
  from u(1,3) assms(2) have "u 1 = 0" by auto
  with u(2) show ?thesis by simp
qed

lemma leading_diag2_snd:
  assumes "leading_pair (of_rows [[a, 0], [0, b]]) lam u" and "a < b"
  shows "u 1 * u 1 = 1 \<and> u 0 = 0"
proof -
  from assms(1) have u: "a * u 0 = lam * u 0" "u 0 * u 0 + u 1 * u 1 = 1" "b \<le> lam"
    unfolding leading_diag2 by simp_all
  from u(1,3) assms(2) have "u 0 = 0" by auto
  with u(2) show ?thesis by simp
qed

lemma nrows_diag2: "nrows (of_rows [[a, 0], [0, b]]) = 2"
  by (simp add: of_rows_def nrows_def)

lemma clear_leader_diag2_fst:
  assumes "b < a" and "2 * eps < 1" and "eps < 1" and "0 \<notin> set li"
  shows "clear_leader eps (of_rows [[a, 0], [0, b]]) li"
  unfolding clear_leader_def nrows_diag2
proof (intro exI[of _ 0] conjI allI impI)
  show "(0 :: nat) < 2" by simp
  show "0 \<notin> set li" by fact
  fix lam and u :: "nat \<Rightarrow> real"
  assume L: "leading_pair (of_rows [[a, 0], [0, b]]) lam u"
  from leading_diag2_fst[OF L assms(1)] assms(3) show "eps < u 0 * u 0" by simp
  fix i :: nat
  assume "i < 2" and "i \<noteq> 0 \<and> i \<notin> set li"
  then have "i = 1" by auto
  with leading_diag2_fst[OF L assms(1)] assms(2) show "u i * u i + 2 * eps < u 0 * u 0" by simp
qed

lemma clear_leader_diag2_snd:
  assumes "a < b" and "2 * eps < 1" and "eps < 1" and "1 \<notin> set li"
  shows "clear_leader eps (of_rows [[a, 0], [0, b]]) li"
  unfolding clear_leader_def nrows_diag2
proof (intro exI[of _ 1] conjI allI impI)
  show "(1 :: nat) < 2" by simp
  show "1 \<notin> set li" by fact
  fix lam and u :: "nat \<Rightarrow> real"
  assume L: "leading_pair (of_rows [[a, 0], [0, b]]) lam u"
  from leading_diag2_snd[OF L assms(1)] assms(3) show "eps < u 1 * u 1" by simp
  fix i :: nat
  assume "i < 2" and "i \<noteq> 1 \<and> i \<notin> set li"
  then have "i = 0" by auto
  with leading_diag2_snd[OF L assms(1)] assms(2) show "u i * u i + 2 * eps < u 1 * u 1" by simp
qed

lemma no_clear_leader_ex_I:
  assumes "0 \<le> eps"
  shows "\<not> clear_leader eps ex_I li"
proof
  assume "clear_leader eps ex_I li"
  then obtain j where j: "j < 2"
    and lead: "\<And>lam u. leading_pair ex_I lam u \<Longrightarrow> eps < u j * u j"
    unfolding clear_leader_def ex_I_def nrows_diag2 by blast
  have "leading_pair ex_I 1 (\<lambda>i. if i = j then 0 else 1 :: real)"
    using j unfolding ex_I_def leading_diag2 by (auto simp: less_Suc_eq numeral_2_eq_2)
  from lead[OF this] assms show False by simp
qed

lemma leading_col_e0:
  "b \<le> a \<Longrightarrow> leading_pair (of_rows [[a, 0], [0, b]]) a (\<lambda>i. rentry (of_rows [[1], [0]]) i 0)"
  unfolding leading_diag2 by (simp add: rentry_def entry_def of_rows_def)

lemma leading_col_e1:
  "a \<le> b \<Longrightarrow> leading_pair (of_rows [[a, 0], [0, b]]) b (\<lambda>i. rentry (of_rows [[0], [1]]) i 0)"
  unfolding leading_diag2 by (simp add: rentry_def entry_def of_rows_def)

lemma leading_row_e0:
  "b \<le> a \<Longrightarrow> leading_pair (of_rows [[a, 0], [0, b]]) a (\<lambda>j. rentry (of_rows [[1, 0]]) 0 j)"
  unfolding leading_diag2 by (simp add: rentry_def entry_def of_rows_def)

lemma leading_row_e1:
  "a \<le> b \<Longrightarrow> leading_pair (of_rows [[a, 0], [0, b]]) b (\<lambda>j. rentry (of_rows [[0, 1]]) 0 j)"
  unfolding leading_diag2 by (simp add: rentry_def entry_def of_rows_def)

lemma unit_col_shape:
  "fin_mat (of_rows [[x], [y]])" "nrows (of_rows [[x], [y]]) = nrows (of_rows [[a, 0], [0, b]])"
  "0 < ncols (of_rows [[x], [y]])"
  by (simp_all add: fin_mat_def wf_mat_def nan_free_def of_rows_def nrows_def)

lemma unit_row_shape:
  "fin_mat (of_rows [[x, y]])" "0 < nrows (of_rows [[x, y]])"
  "ncols (of_rows [[x, y]]) = ncols (of_rows [[a, c], [d, b]])"
  by (simp_all add: fin_mat_def wf_mat_def nan_free_def of_rows_def nrows_def)

lemma exact_near:
  assumes "leading_pair C lam g" and "0 \<le> eps"
  shows "\<exists>lam u. leading_pair C lam u \<and> (\<forall>i<n. \<bar>g i * g i - u i * u i\<bar> \<le> eps)"
  using assms by (intro exI[of _ lam] exI[of _ g]) simp

lemma ex_eig_leading_cases:
  assumes "ex_eig C None (Some 1) = Some (w, U)"
  shows "(\<exists>a b. b \<le> a \<and> C = of_rows [[a, 0], [0, b]] \<and> U = of_rows [[1], [0]])
       \<or> (\<exists>a b. a \<le> b \<and> C = of_rows [[a, 0], [0, b]] \<and> U = of_rows [[0], [1]])"
proof -
  from assms have
    "(C = of_rows [[4, 0], [0, 1]] \<and> U = of_rows [[1], [0]])
     \<or> (C = of_rows [[0, 0], [0, 1]] \<and> U = of_rows [[0], [1]])
     \<or> (C = of_rows [[5 / 2, 0], [0, 1 / 2]] \<and> U = of_rows [[1], [0]])
     \<or> (C = of_rows [[0, 0], [0, 1 / 2]] \<and> U = of_rows [[0], [1]])"
    by (simp add: ex_eig_def eig_table_def split: if_splits)
  then show ?thesis
  proof (elim disjE conjE)
    assume "C = of_rows [[4, 0], [0, 1]]" "U = of_rows [[1], [0]]"
    then have "(1 :: real) \<le> 4 \<and> C = of_rows [[4, 0], [0, 1]] \<and> U = of_rows [[1], [0]]" by simp
    then show ?thesis by blast
  next
    assume "C = of_rows [[0, 0], [0, 1]]" "U = of_rows [[0], [1]]"
    then have "(0 :: real) \<le> 1 \<and> C = of_rows [[0, 0], [0, 1]] \<and> U = of_rows [[0], [1]]" by simp
    then show ?thesis by blast
  next
    assume "C = of_rows [[5 / 2, 0], [0, 1 / 2]]" "U = of_rows [[1], [0]]"
    then have "(1 / 2 :: real) \<le> 5 / 2 \<and> C = of_rows [[5 / 2, 0], [0, 1 / 2]] \<and> U = of_rows [[1], [0]]"
      by simp
    then show ?thesis by blast
  next
    assume "C = of_rows [[0, 0], [0, 1 / 2]]" "U = of_rows [[0], [1]]"
    then have "(0 :: real) \<le> 1 / 2 \<and> C = of_rows [[0, 0], [0, 1 / 2]] \<and> U = of_rows [[0], [1]]"
      by simp
    then show ?thesis by blast
  qed
qed

lemma ex_eig_contract:
  assumes "0 \<le> eps"
  shows "eig_contract eps ex_eig"
  unfolding eig_contract_def
proof (intro allI impI, elim conjE)
  fix C w U
  assume "ex_eig C None (Some 1) = Some (w, U)"
  from ex_eig_leading_cases[OF this]
  show "fin_mat U \<and> nrows U = nrows C \<and> 0 < ncols U
        \<and> (\<exists>lam u. leading_pair C lam u
              \<and> (\<forall>i<nrows C. \<bar>rentry U i 0 * rentry U i 0 - u i * u i\<bar> \<le> eps))"
  proof (elim disjE exE conjE)
    fix a b :: real
    assume "b \<le> a" "C = of_rows [[a, 0], [0, b]]" "U = of_rows [[1], [0]]"
    then show ?thesis
      using exact_near[OF leading_col_e0[of b a] assms] by (simp add: unit_col_shape)
  next
    fix a b :: real
    assume "a \<le> b" "C = of_rows [[a, 0], [0, b]]" "U = of_rows [[0], [1]]"
    then show ?thesis
      using exact_near[OF leading_col_e1[of a b] assms] by (simp add: unit_col_shape)
  qed
qed

lemma ex_svd_leading_cases:
  assumes "ex_svd None X 1 = Some (S, v, D)"
  shows "(X = ex_A \<and> D = of_rows [[1, 0]]) \<or> (X = ex_A1 \<and> D = of_rows [[0, 1]])"
  using assms by (simp add: ex_svd_def svd_table_def ex_A_def ex_A1_def split: if_splits)

lemma ex_svd_contract:
  assumes "0 \<le> eps"
  shows "svd_contract eps (ex_svd None)"
  unfolding svd_contract_def
proof (intro allI impI, elim conjE)
  fix X S v D cov
  assume s: "ex_svd None X 1 = Some (S, v, D)" and c: "matmul (mat_T X) X = Some cov"
  from ex_svd_leading_cases[OF s]
  show "fin_mat D \<and> 0 < nrows D \<and> ncols D = ncols X
        \<and> (\<exists>lam u. leading_pair cov lam u
              \<and> (\<forall>j<ncols X. \<bar>rentry D 0 j * rentry D 0 j - u j * u j\<bar> \<le> eps))"
  proof (elim disjE conjE)
    assume "X = ex_A" "D = of_rows [[1, 0]]"
    with c ex_cov_0 show ?thesis
      using exact_near[OF leading_row_e0[of 1 4] assms] by (simp add: unit_row_shape ex_A_def)
  next
    assume "X = ex_A1" "D = of_rows [[0, 1]]"
    with c ex_cov_1 show ?thesis
      using exact_near[OF leading_row_e1[of 0 1] assms] by (simp add: unit_row_shape ex_A1_def)
  qed
qed

text \<open>The identity matrix: one round of each selection function.\<close>

lemma ex_I_get_Ct:
  "get_Ct ex_I_eig ex_I ex_Y (Fin 1) default_regularization = Some (of_rows [[1, 0], [0, 1]])"
  by (simp add: get_Ct_def ex_I_eig_def eig_table_def default_regularization_def mask_cols_def
      mask_vec_def ex_I_def ex_Y_def arr_ev)

lemma ex_I_pcovr_pick: "pcovr_pick ex_I_eig 1 (of_rows [[1, 0], [0, 1]]) [] = Some 0"
  by (simp add: pcovr_pick_def ex_I_eig_def eig_table_def default_regularization_def zero_at_def
      sum_axis1_def np_square_def col_slice_def arr_ev)

lemma ex_I_deflate_0: "deflate ex_I 0 = Some ex_A1"
  by (simp add: deflate_def ex_I_def ex_A1_def arr_ev)

lemma ex_I_deflate_1: "deflate ex_I 1 = Some (of_rows [[1, 0], [0, 0]])"
  by (simp add: deflate_def ex_I_def arr_ev)

lemma ex_I_pcovr_round:
  "pcovr_round ex_I_eig ex_pinv (Fin 1) 1 0 (ex_I, ex_Y, []) = Some (Next (ex_A1, ex_Y, [0]))"
  by (simp add: pcovr_round_def ex_I_get_Ct ex_I_pcovr_pick[simplified] py_nth_def ex_I_deflate_0
      ex_take_cols_0 ex_update_0)

lemma ex_I_pcovr_select:
  "pcovr_select ex_I_eig ex_pinv ex_I 1 ex_Y (Fin 1) 1 None = Some [0]"
  by (simp add: pcovr_select_def ex_I_pcovr_round[simplified])

lemma ex_I_svd_pick: "svd_pick ex_I_svd 1 ex_I [] = Some 1"
  by (simp add: svd_pick_def ex_I_svd_def svd_table_def ex_I_def zero_at_def sum_axis0_def
      np_square_def row_slice_def arr_ev)

lemma ex_I_svd_round:
  "svd_round ex_I_svd 1 0 (ex_I, []) = Some (of_rows [[1, 0], [0, 0]], [1])"
  by (simp add: svd_round_def ex_I_svd_pick[simplified] py_nth_def ex_I_deflate_1[simplified])

lemma ex_I_svd_select: "svd_select ex_I_svd ex_I 1 1 None = Some [1]"
  by (simp add: svd_select_def ex_I_svd_round[simplified])

lemma ex_I_eig_contract: "eig_contract 0 ex_I_eig"
  unfolding eig_contract_def
proof (intro allI impI, elim conjE)
  fix C w U
  assume "ex_I_eig C None (Some 1) = Some (w, U)"
  then have "C = of_rows [[1, 0], [0, 1]] \<and> U = of_rows [[1], [0]]"
    by (simp add: ex_I_eig_def eig_table_def split: if_splits)
  then show "fin_mat U \<and> nrows U = nrows C \<and> 0 < ncols U
        \<and> (\<exists>lam u. leading_pair C lam u
              \<and> (\<forall>i<nrows C. \<bar>rentry U i 0 * rentry U i 0 - u i * u i\<bar> \<le> 0))"
    using exact_near[OF leading_col_e0[of 1 1], of 0] by (simp add: unit_col_shape)
qed

lemma ex_I_cov: "matmul (mat_T ex_I) ex_I = Some (of_rows [[1, 0], [0, 1]])"
  by (simp add: ex_I_def arr_ev)

lemma ex_I_svd_contract: "svd_contract 0 ex_I_svd"
  unfolding svd_contract_def
proof (intro allI impI, elim conjE)
  fix X S v D cov
  assume s: "ex_I_svd X 1 = Some (S, v, D)" and c: "matmul (mat_T X) X = Some cov"
  from s have "X = ex_I \<and> D = of_rows [[0, 1]]"
    by (simp add: ex_I_svd_def svd_table_def ex_I_def split: if_splits)
  with c ex_I_cov
  show "fin_mat D \<and> 0 < nrows D \<and> ncols D = ncols X
        \<and> (\<exists>lam u. leading_pair cov lam u
              \<and> (\<forall>j<ncols X. \<bar>rentry D 0 j * rentry D 0 j - u j * u j\<bar> \<le> 0))"
    using exact_near[OF leading_row_e1[of 1 1], of 0] by (simp add: unit_row_shape ex_I_def)
qed

section \<open>The claims\<close>

text \<open>
  C1 (the flag is not the tolerance test). The matrix \<open>[[0, 1], [0, 0]]\<close> is square, the
  entry of \<open>|A - A\<^sup>T|\<close> in row 0 and column 1 is 1, far above the tolerance \<open>1e-4\<close>, and
  the constructor still sets the symmetry flag: the test compares the truth value of
  \<^verbatim>\<open>np.all\<close> (0 here, since the diagonal of the difference is zero) with the tolerance.
\<close>

theorem symmetric_flag_ignores_tolerance:
  "nrows (of_rows [[0, 1], [0, 0]]) = ncols (of_rows [[0, 1], [0, 0]])
   \<and> map_option (\<lambda>D. entry (np_abs D) 0 1)
        (np_sub (of_rows [[0, 1], [0, 0]]) (mat_T (of_rows [[0, 1], [0, 0]]))) = Some (Fin 1)
   \<and> \<not> fless (Fin 1) (Fin (1 / 10000))
   \<and> symmetric_flag (of_rows [[0, 1], [0, 0]]) (Fin (1 / 10000))"
  by (simp add: symmetric_flag_def of_rows_def np_sub_def shape_def nrows_def mat_T_def
      mk_def entry_def np_abs_def np_all_def truthy_def of_py_bool_def upt_rec)


text \<open>
  C2 (resuming a selection). A call of \<^verbatim>\<open>svd_select\<close> for \<open>n + m\<close> indices that resumes
  from the list returned by a call for \<open>n\<close> returns what a single call for \<open>n + m\<close>
  returns. For \<^verbatim>\<open>pcovr_select\<close> the list of the first call is the beginning of the list
  returned by the resumed call and of the list returned by the single call. A call of
  \<^verbatim>\<open>compute\<close> on an instance that selects by name leaves every cached list extended at
  its end, never replaced.
\<close>

theorem selection_resumable:
  "(svd_select svd A n k idxs = Some l1 \<longrightarrow>
      svd_select svd A (n + m) k (Some l1) = svd_select svd A (n + m) k idxs)
   \<and> (pcovr_select se pinv A n Y alpha k idxs = Some p1 \<longrightarrow>
        (\<forall>p2. pcovr_select se pinv A (n + m) Y alpha k (Some p1) = Some p2 \<longrightarrow>
              take (length p1) p2 = p1)
        \<and> (\<forall>p3. pcovr_select se pinv A (n + m) Y alpha k idxs = Some p3 \<longrightarrow>
              take (length p1) p3 = p1))
   \<and> (compute lib c n_c n_r = Some (t, c') \<and> pi_fun c = Name s \<longrightarrow>
        (\<forall>l. idx_c c = Some l \<longrightarrow> (\<exists>sfx. idx_c c' = Some (l @ sfx)))
        \<and> (\<forall>l. \<not> fs c \<and> \<not> symmetric c \<and> idx_r c = Some l \<longrightarrow>
              (\<exists>sfx. idx_r c' = Some (l @ sfx))))"
proof (intro conjI impI allI)
  assume "svd_select svd A n k idxs = Some l1"
  then show "svd_select svd A (n + m) k (Some l1) = svd_select svd A (n + m) k idxs"
    by (rule svd_select_resume)
next
  fix p2
  assume "pcovr_select se pinv A (n + m) Y alpha k (Some p1) = Some p2"
  then show "take (length p1) p2 = p1"
    by (rule pcovr_select_prefix)
next
  fix p3
  assume "pcovr_select se pinv A n Y alpha k idxs = Some p1"
    and "pcovr_select se pinv A (n + m) Y alpha k idxs = Some p3"
  then show "take (length p1) p3 = p1"
    by (rule pcovr_select_longer)
next
  fix l
  assume "compute lib c n_c n_r = Some (t, c') \<and> pi_fun c = Name s" and "idx_c c = Some l"
  with compute_extends[of lib c n_c n_r t c' s]
  show "\<exists>sfx. idx_c c' = Some (l @ sfx)" by blast
next
  fix l
  assume "compute lib c n_c n_r = Some (t, c') \<and> pi_fun c = Name s"
    and "\<not> fs c \<and> \<not> symmetric c \<and> idx_r c = Some l"
  with compute_extends[of lib c n_c n_r t c' s]
  show "\<exists>sfx. idx_r c' = Some (l @ sfx)" by blast
qed

theorem selection_resumable_witness:
  "svd_select (ex_svd None) ex_A 1 1 None = Some [0]
   \<and> svd_select (ex_svd None) ex_A (1 + 1) 1 (Some [0]) =
       svd_select (ex_svd None) ex_A (1 + 1) 1 None
   \<and> pcovr_select ex_eig ex_pinv ex_A 1 ex_Y (Fin (1 / 2)) 1 None = Some [0]
   \<and> pcovr_select ex_eig ex_pinv ex_A (1 + 1) ex_Y (Fin (1 / 2)) 1 (Some [0]) = Some [0, 1]
   \<and> pcovr_select ex_eig ex_pinv ex_A (1 + 1) ex_Y (Fin (1 / 2)) 1 None = Some [0, 1]
   \<and> take (length [0 :: nat]) [0, 1 :: nat] = [0]
   \<and> compute ex_lib (ex_cur True False (Some [0]) (Some [0])) 2 None =
        Some ((ex_A, of_rows [[1 / 2, 0], [0, 1]], ex_A),
              ex_cur True False (Some [0, 1]) (Some [0, 1]))
   \<and> (\<exists>sfx. idx_c (ex_cur True False (Some [0, 1]) (Some [0, 1])) = Some ([0] @ sfx))"
proof -
  note T = selection_resumable[of "ex_svd None" ex_A 1 1 None "[0]" 1 ex_eig ex_pinv ex_Y
      "Fin (1 / 2)" "[0]" ex_lib "ex_cur True False (Some [0]) (Some [0])" 2 None
      "(ex_A, of_rows [[1 / 2, 0], [0, 1]], ex_A)" "ex_cur True False (Some [0, 1]) (Some [0, 1])"
      "''svd''"]
  have two: "1 + 1 = (2 :: nat)" by simp
  have a: "svd_select (ex_svd None) ex_A 1 1 None = Some [0]"
    by (rule ex_svd_select_1)
  have b: "pcovr_select ex_eig ex_pinv ex_A 1 ex_Y (Fin (1 / 2)) 1 None = Some [0]"
    by (rule ex_pcovr_select_1)
  have b2: "pcovr_select ex_eig ex_pinv ex_A (1 + 1) ex_Y (Fin (1 / 2)) 1 (Some [0]) = Some [0, 1]"
    unfolding two by (rule ex_pcovr_select_2_replay)
  have b3: "pcovr_select ex_eig ex_pinv ex_A (1 + 1) ex_Y (Fin (1 / 2)) 1 None = Some [0, 1]"
    unfolding two by (rule ex_pcovr_select_2)
  have c: "compute ex_lib (ex_cur True False (Some [0]) (Some [0])) 2 None =
        Some ((ex_A, of_rows [[1 / 2, 0], [0, 1]], ex_A),
              ex_cur True False (Some [0, 1]) (Some [0, 1]))"
    by (rule ex_compute_resume)
  have d: "pi_fun (ex_cur True False (Some [0]) (Some [0])) = Name ''svd''"
          "idx_c (ex_cur True False (Some [0]) (Some [0])) = Some [0]"
    by (simp_all add: ex_cur_def)
  from T a have 1: "svd_select (ex_svd None) ex_A (1 + 1) 1 (Some [0]) =
       svd_select (ex_svd None) ex_A (1 + 1) 1 None" by blast
  from T b b2 have 2: "take (length [0 :: nat]) [0, 1 :: nat] = [0]" by blast
  from T c d have 3: "\<exists>sfx. idx_c (ex_cur True False (Some [0, 1]) (Some [0, 1])) = Some ([0] @ sfx)"
    by blast
  from a 1 b b2 b3 2 c 3 show ?thesis by blast
qed

text \<open>
  An instance that selects with a function of the caller's: \<^verbatim>\<open>compute\<close> caches whatever
  list that function returns. After \<^verbatim>\<open>compute(1)\<close> the cached columns are \<open>[0]\<close>; after
  \<^verbatim>\<open>compute(2)\<close> they are \<open>[1, 0]\<close>, which does not begin with \<open>[0]\<close>.
\<close>

theorem cached_list_replaced_by_callable:
  "init ex_nf_lib ex_A None True (Callable ex_newest_first) (Fin (1 / 10000))
     \<lparr>param_k = None, param_Y = None, param_alpha = None\<rparr> = Some (ex_nf_cur None None)
   \<and> compute ex_nf_lib (ex_nf_cur None None) 1 None =
       Some ((of_rows [[2], [0]], of_rows [[1 / 2, 0]], ex_A),
             ex_nf_cur (Some [0]) (Some [0, 1]))
   \<and> compute ex_nf_lib (ex_nf_cur (Some [0]) (Some [0, 1])) 2 None =
       Some ((of_rows [[0, 2], [1, 0]], of_rows [[0, 1], [1 / 2, 0]], ex_A),
             ex_nf_cur (Some [1, 0]) (Some [0, 1]))
   \<and> idx_c (ex_nf_cur (Some [0]) (Some [0, 1])) = Some [0]
   \<and> idx_c (ex_nf_cur (Some [1, 0]) (Some [0, 1])) = Some [1, 0]
   \<and> take 1 [1, 0 :: nat] \<noteq> [0]"
  by (simp add: ex_nf_init ex_nf_compute_1[simplified] ex_nf_compute_2[simplified])
     (simp add: ex_nf_cur_def)

text \<open>
  C3 (a duplicate index). \<^verbatim>\<open>svd_select\<close> asked for three columns of the 2 x 2 matrix
  \<open>ex_A\<close> returns \<open>[0, 1, 0]\<close>, whatever the library returns for the exhausted working
  copy: every score of the third round is set to zero, and \<^verbatim>\<open>argmax\<close> of zeros is 0.
\<close>

theorem svd_select_duplicate_index:
  "svd_select (ex_svd (Some (S, v, Mat 2 [[x, y]]))) ex_A 3 1 None = Some [0, 1, 0]
   \<and> \<not> distinct [0, 1, 0 :: nat]"
  by (simp add: ex_svd_select_3[simplified])

text \<open>
  C5 (rank exhaustion is not a failure of the covariance construction). \<^verbatim>\<open>pcovr_select\<close>
  is asked for three columns of the 2 x 2 matrix \<open>ex_A\<close> of rank 2. In the third round
  the working copy is the zero matrix; whatever eigenvectors the eigen-solver returns
  for it, no eigenvalue exceeds the regularization and \<^verbatim>\<open>get_Ct\<close> returns the zero matrix:
  it does not raise, and the branch that returns the gathered indices is not taken.
  Every score is set to zero, index 0 is selected again, and the deflation with its zero
  column fills the working copy with \<open>NaN\<close>. Then \<^verbatim>\<open>update\<close> calls the pseudoinverse on an
  array of \<open>NaN\<close>: when that raises, \<^verbatim>\<open>pcovr_select\<close> raises; when it returns, the result
  is \<open>[0, 1, 0]\<close>. In neither case are the two gathered indices returned.
\<close>

theorem pcovr_select_rank_exhausted:
  "get_Ct (ex_eig_full (Mat 2 [[a, b], [c, d]]) (Mat 1 [[x], [y]])) ex_A2 ex_Y (Fin (1 / 2))
     default_regularization = Some ex_A2
   \<and> pcovr_select (ex_eig_full (Mat 2 [[a, b], [c, d]]) (Mat 1 [[x], [y]])) ex_pinv ex_A 3 ex_Y
       (Fin (1 / 2)) 1 None = None
   \<and> pcovr_select (ex_eig_full (Mat 2 [[a, b], [c, d]]) (Mat 1 [[x], [y]])) ex_pinv_nan ex_A 3
       ex_Y (Fin (1 / 2)) 1 None = Some [0, 1, 0]"
  by (simp add: ex_full_get_Ct_2[simplified] pcovr_select_def numeral_3_eq_3
      ex_full_round_0[simplified] ex_full_round_1[simplified]
      ex_pcovr_round_0[simplified] ex_pcovr_round_1[simplified] ex_round_nan_0[simplified]
      ex_round_nan_1[simplified] ex_full_round_2[simplified] ex_full_round_2_nan[simplified])

text \<open>
  C10 (what a selection changes). A call that returns leaves the array \<open>A\<close> (and \<open>Y\<close>) and
  every other object of the caller as it was, except the list \<open>idxs\<close> it resumes from:
  that list holds its former content followed by the newly selected indices, and so
  does the returned list, which is a new object.
\<close>

theorem selection_effects:
  "(svd_select_store svd h A n k idxs = Some (r, h') \<and> get_array h A = Some M
      \<and> (case idxs of None \<Rightarrow> True | Some i \<Rightarrow> get_list h i = Some l0)
    \<longrightarrow> get_array h' A = Some M
        \<and> (\<forall>p<length h. Some p \<noteq> idxs \<longrightarrow> h' ! p = h ! p)
        \<and> length h \<le> r
        \<and> (\<exists>new. get_list h' r = Some ((case idxs of None \<Rightarrow> [] | Some i \<Rightarrow> l0) @ new)
              \<and> svd_select svd M n k (map_option (\<lambda>i. l0) idxs) =
                  Some ((case idxs of None \<Rightarrow> [] | Some i \<Rightarrow> l0) @ new)
              \<and> (\<forall>i. idxs = Some i \<longrightarrow> get_list h' i = Some (l0 @ new))))
   \<and> (pcovr_select_store se pinv g A' n' Y alpha k' idxs' = Some (r', g')
      \<and> get_array g A' = Some M' \<and> get_array g Y = Some Y0
      \<and> (case idxs' of None \<Rightarrow> True | Some i \<Rightarrow> get_list g i = Some l0')
    \<longrightarrow> get_array g' A' = Some M' \<and> get_array g' Y = Some Y0
        \<and> (\<forall>p<length g. Some p \<noteq> idxs' \<longrightarrow> g' ! p = g ! p)
        \<and> length g \<le> r'
        \<and> (\<exists>new. get_list g' r' = Some ((case idxs' of None \<Rightarrow> [] | Some i \<Rightarrow> l0') @ new)
              \<and> pcovr_select se pinv M' n' Y0 alpha k' (map_option (\<lambda>i. l0') idxs') =
                  Some ((case idxs' of None \<Rightarrow> [] | Some i \<Rightarrow> l0') @ new)
              \<and> (\<forall>i. idxs' = Some i \<longrightarrow> get_list g' i = Some (l0' @ new))))"
proof (intro conjI impI)
  assume "svd_select_store svd h A n k idxs = Some (r, h') \<and> get_array h A = Some M
      \<and> (case idxs of None \<Rightarrow> True | Some i \<Rightarrow> get_list h i = Some l0)"
  then have run: "svd_select_store svd h A n k idxs = Some (r, h')"
    and A: "get_array h A = Some M"
    and I: "case idxs of None \<Rightarrow> True | Some i \<Rightarrow> get_list h i = Some l0"
    by simp_all
  from svd_select_store_effect[OF run A I] obtain l where
    l: "svd_select svd M n k (map_option (\<lambda>_. l0) idxs) = Some l"
    and e: "get_array h' A = Some M" "length h \<le> r" "get_list h' r = Some l"
       "\<forall>i. idxs = Some i \<longrightarrow> get_list h' i = Some l"
       "\<forall>p<length h. Some p \<noteq> idxs \<longrightarrow> h' ! p = h ! p"
    by blast
  have "\<exists>new. l = (case idxs of None \<Rightarrow> [] | Some i \<Rightarrow> l0) @ new"
  proof (cases idxs)
    case None
    then show ?thesis by simp
  next
    case (Some i)
    with l svd_select_prefix[of svd M n k l0 l] show ?thesis by simp
  qed
  then obtain new where new: "l = (case idxs of None \<Rightarrow> [] | Some i \<Rightarrow> l0) @ new" ..
  show "get_array h' A = Some M" by (rule e(1))
  show "\<forall>p<length h. Some p \<noteq> idxs \<longrightarrow> h' ! p = h ! p" by (rule e(5))
  show "length h \<le> r" by (rule e(2))
  show "\<exists>new. get_list h' r = Some ((case idxs of None \<Rightarrow> [] | Some i \<Rightarrow> l0) @ new)
              \<and> svd_select svd M n k (map_option (\<lambda>i. l0) idxs) =
                  Some ((case idxs of None \<Rightarrow> [] | Some i \<Rightarrow> l0) @ new)
              \<and> (\<forall>i. idxs = Some i \<longrightarrow> get_list h' i = Some (l0 @ new))"
    using l e(3,4) new by (intro exI[of _ new]) auto
next
  assume "pcovr_select_store se pinv g A' n' Y alpha k' idxs' = Some (r', g')
      \<and> get_array g A' = Some M' \<and> get_array g Y = Some Y0
      \<and> (case idxs' of None \<Rightarrow> True | Some i \<Rightarrow> get_list g i = Some l0')"
  then have run: "pcovr_select_store se pinv g A' n' Y alpha k' idxs' = Some (r', g')"
    and A: "get_array g A' = Some M'" and Y: "get_array g Y = Some Y0"
    and I: "case idxs' of None \<Rightarrow> True | Some i \<Rightarrow> get_list g i = Some l0'"
    by simp_all
  from pcovr_select_store_effect[OF run A Y I] obtain l where
    l: "pcovr_select se pinv M' n' Y0 alpha k' (map_option (\<lambda>_. l0') idxs') = Some l"
    and e: "get_array g' A' = Some M'" "get_array g' Y = Some Y0" "length g \<le> r'"
       "get_list g' r' = Some l"
       "\<forall>i. idxs' = Some i \<longrightarrow> get_list g' i = Some l"
       "\<forall>p<length g. Some p \<noteq> idxs' \<longrightarrow> g' ! p = g ! p"
    by blast
  have "\<exists>new. l = (case idxs' of None \<Rightarrow> [] | Some i \<Rightarrow> l0') @ new"
  proof (cases idxs')
    case None
    then show ?thesis by simp
  next
    case (Some i)
    with l pcovr_select_prefix[of se pinv M' n' Y0 alpha k' l0' l]
    have "take (length l0') l = l0'" by simp
    then have "l = l0' @ drop (length l0') l" by (metis append_take_drop_id)
    with Some show ?thesis by auto
  qed
  then obtain new where new: "l = (case idxs' of None \<Rightarrow> [] | Some i \<Rightarrow> l0') @ new" ..
  show "get_array g' A' = Some M'" by (rule e(1))
  show "get_array g' Y = Some Y0" by (rule e(2))
  show "\<forall>p<length g. Some p \<noteq> idxs' \<longrightarrow> g' ! p = g ! p" by (rule e(6))
  show "length g \<le> r'" by (rule e(3))
  show "\<exists>new. get_list g' r' = Some ((case idxs' of None \<Rightarrow> [] | Some i \<Rightarrow> l0') @ new)
              \<and> pcovr_select se pinv M' n' Y0 alpha k' (map_option (\<lambda>i. l0') idxs') =
                  Some ((case idxs' of None \<Rightarrow> [] | Some i \<Rightarrow> l0') @ new)
              \<and> (\<forall>i. idxs' = Some i \<longrightarrow> get_list g' i = Some (l0' @ new))"
    using l e(4,5) new by (intro exI[of _ new]) auto
qed


theorem selection_effects_witness:
  "svd_select_store (ex_svd None) ex_store 0 2 1 (Some 2) =
     Some (4, [Array ex_A, Array ex_Y, PyList [0, 1], Array ex_A2, PyList [0, 1]])
   \<and> pcovr_select_store ex_eig ex_pinv ex_store 0 2 1 (Fin (1 / 2)) 1 (Some 2) =
     Some (5, [Array ex_A, Array ex_Y, PyList [0, 1], Array ex_A2, Array ex_Y, PyList [0, 1]])
   \<and> get_array ex_store 0 = Some ex_A \<and> get_array ex_store 1 = Some ex_Y
   \<and> get_list ex_store 2 = Some [0]
   \<and> get_array [Array ex_A, Array ex_Y, PyList [0, 1], Array ex_A2, PyList [0, 1]] 0 = Some ex_A
   \<and> get_array [Array ex_A, Array ex_Y, PyList [0, 1], Array ex_A2, Array ex_Y, PyList [0, 1]] 0
       = Some ex_A
   \<and> get_array [Array ex_A, Array ex_Y, PyList [0, 1], Array ex_A2, Array ex_Y, PyList [0, 1]] 1
       = Some ex_Y
   \<and> length ex_store \<le> 4"
proof -
  let ?h1 = "[Array ex_A, Array ex_Y, PyList [0, 1], Array ex_A2, PyList [0, 1]]"
  let ?g1 = "[Array ex_A, Array ex_Y, PyList [0, 1], Array ex_A2, Array ex_Y, PyList [0, 1]]"
  note T = selection_effects[of "ex_svd None" ex_store 0 2 1 "Some 2" 4 ?h1 ex_A "[0]"
      ex_eig ex_pinv ex_store 0 2 1 "Fin (1 / 2)" 1 "Some 2" 5 ?g1 ex_A ex_Y "[0]"]
  have a: "svd_select_store (ex_svd None) ex_store 0 2 1 (Some 2) = Some (4, ?h1)"
    by (rule ex_svd_select_store)
  have b: "pcovr_select_store ex_eig ex_pinv ex_store 0 2 1 (Fin (1 / 2)) 1 (Some 2) = Some (5, ?g1)"
    by (rule ex_pcovr_select_store)
  have c: "get_array ex_store 0 = Some ex_A" "get_array ex_store 1 = Some ex_Y"
    "get_list ex_store 2 = Some [0]"
    by (simp_all add: ex_store_def get_array_def get_list_def)
  have d: "case Some (2 :: nat) of None \<Rightarrow> True | Some i \<Rightarrow> get_list ex_store i = Some [0]"
    using c by simp
  from T a c(1) d have 1: "get_array ?h1 0 = Some ex_A" and 2: "length ex_store \<le> 4"
    by blast+
  from T b c(1,2) d have 3: "get_array ?g1 0 = Some ex_A" and 4: "get_array ?g1 1 = Some ex_Y"
    by blast+
  from a b c 1 2 3 4 show ?thesis by blast
qed

text \<open>
  C9 (the property updater). \<^verbatim>\<open>update\<close> replaces \<open>Y\<close> by \<open>Y - H \<cdot> Y\<close>, entry by entry, where
  \<open>H = X_c \<cdot> pinv(X_c\<^sup>T \<cdot> X_c) \<cdot> X_c\<^sup>T\<close>.
\<close>

theorem update_formula:
  assumes "update pinv Y_copy X_c = Some Y'"
  shows "\<exists>G P XP H HY.
           matmul (mat_T X_c) X_c = Some G \<and> pinv G = Some P
         \<and> matmul X_c P = Some XP \<and> matmul XP (mat_T X_c) = Some H
         \<and> matmul H Y_copy = Some HY
         \<and> np_sub Y_copy HY = Some Y'
         \<and> shape Y' = shape Y_copy
         \<and> (\<forall>i<nrows Y_copy. \<forall>j<ncols Y_copy.
               entry HY i j = dot (rows H ! i) (column Y_copy j)
             \<and> entry Y' i j = fsub (entry Y_copy i j) (entry HY i j))"
proof -
  from assms obtain G P XP H HY where
    s: "matmul (mat_T X_c) X_c = Some G" "pinv G = Some P" "matmul X_c P = Some XP"
       "matmul XP (mat_T X_c) = Some H" "matmul H Y_copy = Some HY" "np_sub Y_copy HY = Some Y'"
    by (auto simp: update_def split: bind_splits)
  from np_sub_SomeD[OF s(6)] have
    sh: "shape Y_copy = shape HY" and
    Y': "Y' = mk (nrows Y_copy) (ncols Y_copy) (\<lambda>i j. fsub (entry Y_copy i j) (entry HY i j))"
    by auto
  from matmul_SomeD[OF s(5)] have
    HY: "HY = mk (nrows H) (ncols Y_copy) (\<lambda>i j. dot (rows H ! i) (column Y_copy j))"
    by auto
  from sh HY have n: "nrows H = nrows Y_copy" by (simp add: shape_def nrows_mk)
  have "shape Y' = shape Y_copy"
    using Y' by (simp add: shape_def nrows_mk ncols_mk)
  moreover have "\<forall>i<nrows Y_copy. \<forall>j<ncols Y_copy.
               entry HY i j = dot (rows H ! i) (column Y_copy j)
             \<and> entry Y' i j = fsub (entry Y_copy i j) (entry HY i j)"
    using Y' HY n by (simp add: entry_mk)
  ultimately show ?thesis using s by blast
qed

theorem update_formula_witness:
  "update ex_pinv_1x1 (of_rows [[1], [1]]) (of_rows [[1], [0]]) = Some (of_rows [[0], [1]])
   \<and> shape (of_rows [[0], [1]]) = shape (of_rows [[1], [1]])
   \<and> (\<exists>H HY. matmul H (of_rows [[1], [1]]) = Some HY
         \<and> np_sub (of_rows [[1], [1]]) HY = Some (of_rows [[0], [1]]))"
  using update_formula[OF ex_update_1x1] ex_update_1x1 by blast

text \<open>
  C4 (the covariance). The matrix returned by \<^verbatim>\<open>get_Ct\<close> is
  \<open>alpha \<cdot> cov + (1 - alpha) \<cdot> M \<cdot> M\<^sup>T\<close> with \<open>cov = X\<^sup>T \<cdot> X\<close> and \<open>M = Csqrt \<cdot> (Cinv \<cdot> X\<^sup>T \<cdot> Y)\<close>,
  where \<open>Csqrt\<close> and \<open>Cinv\<close> are built from the eigenpairs whose eigenvalue exceeds the
  regularization. For \<open>alpha = 1\<close> a returned matrix without \<open>NaN\<close> is \<open>cov\<close> itself.
\<close>

theorem get_Ct_formula:
  assumes "get_Ct sorted_eig X Y alpha regularization = Some C"
  shows "\<exists>cov v_C U_C U v UD Csqrt UI Cinv XtY B M C_lr.
           matmul (mat_T X) X = Some cov
         \<and> sorted_eig cov (Some regularization) None = Some (v_C, U_C)
         \<and> mask_cols U_C (map (fless regularization) v_C) = Some U
         \<and> mask_vec v_C (map (fless regularization) v_C) = Some v
         \<and> matmul U (np_diag (map fsqrt v)) = Some UD \<and> matmul UD (mat_T U) = Some Csqrt
         \<and> matmul U (np_diag (map (fdiv (Fin 1)) v)) = Some UI \<and> matmul UI (mat_T U) = Some Cinv
         \<and> matmul (mat_T X) Y = Some XtY \<and> matmul Cinv XtY = Some B \<and> matmul Csqrt B = Some M
         \<and> matmul M (mat_T M) = Some C_lr
         \<and> shape C = shape cov \<and> shape C_lr = shape cov
         \<and> (\<forall>i<ncols X. \<forall>j<ncols X.
               entry C i j =
                 fadd (fmul alpha (entry cov i j)) (fmul (fsub (Fin 1) alpha) (entry C_lr i j)))
         \<and> (alpha = Fin 1 \<and> nan_free C \<longrightarrow> C = cov)"
  using assms by (rule get_Ct_SomeD)

theorem get_Ct_formula_witness:
  "get_Ct ex_eig_1x1 (of_rows [[2]]) (of_rows [[1]]) (Fin 1) default_regularization =
     Some (of_rows [[4]])
   \<and> nan_free (of_rows [[4]])
   \<and> matmul (mat_T (of_rows [[2]])) (of_rows [[2]]) = Some (of_rows [[4]])"
proof -
  have nf: "nan_free (of_rows [[4]])" by (simp add: nan_free_def of_rows_def)
  from get_Ct_formula[OF ex_get_Ct_1x1_alpha1] nf
  have "matmul (mat_T (of_rows [[2]])) (of_rows [[2]]) = Some (of_rows [[4]])" by auto
  with ex_get_Ct_1x1_alpha1 nf show ?thesis by blast
qed

text \<open>
  The covariance of the specification's wording is another matrix: for \<open>X = [[2]]\<close>,
  \<open>Y = [[1]]\<close> and \<open>alpha = 1/2\<close> the code returns \<open>[[5/2]]\<close>, the wording gives \<open>[[9/4]]\<close>.
\<close>

theorem get_Ct_spec_counterexample:
  "get_Ct ex_eig_1x1 (of_rows [[2]]) (of_rows [[1]]) (Fin (1 / 2)) default_regularization =
     Some (of_rows [[5 / 2]])
   \<and> get_Ct_spec ex_eig_1x1 (of_rows [[2]]) (of_rows [[1]]) (Fin (1 / 2)) default_regularization =
     Some (of_rows [[9 / 4]])
   \<and> of_rows [[5 / 2]] \<noteq> of_rows [[9 / 4]]"
  by (simp add: ex_get_Ct_1x1 ex_get_Ct_spec_1x1) (simp add: of_rows_def)

text \<open>
  C6 (the decomposition triple). The triple returned by \<^verbatim>\<open>compute\<close>: \<open>A_c\<close> holds the
  columns of \<open>A\<close> at the selected column indices; \<open>A_r\<close> is \<open>A\<close> itself in feature selection
  mode, the transpose of \<open>A_c\<close> for a symmetric instance without feature selection, and
  the rows of \<open>A\<close> at the selected row indices otherwise; \<open>S = pinv(A_c) \<cdot> A \<cdot> pinv(A_r)\<close>.
  The selected indices are the lists cached after the call, or their first \<open>n_c\<close> and
  \<open>n_r\<close> entries when the cache was long enough.
\<close>

theorem compute_triple:
  assumes "compute lib c n_c n_r = Some ((A_c, S, A_r), c')"
  shows "\<exists>ic ir lc lr PA_c PA_cA PA_r.
           idx_c c' = Some lc \<and> idx_r c' = Some lr
         \<and> (ic = lc \<and> ir = lr \<or> c' = c \<and> ic = take n_c lc \<and> (\<exists>m. ir = take m lr))
         \<and> take_cols (self_A c) ic = Some A_c
         \<and> shape A_c = (nrows (self_A c), length ic)
         \<and> (\<forall>i<nrows (self_A c). \<forall>t<length ic. entry A_c i t = entry (self_A c) i (ic ! t))
         \<and> (if fs c then A_r = self_A c
             else if symmetric c then A_r = mat_T A_c
             else take_rows (self_A c) ir = Some A_r
                  \<and> (\<forall>t<length ir. \<forall>j<ncols (self_A c).
                        entry A_r t j = entry (self_A c) (ir ! t) j))
         \<and> lib_pinv lib A_c = Some PA_c \<and> matmul PA_c (self_A c) = Some PA_cA
         \<and> lib_pinv lib A_r = Some PA_r \<and> matmul PA_cA PA_r = Some S"
proof -
  let ?n_r = "if fs c then Some (ncols (self_A c))
              else if symmetric c \<and> n_r = None then Some n_c else n_r"
  from assms obtain ic ir PA_c PA_cA PA_r where
    sel: "(if idx_c c = None \<or> (\<not> fs c \<and> idx_r c = None) then refresh_idx lib c n_c ?n_r
          else
            do {
              lc \<leftarrow> idx_c c;
              short \<leftarrow> (if length lc < n_c then Some True
                        else do { lr \<leftarrow> idx_r c; m \<leftarrow> ?n_r; Some (length lr < m) });
              if short then refresh_idx lib c n_c ?n_r
              else do { lr \<leftarrow> idx_r c; m \<leftarrow> ?n_r; Some ((take n_c lc, take m lr), c) }
            }) = Some ((ic, ir), c')"
    and Ac: "take_cols (self_A c) ic = Some A_c"
    and Ar: "(if symmetric c \<and> \<not> fs c then Some (mat_T A_c)
               else if fs c then Some (self_A c)
               else take_rows (self_A c) ir) = Some A_r"
    and S: "lib_pinv lib A_c = Some PA_c" "matmul PA_c (self_A c) = Some PA_cA"
       "lib_pinv lib A_r = Some PA_r" "matmul PA_cA PA_r = Some S"
    by (auto simp: compute_def Let_def split: bind_splits)
  from sel have "(refresh_idx lib c n_c ?n_r = Some ((ic, ir), c')) \<or>
     (c' = c \<and> (\<exists>lc lr m. idx_c c = Some lc \<and> idx_r c = Some lr \<and> ic = take n_c lc \<and> ir = take m lr))"
    by (auto split: if_splits bind_splits)
  then have idx: "\<exists>lc lr. idx_c c' = Some lc \<and> idx_r c' = Some lr
         \<and> (ic = lc \<and> ir = lr \<or> c' = c \<and> ic = take n_c lc \<and> (\<exists>m. ir = take m lr))"
    using refresh_idx_cached by blast
  from take_cols_SomeD[OF Ac] have
    A_c: "A_c = mk (nrows (self_A c)) (length ic) (\<lambda>i t. entry (self_A c) i (ic ! t))" by simp
  have shp: "shape A_c = (nrows (self_A c), length ic)"
    by (simp add: A_c shape_def nrows_mk ncols_mk)
  have ent: "\<forall>i<nrows (self_A c). \<forall>t<length ic. entry A_c i t = entry (self_A c) i (ic ! t)"
    by (simp add: A_c entry_mk)
  have ar: "if fs c then A_r = self_A c
             else if symmetric c then A_r = mat_T A_c
             else take_rows (self_A c) ir = Some A_r
                  \<and> (\<forall>t<length ir. \<forall>j<ncols (self_A c).
                        entry A_r t j = entry (self_A c) (ir ! t) j)"
    using Ar by (auto split: if_splits dest!: take_rows_SomeD simp: entry_mk)
  from idx Ac shp ent ar S show ?thesis by blast
qed


theorem compute_triple_witness:
  "compute ex_lib (ex_cur True False (Some [0]) (Some [0])) 2 None =
     Some ((ex_A, of_rows [[1 / 2, 0], [0, 1]], ex_A),
           ex_cur True False (Some [0, 1]) (Some [0, 1]))
   \<and> symmetric (ex_cur True False (Some [0]) (Some [0]))
   \<and> \<not> fs (ex_cur True False (Some [0]) (Some [0]))
   \<and> ex_A = mat_T ex_A"
proof -
  have m: "symmetric (ex_cur True False (Some [0]) (Some [0]))"
    "\<not> fs (ex_cur True False (Some [0]) (Some [0]))"
    by (simp_all add: ex_cur_def)
  from compute_triple[OF ex_compute_resume] m have "ex_A = mat_T ex_A" by auto
  with ex_compute_resume m show ?thesis by blast
qed

text \<open>
  A symmetric matrix with feature selection: the constructor sets the symmetry flag,
  and \<^verbatim>\<open>compute\<close> returns the full matrix as \<open>A_r\<close>, not the transpose of \<open>A_c\<close>.
\<close>

theorem compute_symmetric_feature_select_counterexample:
  "init ex_lib ex_A None True (Name ''svd'') (Fin (1 / 10000))
     \<lparr>param_k = None, param_Y = None, param_alpha = None\<rparr> = Some (ex_cur True True None None)
   \<and> symmetric (ex_cur True True None None)
   \<and> compute ex_lib (ex_cur True True None None) 1 None =
       Some ((of_rows [[2], [0]], of_rows [[1 / 2, 0]], ex_A),
             ex_cur True True (Some [0]) (Some [0, 1]))
   \<and> ex_A \<noteq> mat_T (of_rows [[2], [0]])"
proof (intro conjI)
  show "ex_A \<noteq> mat_T (of_rows [[2], [0]])"
    by (simp add: ex_A_def arr_ev)
  show "symmetric (ex_cur True True None None)"
    by (simp add: ex_cur_def)
qed (rule ex_init_fs, rule ex_compute_fs)

text \<open>
  C7 (the loss can grow with the column count). The instance that
  \<^verbatim>\<open>CUR(B, precompute=(3, 1))\<close> builds for the 4 x 3 matrix \<open>ex_B\<close> of rank 3 caches three
  columns and one row. Its call \<^verbatim>\<open>loss(1, 3)\<close> has to select two more rows, and the
  selection of the columns, resumed for one round from the cached list, returns all
  three cached columns: the decomposition uses the three of them, and the loss is 0. The
  call \<^verbatim>\<open>loss(2, 3)\<close> that follows finds both cached lists long enough and uses the first
  two columns: the loss is \<open>1 / sqrt 14\<close>, greater than the loss for one column.
\<close>

theorem loss_not_monotone:
  "init ex_B_lib ex_B (Some (3, 1)) False (Name ''svd'') (Fin (1 / 10000))
        \<lparr>param_k = None, param_Y = None, param_alpha = None\<rparr> =
     Some (ex_B_cur (Some [0, 1, 2]) (Some [0]))
   \<and> loss ex_B_lib (ex_B_cur (Some [0, 1, 2]) (Some [0])) 1 (Some 3) =
       Some (Fin 0, ex_B_cur (Some [0, 1, 2]) (Some [0, 1, 2]))
   \<and> loss ex_B_lib (ex_B_cur (Some [0, 1, 2]) (Some [0, 1, 2])) 2 (Some 3) =
       Some (Fin (1 / sqrt 14), ex_B_cur (Some [0, 1, 2]) (Some [0, 1, 2]))
   \<and> fless (Fin 0) (Fin (1 / sqrt 14))"
  by (simp add: ex_B_init[simplified] ex_B_loss_1[simplified] ex_B_loss_2[simplified])

text \<open>
  C8 (PCovR selection with \<open>alpha = 1\<close>). Let \<^verbatim>\<open>pcovr_select\<close> with \<open>alpha = 1\<close> and
  \<open>k = 1\<close> and \<^verbatim>\<open>svd_select\<close> with \<open>k = 1\<close>, called on the same matrix for the same count
  \<open>n\<close>, both return; let the eigen-solver and \<^verbatim>\<open>svds\<close> give the scores of a leading
  eigenvector of the covariance of the working copy to within \<open>eps\<close>; and let, in every
  round, the covariance that \<^verbatim>\<open>get_Ct\<close> returns have no \<open>NaN\<close> and one unselected
  column that leads in it by more than \<open>2 * eps\<close>. Then the list of \<^verbatim>\<open>pcovr_select\<close> is the
  list of \<^verbatim>\<open>svd_select\<close> cut to its length, the same indices in the same order, and it is
  the same list when \<^verbatim>\<open>pcovr_select\<close> returns all \<open>n\<close> indices. The property matrix \<open>Y\<close>
  is arbitrary.
\<close>

theorem pcovr_alpha_one_selects_as_svd:
  assumes "pcovr_select se pinv A n Y (Fin 1) 1 None = Some l"
    and "svd_select svd A n 1 None = Some l'"
    and "eig_contract eps se" and "svd_contract eps svd"
    and "\<forall>i<n. \<forall>X Y1 li C.
           pcovr_rounds se pinv (Fin 1) 1 0 i (A, Y, []) = Some (Next (X, Y1, li)) \<longrightarrow>
           get_Ct se X Y1 (Fin 1) default_regularization = Some C \<longrightarrow>
           nan_free C \<and> clear_leader eps C li"
  shows "l = take (length l) l' \<and> (length l = n \<longrightarrow> l = l')"
proof -
  from assms(1) obtain r where
    r: "pcovr_rounds se pinv (Fin 1) 1 0 n (A, Y, []) = Some r" and
    l: "l = (case r of Next (M', Y', l') \<Rightarrow> l' | Return l' \<Rightarrow> l')"
    by (auto simp: pcovr_select_def split: bind_splits step.splits)
  from assms(2) obtain M' where s: "svd_rounds svd 1 0 n (A, []) = Some (M', l')"
    by (auto simp: svd_select_def split: bind_splits)
  have "case r of Next (M2, Y2, l2) \<Rightarrow> M2 = M' \<and> l2 = l'
                | Return l0 \<Rightarrow> l0 = take (length l0) l'"
    using assms(5) by (intro rounds_agree[OF assms(3,4) r s]) blast
  with l have p: "l = take (length l) l'"
    by (cases r) auto
  from svd_rounds_length[OF s] have "length l' = n" by simp
  with p show ?thesis by (metis take_all order_refl)
qed

theorem pcovr_alpha_one_selects_as_svd_witness:
  "pcovr_select ex_eig ex_pinv ex_A 2 ex_Y (Fin 1) 1 None = Some [0, 1]
   \<and> svd_select (ex_svd None) ex_A 2 1 None = Some [0, 1]
   \<and> eig_contract (1 / 100) ex_eig \<and> svd_contract (1 / 100) (ex_svd None)
   \<and> get_Ct ex_eig ex_A ex_Y (Fin 1) default_regularization = Some (of_rows [[4, 0], [0, 1]])
   \<and> clear_leader (1 / 100) (of_rows [[4, 0], [0, 1]]) []
   \<and> get_Ct ex_eig ex_A1 ex_Y (Fin 1) default_regularization = Some (of_rows [[0, 0], [0, 1]])
   \<and> clear_leader (1 / 100) (of_rows [[0, 0], [0, 1]]) [0]
   \<and> [0, 1 :: nat] = take (length [0, 1 :: nat]) [0, 1]"
proof -
  have c0: "clear_leader (1 / 100) (of_rows [[4, 0], [0, 1]]) []"
    by (rule clear_leader_diag2_fst) simp_all
  have c1: "clear_leader (1 / 100) (of_rows [[0, 0], [0, 1]]) [0]"
    by (rule clear_leader_diag2_snd) simp_all
  have ec: "eig_contract (1 / 100) ex_eig" by (rule ex_eig_contract) simp
  have sc: "svd_contract (1 / 100) (ex_svd None)" by (rule ex_svd_contract) simp
  have F: "\<forall>i<2. \<forall>X Y1 li C.
           pcovr_rounds ex_eig ex_pinv (Fin 1) 1 0 i (ex_A, ex_Y, []) = Some (Next (X, Y1, li)) \<longrightarrow>
           get_Ct ex_eig X Y1 (Fin 1) default_regularization = Some C \<longrightarrow>
           nan_free C \<and> clear_leader (1 / 100) C li"
  proof (intro allI impI)
    fix i X Y1 li C
    assume i: "i < (2 :: nat)"
      and s: "pcovr_rounds ex_eig ex_pinv (Fin 1) 1 0 i (ex_A, ex_Y, []) = Some (Next (X, Y1, li))"
      and g: "get_Ct ex_eig X Y1 (Fin 1) default_regularization = Some C"
    from i have "i = 0 \<or> i = 1" by auto
    then show "nan_free C \<and> clear_leader (1 / 100) C li"
    proof
      assume "i = 0"
      with s g have "C = of_rows [[4, 0], [0, 1]] \<and> li = []"
        by (auto simp: ex_get_Ct_0_alpha1)
      with c0 show ?thesis by (simp add: nan_free_def of_rows_def)
    next
      assume "i = 1"
      with s g have "C = of_rows [[0, 0], [0, 1]] \<and> li = [0]"
        by (auto simp: ex_pcovr_rounds_1_alpha1[simplified] ex_get_Ct_1_alpha1)
      with c1 show ?thesis by (simp add: nan_free_def of_rows_def)
    qed
  qed
  from pcovr_alpha_one_selects_as_svd[OF ex_pcovr_select_2_alpha1 ex_svd_select_2 ec sc F]
  have "[0, 1 :: nat] = take (length [0, 1 :: nat]) [0, 1]" by (rule conjunct1)
  with ex_pcovr_select_2_alpha1 ex_svd_select_2[of None] ec sc
    ex_get_Ct_0_alpha1 c0 ex_get_Ct_1_alpha1 c1
  show ?thesis by (intro conjI)
qed

text \<open>
  The identity matrix, one index requested. Every unit vector is a leading direction of
  its covariance, and no column leads in all of them: the eigen-solver returns \<open>e\<^sub>0\<close> and
  \<^verbatim>\<open>pcovr_select\<close> selects column 0, \<^verbatim>\<open>svds\<close> returns \<open>e\<^sub>1\<close> and \<^verbatim>\<open>svd_select\<close> selects
  column 1. Both routines return an exact leading pair.
\<close>

theorem pcovr_alpha_one_counterexample:
  "pcovr_select ex_I_eig ex_pinv ex_I 1 ex_Y (Fin 1) 1 None = Some [0]
   \<and> svd_select ex_I_svd ex_I 1 1 None = Some [1]
   \<and> eig_contract 0 ex_I_eig \<and> svd_contract 0 ex_I_svd
   \<and> \<not> clear_leader 0 ex_I []"
  using ex_I_pcovr_select ex_I_svd_select ex_I_eig_contract ex_I_svd_contract
    no_clear_leader_ex_I[of 0 "[]"]
  by simp


end
